(* ===== verification/Prelude.thy ===== *)
theory Prelude
  imports Main "HOL-Library.Word" "HOL-Library.AList"
begin

text \<open>
  The vocabulary shared by every theory of the development: the C++ integer types as machine
  words, \<open>std::string\<close> and \<open>std::vector<uint8_t>\<close> with the conversions between
  them, \<open>std::unordered_map\<close> as an association list with distinct keys, and the named
  collections that the component theories fill and their proofs use.
\<close>

unbundle bit_operations_syntax

section \<open>Collections of facts\<close>

named_theorems byte_simps \<open>bytes, characters and big-endian numbers\<close>
named_theorems umap_simps \<open>lookup after insertion and removal in an unordered map\<close>
named_theorems spec_defs \<open>definitions a component unfolds in its own proofs\<close>

section \<open>Machine integers\<close>

type_synonym u8 = "8 word"
type_synonym u16 = "16 word"
type_synonym u32 = "32 word"
type_synonym u64 = "64 word"
type_synonym bytes = "u8 list"

text \<open>
  \<open>int64_t\<close> and \<open>int32_t\<close> are the same bit patterns read with \<open>sint\<close>; a
  \<open>static_cast\<close> between integer types is \<open>ucast\<close> (truncation or zero extension) or
  \<open>scast\<close> (sign extension), as the source's type is unsigned or signed.
\<close>

type_synonym i64 = "64 word"
type_synonym i32 = "32 word"

text \<open>Storing an integer in a narrower member and reading it back keeps its low bits.\<close>

lemma ucast_cut:
  fixes x :: "64 word"
  shows "ucast (ucast x :: u8) = take_bit 8 x" "ucast (ucast x :: u16) = take_bit 16 x"
    "ucast (ucast x :: u32) = take_bit 32 x"
  by (rule bit_word_eqI; auto simp: bit_simps)+

section \<open>Strings and bytes\<close>

text \<open>
  \<open>std::string\<close> is a sequence of bytes, as HOL's \<open>string\<close> is. Copying between the two
  (\<open>std::vector<uint8_t>(s.begin(), s.end())\<close> and \<open>reinterpret_cast<const char*>\<close>)
  keeps every byte.
\<close>

definition byte_of_char :: "char \<Rightarrow> u8" where
  "byte_of_char c = word_of_nat (of_char c)"

definition char_of_byte :: "u8 \<Rightarrow> char" where
  "char_of_byte b = char_of (unat b)"

lemma char_of_byte_of_char [simp, byte_simps]: "char_of_byte (byte_of_char c) = c"
proof -
  have "(of_char c :: nat) < 256" by simp
  then show ?thesis
    by (simp add: byte_of_char_def char_of_byte_def unat_of_nat)
qed

lemma byte_of_char_of_byte [simp, byte_simps]: "byte_of_char (char_of_byte b) = b"
proof -
  have "unat b < 2 ^ LENGTH(8)" by (rule unsigned_less)
  then have "unat b mod 256 = unat b" by simp
  then show ?thesis
    by (simp add: byte_of_char_def char_of_byte_def)
qed

definition bytes_of_string :: "string \<Rightarrow> bytes" where
  "bytes_of_string s = map byte_of_char s"

definition string_of_bytes :: "bytes \<Rightarrow> string" where
  "string_of_bytes bs = map char_of_byte bs"

lemma string_of_bytes_of_string [simp, byte_simps]: "string_of_bytes (bytes_of_string s) = s"
  by (simp add: string_of_bytes_def bytes_of_string_def comp_def)

lemma bytes_of_string_of_bytes [simp, byte_simps]: "bytes_of_string (string_of_bytes bs) = bs"
  by (simp add: string_of_bytes_def bytes_of_string_def comp_def)

lemma length_bytes_of_string [simp, byte_simps]: "length (bytes_of_string s) = length s"
  by (simp add: bytes_of_string_def)

lemma length_string_of_bytes [simp, byte_simps]: "length (string_of_bytes bs) = length bs"
  by (simp add: string_of_bytes_def)

section \<open>Unordered maps\<close>

text \<open>
  \<open>std::unordered_map<uint16_t, T>\<close>: the list order is the order in which the container is
  iterated, which the C++ standard leaves open; the lemmas hold for every order. \<open>operator[]\<close>
  assignment is \<open>AList.update\<close>, \<open>find\<close> is \<open>map_of\<close>, \<open>erase\<close> is
  \<open>AList.delete\<close>. \<open>emplace\<close> leaves an entry that is already there alone.
\<close>

type_synonym ('k, 'v) umap = "('k \<times> 'v) list"

abbreviation umap_find :: "('k, 'v) umap \<Rightarrow> 'k \<Rightarrow> 'v option" where
  "umap_find m k \<equiv> map_of m k"

abbreviation umap_set :: "('k, 'v) umap \<Rightarrow> 'k \<Rightarrow> 'v \<Rightarrow> ('k, 'v) umap" where
  "umap_set m k v \<equiv> AList.update k v m"

abbreviation umap_erase :: "('k, 'v) umap \<Rightarrow> 'k \<Rightarrow> ('k, 'v) umap" where
  "umap_erase m k \<equiv> AList.delete k m"

abbreviation umap_keys :: "('k, 'v) umap \<Rightarrow> 'k list" where
  "umap_keys m \<equiv> map fst m"

definition umap_emplace :: "('k, 'v) umap \<Rightarrow> 'k \<Rightarrow> 'v \<Rightarrow> ('k, 'v) umap" where
  "umap_emplace m k v = (case umap_find m k of None \<Rightarrow> umap_set m k v | Some _ \<Rightarrow> m)"

abbreviation umap_wf :: "('k, 'v) umap \<Rightarrow> bool" where
  "umap_wf m \<equiv> distinct (umap_keys m)"

lemma umap_find_set [simp, umap_simps]:
  "umap_find (umap_set m k v) k' = (if k' = k then Some v else umap_find m k')"
  by (simp add: update_conv')

lemma umap_find_erase [simp, umap_simps]:
  "umap_find (umap_erase m k) k' = (if k' = k then None else umap_find m k')"
  by (simp add: delete_conv')

lemma umap_wf_set [simp, umap_simps]: "umap_wf m \<Longrightarrow> umap_wf (umap_set m k v)"
  by (rule distinct_update)

lemma umap_wf_erase [simp, umap_simps]: "umap_wf m \<Longrightarrow> umap_wf (umap_erase m k)"
  by (rule distinct_delete)

lemma umap_keys_set [umap_simps]: "set (umap_keys (umap_set m k v)) = insert k (set (umap_keys m))"
  using dom_update [of k v m] by (simp add: image_comp)

lemma umap_keys_erase [umap_simps]: "set (umap_keys (umap_erase m k)) = set (umap_keys m) - {k}"
  by (simp add: delete_keys)

lemma umap_find_None_iff [umap_simps]: "umap_find m k = None \<longleftrightarrow> k \<notin> set (umap_keys m)"
  by (simp add: map_of_eq_None_iff)

lemma umap_find_Some_key: "umap_find m k = Some v \<Longrightarrow> k \<in> set (umap_keys m)"
  using map_of_SomeD by force

lemma umap_find_of_key: "k \<in> set (umap_keys m) \<Longrightarrow> \<exists>v. umap_find m k = Some v"
  by (metis not_None_eq umap_find_None_iff)

lemma umap_find_mem: "umap_wf m \<Longrightarrow> (k, v) \<in> set m \<Longrightarrow> umap_find m k = Some v"
  by (rule map_of_is_SomeI)

lemma umap_find_emplace [simp, umap_simps]:
  "umap_find (umap_emplace m k v) k' =
     (if k' = k \<and> umap_find m k = None then Some v else umap_find m k')"
  by (simp add: umap_emplace_def split: option.splits)

lemma umap_wf_emplace [simp, umap_simps]: "umap_wf m \<Longrightarrow> umap_wf (umap_emplace m k v)"
  by (simp add: umap_emplace_def split: option.splits)

end
