(* ===== verification/Results.thy ===== *)
theory Results
  imports Prelude
begin

text \<open>
  \<open>include/lwm2m/result.hpp\<close>: the error codes, the class \<open>Error\<close> with its
  categories, and the two \<open>Result\<close> classes with their observers and combinators.
  \<open>Result<T>\<close> is the sum \<open>error + 'a\<close>, \<open>Result<void>\<close> the same sum over
  \<open>unit\<close>; the calls that throw return the exception as the left value of a sum of their
  own.
\<close>

section \<open>Errors\<close>

text \<open>The enumerators of \<open>ErrorCode\<close>, in the order of the declaration.\<close>

datatype error_code =
    E_Success
  | E_BadRequest | E_Unauthorized | E_Forbidden | E_NotFound | E_MethodNotAllowed
  | E_NotAcceptable | E_RequestEntityIncomplete | E_PreconditionFailed
  | E_RequestEntityTooLarge | E_UnsupportedContentFormat
  | E_InternalServerError | E_NotImplemented | E_BadGateway | E_ServiceUnavailable
  | E_GatewayTimeout
  | E_Timeout | E_ConnectionFailed | E_DtlsHandshakeFailed | E_NetworkUnreachable
  | E_EncodingError | E_DecodingError | E_InvalidState | E_ResourceBusy

fun error_code_value :: "error_code \<Rightarrow> int" where
  "error_code_value E_Success = 0"
| "error_code_value E_BadRequest = 400"
| "error_code_value E_Unauthorized = 401"
| "error_code_value E_Forbidden = 403"
| "error_code_value E_NotFound = 404"
| "error_code_value E_MethodNotAllowed = 405"
| "error_code_value E_NotAcceptable = 406"
| "error_code_value E_RequestEntityIncomplete = 408"
| "error_code_value E_PreconditionFailed = 412"
| "error_code_value E_RequestEntityTooLarge = 413"
| "error_code_value E_UnsupportedContentFormat = 415"
| "error_code_value E_InternalServerError = 500"
| "error_code_value E_NotImplemented = 501"
| "error_code_value E_BadGateway = 502"
| "error_code_value E_ServiceUnavailable = 503"
| "error_code_value E_GatewayTimeout = 504"
| "error_code_value E_Timeout = 600"
| "error_code_value E_ConnectionFailed = 601"
| "error_code_value E_DtlsHandshakeFailed = 602"
| "error_code_value E_NetworkUnreachable = 603"
| "error_code_value E_EncodingError = 700"
| "error_code_value E_DecodingError = 701"
| "error_code_value E_InvalidState = 702"
| "error_code_value E_ResourceBusy = 703"

record error =
  err_code :: error_code
  err_message :: string

definition mk_error :: "error_code \<Rightarrow> string \<Rightarrow> error" where
  "mk_error c m = \<lparr>err_code = c, err_message = m\<rparr>"

lemma mk_error_sel [simp]: "err_code (mk_error c m) = c" "err_message (mk_error c m) = m"
  by (simp_all add: mk_error_def)

lemma mk_error_inject [simp]: "mk_error c m = mk_error c' m' \<longleftrightarrow> c = c' \<and> m = m'"
  by (simp add: mk_error_def)

definition is_client_error :: "error \<Rightarrow> bool" where
  "is_client_error e = (let c = error_code_value (err_code e) in c \<ge> 400 \<and> c < 500)"

definition is_server_error :: "error \<Rightarrow> bool" where
  "is_server_error e = (let c = error_code_value (err_code e) in c \<ge> 500 \<and> c < 600)"

definition is_transport_error :: "error \<Rightarrow> bool" where
  "is_transport_error e = (let c = error_code_value (err_code e) in c \<ge> 600 \<and> c < 700)"

lemma error_code_value_inject [simp]:
  "error_code_value c = error_code_value d \<longleftrightarrow> c = d"
  by (cases c; cases d) simp_all

text \<open>An error is in at most one category; only success and the internal 7xx codes are in none.\<close>

lemma error_categories_exclusive:
  "\<not> (is_client_error e \<and> is_server_error e)"
  "\<not> (is_client_error e \<and> is_transport_error e)"
  "\<not> (is_server_error e \<and> is_transport_error e)"
  by (auto simp: is_client_error_def is_server_error_def is_transport_error_def Let_def)

lemma error_categories_cover:
  "is_client_error e \<or> is_server_error e \<or> is_transport_error e \<or>
   err_code e \<in> {E_Success, E_EncodingError, E_DecodingError, E_InvalidState, E_ResourceBusy}"
  by (cases "err_code e")
    (simp_all add: is_client_error_def is_server_error_def is_transport_error_def)

section \<open>Results\<close>

type_synonym 'a result = "error + 'a"

abbreviation ok :: "'a \<Rightarrow> 'a result" where
  "ok v \<equiv> Inr v"

definition err :: "error_code \<Rightarrow> string \<Rightarrow> 'a result" where
  "err c m = Inl (mk_error c m)"

lemma err_neq_ok [simp]: "err c m \<noteq> ok v" "ok v \<noteq> err c m"
  by (simp_all add: err_def)

lemma err_inject [simp]: "err c m = err c' m' \<longleftrightarrow> c = c' \<and> m = m'"
  by (simp add: err_def)

lemma case_err [simp]: "case_sum f g (err c m) = f (mk_error c m)"
  by (simp add: err_def)

definition is_ok :: "'a result \<Rightarrow> bool" where
  "is_ok r = (case r of Inl _ \<Rightarrow> False | Inr _ \<Rightarrow> True)"

definition is_err :: "'a result \<Rightarrow> bool" where
  "is_err r = (case r of Inl _ \<Rightarrow> True | Inr _ \<Rightarrow> False)"

lemma is_ok_simps [simp]: "is_ok (ok v)" "\<not> is_ok (Inl e)" "\<not> is_ok (err c m)"
  by (simp_all add: is_ok_def)

lemma is_err_simps [simp]: "\<not> is_err (ok v)" "is_err (Inl e)" "is_err (err c m)"
  by (simp_all add: is_err_def)

lemma is_err_iff: "is_err r \<longleftrightarrow> \<not> is_ok r"
  by (cases r) simp_all

text \<open>\<open>value()\<close> and \<open>error()\<close> throw \<open>std::runtime_error\<close> on the other alternative.\<close>

datatype exn = Runtime_Error string

definition result_value :: "'a result \<Rightarrow> exn + 'a" where
  "result_value r = (case r of
     Inl _ \<Rightarrow> Inl (Runtime_Error ''Result::value() called on error'')
   | Inr v \<Rightarrow> Inr v)"

definition result_error :: "'a result \<Rightarrow> exn + error" where
  "result_error r = (case r of
     Inl e \<Rightarrow> Inr e
   | Inr _ \<Rightarrow> Inl (Runtime_Error ''Result::error() called on success''))"

definition value_or :: "'a result \<Rightarrow> 'a \<Rightarrow> 'a" where
  "value_or r d = (case r of Inl _ \<Rightarrow> d | Inr v \<Rightarrow> v)"

definition result_map :: "('a \<Rightarrow> 'b) \<Rightarrow> 'a result \<Rightarrow> 'b result" where
  "result_map f r = (case r of Inl e \<Rightarrow> Inl e | Inr v \<Rightarrow> Inr (f v))"

definition and_then :: "'a result \<Rightarrow> ('a \<Rightarrow> 'b result) \<Rightarrow> 'b result" where
  "and_then r f = (case r of Inl e \<Rightarrow> Inl e | Inr v \<Rightarrow> f v)"

lemma value_or_simps [simp]: "value_or (ok v) d = v" "value_or (Inl e) d = d"
  by (simp_all add: value_or_def)

lemma result_map_simps [simp]:
  "result_map f (ok v) = ok (f v)" "result_map f (Inl e) = Inl e" "result_map f (err c m) = err c m"
  by (simp_all add: result_map_def err_def)

lemma and_then_simps [simp]:
  "and_then (ok v) f = f v" "and_then (Inl e) f = Inl e" "and_then (err c m) f = err c m"
  by (simp_all add: and_then_def err_def)

lemma is_ok_map [simp]: "is_ok (result_map f r) = is_ok r"
  by (cases r) simp_all

lemma result_map_eq_ok: "result_map f r = ok w \<longleftrightarrow> (\<exists>v. r = ok v \<and> w = f v)"
  by (cases r) auto

lemma and_then_eq_ok: "and_then r f = ok w \<longleftrightarrow> (\<exists>v. r = ok v \<and> f v = ok w)"
  by (cases r) auto

lemma result_value_iff: "result_value r = Inr v \<longleftrightarrow> r = ok v"
  by (cases r) (simp_all add: result_value_def)

section \<open>The result without a value\<close>

text \<open>
  \<open>Result<void>\<close> is a class of its own, over an optional error instead of a variant. It
  implements the sum over \<open>unit\<close>, by which the rest of the development models it.
\<close>

type_synonym void_result = "error option"

definition void_ok :: void_result where
  "void_ok = None"

definition void_err :: "error_code \<Rightarrow> string \<Rightarrow> void_result" where
  "void_err c m = Some (mk_error c m)"

definition void_is_ok :: "void_result \<Rightarrow> bool" where
  "void_is_ok r = (\<not> r \<noteq> None)"

definition void_is_err :: "void_result \<Rightarrow> bool" where
  "void_is_err r = (r \<noteq> None)"

definition void_error :: "void_result \<Rightarrow> exn + error" where
  "void_error r =
     (if \<not> r \<noteq> None then Inl (Runtime_Error ''Result::error() called on success'')
      else Inr (the r))"

definition void_abs :: "void_result \<Rightarrow> unit result" where
  "void_abs r = (case r of None \<Rightarrow> ok () | Some e \<Rightarrow> Inl e)"

lemma void_abs_bij: "bij void_abs"
proof (rule o_bij)
  show "(\<lambda>r. case r of Inl e \<Rightarrow> Some e | Inr _ \<Rightarrow> None) \<circ> void_abs = id"
    by (auto simp: void_abs_def fun_eq_iff split: option.split)
  show "void_abs \<circ> (\<lambda>r. case r of Inl e \<Rightarrow> Some e | Inr _ \<Rightarrow> None) = id"
    by (auto simp: void_abs_def fun_eq_iff split: sum.split)
qed

lemma void_refines:
  "void_abs void_ok = ok ()" "void_abs (void_err c m) = err c m"
  "is_ok (void_abs r) = void_is_ok r" "is_err (void_abs r) = void_is_err r"
  "result_error (void_abs r) = void_error r"
  by (auto simp: void_abs_def void_ok_def void_err_def void_is_ok_def void_is_err_def
      void_error_def result_error_def err_def split: option.split)

end
