(* ===== verification/Paths.thy ===== *)
theory Paths
  imports Results
begin

text \<open>
  \<open>include/lwm2m/types.hpp\<close> and \<open>src/types.cpp\<close>: the strong identifier types, the
  standard object ids, \<open>ObjectPath\<close> with its constructors, depth tests, printer and parser,
  and the access bits. The printer writes numbers in decimal as \<open>operator<<\<close> does; the parser
  follows the source's loop over segments, with \<open>std::from_chars\<close> for a \<open>uint16_t\<close>
  written out. The lemmas characterise the parser, and show that it inverts the printer.
\<close>

section \<open>Strong types\<close>

text \<open>The template parameter \<open>Tag\<close> is a phantom type, as in the source.\<close>

datatype ('t, 'tag) strong_type = Strong (strong_value: 't)

typedecl object_id_tag
typedecl instance_id_tag
typedecl resource_id_tag
typedecl resource_instance_id_tag

type_synonym object_id = "(u16, object_id_tag) strong_type"
type_synonym instance_id = "(u16, instance_id_tag) strong_type"
type_synonym resource_id = "(u16, resource_id_tag) strong_type"
type_synonym resource_instance_id = "(u16, resource_instance_id_tag) strong_type"

text \<open>\<open>operator<\<close> compares the wrapped values.\<close>

definition strong_less :: "('a::ord, 'b) strong_type \<Rightarrow> ('a, 'b) strong_type \<Rightarrow> bool" where
  "strong_less a b \<longleftrightarrow> strong_value a < strong_value b"

instantiation strong_type :: (linorder, type) linorder
begin

definition less_strong_type :: "('a, 'b) strong_type \<Rightarrow> ('a, 'b) strong_type \<Rightarrow> bool" where
  "less_strong_type a b \<longleftrightarrow> strong_less a b"

definition less_eq_strong_type :: "('a, 'b) strong_type \<Rightarrow> ('a, 'b) strong_type \<Rightarrow> bool" where
  "less_eq_strong_type a b \<longleftrightarrow> strong_value a \<le> strong_value b"

instance
  by standard
    (auto simp: less_strong_type_def less_eq_strong_type_def strong_less_def strong_type.expand)

end

definition oid_Security :: object_id where "oid_Security = Strong 0"
definition oid_Server :: object_id where "oid_Server = Strong 1"
definition oid_AccessControl :: object_id where "oid_AccessControl = Strong 2"
definition oid_Device :: object_id where "oid_Device = Strong 3"
definition oid_ConnectivityMonitoring :: object_id where "oid_ConnectivityMonitoring = Strong 4"
definition oid_FirmwareUpdate :: object_id where "oid_FirmwareUpdate = Strong 5"
definition oid_Location :: object_id where "oid_Location = Strong 6"

lemmas oid_defs = oid_Security_def oid_Server_def oid_AccessControl_def oid_Device_def
  oid_ConnectivityMonitoring_def oid_FirmwareUpdate_def oid_Location_def

section \<open>Object paths\<close>

record object_path =
  object_id :: object_id
  instance_id :: "instance_id option"
  resource_id :: "resource_id option"
  resource_instance_id :: "resource_instance_id option"

definition path_object :: "object_id \<Rightarrow> object_path" where
  "path_object oid = \<lparr>object_id = oid, instance_id = None, resource_id = None,
     resource_instance_id = None\<rparr>"

definition path_instance :: "object_id \<Rightarrow> instance_id \<Rightarrow> object_path" where
  "path_instance oid iid = \<lparr>object_id = oid, instance_id = Some iid, resource_id = None,
     resource_instance_id = None\<rparr>"

definition path_resource :: "object_id \<Rightarrow> instance_id \<Rightarrow> resource_id \<Rightarrow> object_path" where
  "path_resource oid iid rid = \<lparr>object_id = oid, instance_id = Some iid,
     resource_id = Some rid, resource_instance_id = None\<rparr>"

definition is_object :: "object_path \<Rightarrow> bool" where
  "is_object p \<longleftrightarrow> instance_id p = None"

definition is_instance :: "object_path \<Rightarrow> bool" where
  "is_instance p \<longleftrightarrow> instance_id p \<noteq> None \<and> resource_id p = None"

definition is_resource :: "object_path \<Rightarrow> bool" where
  "is_resource p \<longleftrightarrow> resource_id p \<noteq> None \<and> resource_instance_id p = None"

definition is_resource_instance :: "object_path \<Rightarrow> bool" where
  "is_resource_instance p \<longleftrightarrow> resource_instance_id p \<noteq> None"

lemmas path_depth_defs = is_object_def is_instance_def is_resource_def is_resource_instance_def
lemmas path_cons_defs = path_object_def path_instance_def path_resource_def

section \<open>Printing\<close>

definition digit_char :: "nat \<Rightarrow> char" where
  "digit_char d = char_of (48 + d)"

text \<open>\<open>oss << n\<close> for an unsigned \<open>n\<close>: decimal, no leading zero.\<close>

fun decimal :: "nat \<Rightarrow> string" where
  "decimal n = (if n < 10 then [digit_char n] else decimal (n div 10) @ [digit_char (n mod 10)])"

declare decimal.simps [simp del]

definition show_u16 :: "u16 \<Rightarrow> string" where
  "show_u16 w = decimal (unat w)"

definition to_string :: "object_path \<Rightarrow> string" where
  "to_string p =
     ''/'' @ show_u16 (strong_value (object_id p)) @
     (case instance_id p of None \<Rightarrow> [] | Some iid \<Rightarrow>
        ''/'' @ show_u16 (strong_value iid) @
        (case resource_id p of None \<Rightarrow> [] | Some rid \<Rightarrow>
           ''/'' @ show_u16 (strong_value rid) @
           (case resource_instance_id p of None \<Rightarrow> [] | Some riid \<Rightarrow>
              ''/'' @ show_u16 (strong_value riid))))"

section \<open>Parsing\<close>

text \<open>
  \<open>std::from_chars(first, last, value)\<close> for an unsigned type and base 10: the longest
  prefix of digits; no digit is \<open>invalid_argument\<close>, a number above the type's maximum
  \<open>result_out_of_range\<close>. The result is the number of characters consumed, the error code
  and the value, which keeps its initial 0 on an error.
\<close>

datatype errc = Invalid_Argument | Result_Out_Of_Range

definition is_digit :: "char \<Rightarrow> bool" where
  "is_digit c \<longleftrightarrow> 48 \<le> (of_char c :: nat) \<and> (of_char c :: nat) \<le> 57"

definition digits_value :: "string \<Rightarrow> nat" where
  "digits_value s = foldl (\<lambda>n c. 10 * n + (of_char c - 48)) 0 s"

definition from_chars_u16 :: "string \<Rightarrow> nat \<times> errc option \<times> u16" where
  "from_chars_u16 s =
     (let ds = takeWhile is_digit s in
      if ds = [] then (0, Some Invalid_Argument, 0)
      else if digits_value ds > 65535 then (length ds, Some Result_Out_Of_Range, 0)
      else (length ds, None, word_of_nat (digits_value ds)))"

text \<open>\<open>path.find('/', pos)\<close>: the first index at or after \<open>pos\<close>; \<open>None\<close> is \<open>npos\<close>.\<close>

function find_char :: "char \<Rightarrow> string \<Rightarrow> nat \<Rightarrow> nat option" where
  "find_char c s pos =
     (if pos < length s then (if s ! pos = c then Some pos else find_char c s (Suc pos)) else None)"
  by pat_completeness auto
termination
  by (relation "measure (\<lambda>(c, s, pos). length s - pos)") auto

declare find_char.simps [simp del]

definition substr :: "string \<Rightarrow> nat \<Rightarrow> nat \<Rightarrow> string" where
  "substr s pos n = take n (drop pos s)"

text \<open>The \<open>switch\<close> that stores a component into the result.\<close>

fun set_component :: "nat \<Rightarrow> u16 \<Rightarrow> object_path \<Rightarrow> object_path" where
  "set_component 0 v r = r\<lparr>object_id := Strong v\<rparr>"
| "set_component (Suc 0) v r = r\<lparr>instance_id := Some (Strong v)\<rparr>"
| "set_component (Suc (Suc 0)) v r = r\<lparr>resource_id := Some (Strong v)\<rparr>"
| "set_component (Suc (Suc (Suc 0))) v r = r\<lparr>resource_instance_id := Some (Strong v)\<rparr>"
| "set_component _ v r = r"

text \<open>The loop: \<open>Some\<close> the component count and the path, \<open>None\<close> for \<open>return std::nullopt\<close>.\<close>

lemma find_char_bound: "find_char c s pos = Some e \<Longrightarrow> pos \<le> e \<and> e < length s"
proof (induction c s pos rule: find_char.induct)
  case (1 c s pos)
  then show ?case by (subst (asm) (2) find_char.simps) (fastforce split: if_splits)
qed

function parse_loop :: "string \<Rightarrow> nat \<Rightarrow> nat \<Rightarrow> object_path \<Rightarrow> (nat \<times> object_path) option" where
  "parse_loop path pos component r =
     (if pos < length path \<and> component < 4 then
        let e = (case find_char CHR ''/'' path pos of None \<Rightarrow> length path | Some e \<Rightarrow> e);
            segment = substr path pos (e - pos)
        in if segment = [] then None
           else let (ptr, ec, v) = from_chars_u16 segment
                in if ec \<noteq> None \<or> ptr \<noteq> length segment then None
                   else parse_loop path (e + 1) (component + 1) (set_component component v r)
      else Some (component, r))"
  by pat_completeness auto
termination
  by (relation "measure (\<lambda>(path, pos, component, r). 4 - component)") auto

declare parse_loop.simps [simp del]

definition parse :: "string \<Rightarrow> object_path option" where
  "parse path =
     (if path = [] \<or> path ! 0 \<noteq> CHR ''/'' then None
      else if length path > 1 \<and> last path = CHR ''/'' then None
      else case parse_loop path 1 0 (path_object (Strong 0)) of
          None \<Rightarrow> None
        | Some (component, r) \<Rightarrow> if component = 0 then None else Some r)"

section \<open>Access permissions\<close>

datatype resource_access = Access (access_bits: u8)

definition access_None :: resource_access where "access_None = Access 0"
definition access_Read :: resource_access where "access_Read = Access 1"
definition access_Write :: resource_access where "access_Write = Access 2"
definition access_Execute :: resource_access where "access_Execute = Access 4"
definition access_ReadWrite :: resource_access where "access_ReadWrite = Access (1 OR 2)"

definition access_or :: "resource_access \<Rightarrow> resource_access \<Rightarrow> resource_access" where
  "access_or a b = Access (access_bits a OR access_bits b)"

definition has_access :: "resource_access \<Rightarrow> resource_access \<Rightarrow> bool" where
  "has_access perms required \<longleftrightarrow> access_bits perms AND access_bits required = access_bits required"

lemma has_access_or: "has_access p (access_or a b) \<longleftrightarrow> has_access p a \<and> has_access p b"
  by (auto simp: has_access_def access_or_def bit_eq_iff bit_simps)

lemma has_access_or_left: "has_access (access_or a b) a" "has_access (access_or a b) b"
  by (auto simp: has_access_def access_or_def bit_eq_iff bit_simps)

section \<open>The printer's digits and the parser's segments\<close>

lemma of_char_digit_char: "d < 10 \<Longrightarrow> of_char (digit_char d) = 48 + d"
  by (simp add: digit_char_def)

lemma is_digit_digit_char [simp]: "d < 10 \<Longrightarrow> is_digit (digit_char d)"
  by (simp add: is_digit_def of_char_digit_char)

lemma slash_not_digit [simp]: "\<not> is_digit CHR ''/''"
  by (simp add: is_digit_def)

lemma decimal_not_Nil [simp]: "decimal n \<noteq> []"
  by (subst decimal.simps) simp

lemma decimal_digits: "c \<in> set (decimal n) \<Longrightarrow> is_digit c"
proof (induction n rule: decimal.induct)
  case (1 n)
  then show ?case
    by (cases "n < 10") (auto simp: decimal.simps [of n])
qed

lemma digits_value_snoc: "digits_value (s @ [c]) = 10 * digits_value s + (of_char c - 48)"
  by (simp add: digits_value_def)

lemma digits_value_decimal [simp]: "digits_value (decimal n) = n"
proof (induction n rule: decimal.induct)
  case (1 n)
  show ?case
  proof (cases "n < 10")
    case True
    then show ?thesis
      by (simp add: decimal.simps [of n] digits_value_def of_char_digit_char)
  next
    case False
    then show ?thesis
      using 1 by (simp add: decimal.simps [of n] digits_value_snoc of_char_digit_char)
  qed
qed

lemma decimal_no_slash: "CHR ''/'' \<notin> set (decimal n)"
  using decimal_digits slash_not_digit by blast

lemma takeWhile_digits_decimal [simp]: "takeWhile is_digit (decimal n) = decimal n"
  by (simp add: decimal_digits)

definition valid_segment :: "string \<Rightarrow> bool" where
  "valid_segment s \<longleftrightarrow> s \<noteq> [] \<and> list_all is_digit s \<and> digits_value s \<le> 65535"

lemma takeWhile_list_all: "list_all P s \<Longrightarrow> takeWhile P s = s"
  by (induction s) auto

lemma list_all_if_takeWhile: "length (takeWhile P s) = length s \<Longrightarrow> list_all P s"
  by (metis list_all_iff set_takeWhileD takeWhile_eq_take take_all_iff order_refl)

lemma from_chars_valid:
  "valid_segment s \<Longrightarrow> from_chars_u16 s = (length s, None, word_of_nat (digits_value s))"
  by (simp add: from_chars_u16_def valid_segment_def Let_def takeWhile_list_all)

lemma from_chars_invalid:
  "\<not> valid_segment s \<Longrightarrow> s \<noteq> [] \<Longrightarrow> from_chars_u16 s = (ptr, ec, v) \<Longrightarrow>
   ec \<noteq> None \<or> ptr \<noteq> length s"
  by (cases "list_all is_digit s")
    (auto simp: from_chars_u16_def valid_segment_def Let_def takeWhile_list_all
      dest: list_all_if_takeWhile split: if_splits)

lemma valid_segment_show [simp]: "valid_segment (show_u16 w)"
proof -
  have "unat w < 2 ^ LENGTH(16)" by (rule unsigned_less)
  then show ?thesis
    by (auto simp: valid_segment_def show_u16_def list_all_iff decimal_digits)
qed

lemma digits_value_show [simp]: "digits_value (show_u16 w) = unat w"
  by (simp add: show_u16_def)

text \<open>\<open>find\<close> in terms of the suffix that starts at \<open>pos\<close>.\<close>

lemma find_char_takeWhile:
  "pos \<le> length s \<Longrightarrow>
   find_char c s pos =
     (let k = length (takeWhile (\<lambda>x. x \<noteq> c) (drop pos s))
      in if pos + k < length s then Some (pos + k) else None)"
proof (induction c s pos rule: find_char.induct)
  case (1 c s pos)
  show ?case
  proof (cases "pos < length s")
    case True
    then have "drop pos s = s ! pos # drop (Suc pos) s"
      by (simp add: Cons_nth_drop_Suc)
    with True 1 show ?thesis
      by (subst find_char.simps) (auto simp: Let_def)
  next
    case False
    then show ?thesis by (subst find_char.simps) simp
  qed
qed

text \<open>The loop of the parser as a recursion over the suffix that is still to be read.\<close>

function parse_segments :: "string \<Rightarrow> nat \<Rightarrow> object_path \<Rightarrow> (nat \<times> object_path) option" where
  "parse_segments rest component r =
     (if rest \<noteq> [] \<and> component < 4 then
        let segment = takeWhile (\<lambda>x. x \<noteq> CHR ''/'') rest
        in if valid_segment segment
           then parse_segments (drop (Suc (length segment)) rest) (component + 1)
                  (set_component component (word_of_nat (digits_value segment)) r)
           else None
      else Some (component, r))"
  by pat_completeness auto
termination
  by (relation "measure (\<lambda>(rest, component, r). 4 - component)") auto

declare parse_segments.simps [simp del]

lemma parse_loop_segments: "parse_loop path pos component r = parse_segments (drop pos path) component r"
proof (induction path pos component r rule: parse_loop.induct)
  case (1 path pos component r)
  show ?case
  proof (cases "pos < length path \<and> component < 4")
    case True
    let ?seg = "takeWhile (\<lambda>x. x \<noteq> CHR ''/'') (drop pos path)"
    define e where "e = (case find_char CHR ''/'' path pos of None \<Rightarrow> length path | Some e \<Rightarrow> e)"
    have len: "length ?seg \<le> length path - pos"
      using length_takeWhile_le [of _ "drop pos path"] by simp
    then have e: "e = pos + length ?seg"
      using True unfolding e_def by (auto simp: find_char_takeWhile Let_def)
    have seg: "substr path pos (e - pos) = ?seg"
      by (simp add: substr_def e flip: takeWhile_eq_take)
    have drop: "drop (e + 1) path = drop (Suc (length ?seg)) (drop pos path)"
      by (simp add: e add.commute)
    show ?thesis
    proof (cases "valid_segment ?seg")
      case valid: True
      then have fc: "from_chars_u16 ?seg = (length ?seg, None, word_of_nat (digits_value ?seg))"
        by (rule from_chars_valid)
      from valid have ne: "?seg \<noteq> []" by (simp add: valid_segment_def)
      have "parse_loop path pos component r =
        parse_loop path (e + 1) (component + 1)
          (set_component component (word_of_nat (digits_value ?seg)) r)"
        using True ne fc by (subst parse_loop.simps) (simp flip: e_def add: Let_def seg)
      also have "\<dots> = parse_segments (drop (Suc (length ?seg)) (drop pos path)) (component + 1)
          (set_component component (word_of_nat (digits_value ?seg)) r)"
        using 1 [OF True e_def refl _ _ refl] True ne fc seg drop by simp
      also have "\<dots> = parse_segments (drop pos path) component r"
        using True valid by (subst (2) parse_segments.simps) (simp add: Let_def)
      finally show ?thesis .
    next
      case False
      obtain ptr ec v where fc: "from_chars_u16 ?seg = (ptr, ec, v)"
        by (cases "from_chars_u16 ?seg")
      have "parse_loop path pos component r = None"
        using True from_chars_invalid [OF False _ fc] fc
        by (subst parse_loop.simps) (auto simp flip: e_def simp add: Let_def seg)
      moreover have "parse_segments (drop pos path) component r = None"
        using True False by (subst parse_segments.simps) (simp add: Let_def)
      ultimately show ?thesis by simp
    qed
  next
    case False
    then show ?thesis
      by (subst parse_loop.simps, subst parse_segments.simps) auto
  qed
qed

section \<open>What the parser accepts\<close>

function segments :: "string \<Rightarrow> string list" where
  "segments rest =
     (if rest = [] then []
      else takeWhile (\<lambda>x. x \<noteq> CHR ''/'') rest
           # segments (drop (Suc (length (takeWhile (\<lambda>x. x \<noteq> CHR ''/'') rest))) rest))"
  by pat_completeness auto
termination
  by (relation "measure length") auto

declare segments.simps [simp del]

lemma segments_Nil [simp]: "segments [] = []"
  by (simp add: segments.simps)

lemma segments_last [simp]: "s \<noteq> [] \<Longrightarrow> CHR ''/'' \<notin> set s \<Longrightarrow> segments s = [s]"
proof -
  let ?t = "takeWhile (\<lambda>x. x \<noteq> CHR ''/'') s"
  assume s: "s \<noteq> []" "CHR ''/'' \<notin> set s"
  then have t: "?t = s" by (intro takeWhile_list_all) (auto simp: list_all_iff)
  have "segments s = ?t # segments (drop (Suc (length ?t)) s)"
    using s by (subst segments.simps) simp
  then show ?thesis unfolding t by simp
qed

lemma segments_slash [simp]:
  "CHR ''/'' \<notin> set s \<Longrightarrow> segments (s @ CHR ''/'' # rest) = s # segments rest"
proof -
  assume "CHR ''/'' \<notin> set s"
  then have "takeWhile (\<lambda>x. x \<noteq> CHR ''/'') (s @ CHR ''/'' # rest) = s"
    by (subst takeWhile_append2) auto
  then show ?thesis by (subst segments.simps) simp
qed

fun store_segments :: "string list \<Rightarrow> nat \<Rightarrow> object_path \<Rightarrow> object_path" where
  "store_segments [] component r = r"
| "store_segments (s # ss) component r =
     store_segments ss (Suc component) (set_component component (word_of_nat (digits_value s)) r)"

lemma parse_segments_eq:
  "component \<le> 4 \<Longrightarrow>
   parse_segments rest component r =
     (let ss = take (4 - component) (segments rest)
      in if list_all valid_segment ss
         then Some (component + length ss, store_segments ss component r) else None)"
proof (induction rest component r rule: parse_segments.induct)
  case (1 rest component r)
  show ?case
  proof (cases "rest \<noteq> [] \<and> component < 4")
    case True
    then obtain n where n: "4 - component = Suc n" "n = 4 - (component + 1)"
      by (metis Suc_diff_Suc Suc_eq_plus1)
    show ?thesis
      using True 1 n
      by (subst parse_segments.simps, subst segments.simps) (auto simp: Let_def)
  next
    case False
    then show ?thesis
      using 1 by (subst parse_segments.simps) auto
  qed
qed

text \<open>What the parser accepts, stated on the list of segments.\<close>

fun path_of_values :: "u16 list \<Rightarrow> object_path" where
  "path_of_values [] = path_object (Strong 0)"
| "path_of_values [ob] = path_object (Strong ob)"
| "path_of_values [ob, i] = path_instance (Strong ob) (Strong i)"
| "path_of_values [ob, i, r] = path_resource (Strong ob) (Strong i) (Strong r)"
| "path_of_values (ob # i # r # ri # _) =
     (path_resource (Strong ob) (Strong i) (Strong r))\<lparr>resource_instance_id := Some (Strong ri)\<rparr>"

lemma store_segments_values:
  "length ss \<le> 4 \<Longrightarrow>
   store_segments ss 0 (path_object (Strong 0)) = path_of_values (map (\<lambda>s. word_of_nat (digits_value s)) ss)"
proof -
  assume "length ss \<le> 4"
  then consider "ss = []" | a where "ss = [a]" | a b where "ss = [a, b]"
    | a b c where "ss = [a, b, c]" | a b c d where "ss = [a, b, c, d]"
    by (auto simp: le_Suc_eq length_Suc_conv numeral_eq_Suc)
  then show ?thesis
    by cases (simp_all add: path_cons_defs numeral_eq_Suc)
qed

definition parse_spec :: "string \<Rightarrow> object_path option" where
  "parse_spec path =
     (case path of [] \<Rightarrow> None | c # rest \<Rightarrow>
        let ss = take 4 (segments rest)
        in if c = CHR ''/'' \<and> rest \<noteq> [] \<and> last rest \<noteq> CHR ''/'' \<and> list_all valid_segment ss
           then Some (path_of_values (map (\<lambda>s. word_of_nat (digits_value s)) ss)) else None)"

lemma parse_eq_spec: "parse path = parse_spec path"
proof (cases path)
  case Nil
  then show ?thesis by (simp add: parse_def parse_spec_def)
next
  case (Cons c rest)
  show ?thesis
  proof (cases "c = CHR ''/'' \<and> rest \<noteq> [] \<and> last rest \<noteq> CHR ''/''")
    case True
    then have "segments rest \<noteq> []" by (subst segments.simps) simp
    define ss where "ss = take 4 (segments rest)"
    with \<open>segments rest \<noteq> []\<close> have ss: "ss \<noteq> []" "length ss \<le> 4" by auto
    have "parse_loop path 1 0 (path_object (Strong 0)) =
      (if list_all valid_segment ss then Some (length ss, store_segments ss 0 (path_object (Strong 0)))
       else None)"
      by (simp add: parse_loop_segments parse_segments_eq Cons ss_def Let_def)
    with True Cons ss show ?thesis
      by (simp add: parse_def parse_spec_def store_segments_values flip: ss_def)
  next
    case False
    then show ?thesis
      using Cons by (auto simp: parse_def parse_spec_def parse_loop_segments parse_segments_eq Let_def)
  qed
qed

definition prefix_closed :: "object_path \<Rightarrow> bool" where
  "prefix_closed p \<longleftrightarrow>
     (resource_instance_id p \<noteq> None \<longrightarrow> resource_id p \<noteq> None) \<and>
     (resource_id p \<noteq> None \<longrightarrow> instance_id p \<noteq> None)"

lemma prefix_closed_values: "prefix_closed (path_of_values vs)"
  by (cases vs rule: path_of_values.cases) (simp_all add: prefix_closed_def path_cons_defs)

lemma parse_prefix_closed: "parse s = Some p \<Longrightarrow> prefix_closed p"
  by (auto simp: parse_eq_spec parse_spec_def Let_def prefix_closed_values split: list.splits if_splits)

lemma show_u16_simps [simp]: "show_u16 w \<noteq> []" "CHR ''/'' \<notin> set (show_u16 w)"
  by (simp_all add: show_u16_def decimal_no_slash)

lemma last_show_u16 [simp]: "last (show_u16 w) \<noteq> CHR ''/''"
  by (metis last_in_set show_u16_simps)

lemma parse_to_string: "prefix_closed p \<Longrightarrow> parse (to_string p) = Some p"
  by (cases p)
    (auto simp: parse_eq_spec parse_spec_def to_string_def prefix_closed_def path_cons_defs Let_def
      split: option.splits)

text \<open>Whatever follows a complete four-component path is ignored, as long as it does not end in a slash.\<close>

lemma parse_ignores_suffix:
  assumes "prefix_closed p" "is_resource_instance p" "junk \<noteq> []" "last junk \<noteq> CHR ''/''"
  shows "parse (to_string p @ ''/'' @ junk) = Some p"
  using assms
  by (cases p)
    (auto simp: parse_eq_spec parse_spec_def to_string_def prefix_closed_def path_cons_defs Let_def
      is_resource_instance_def split: option.splits)

section \<open>Properties\<close>

text \<open>Printing a path whose components are present up to some depth and parsing the text
  gives the path back.\<close>

theorem path_roundtrip:
  "prefix_closed p \<Longrightarrow> parse (to_string p) = Some p"
  by (rule parse_to_string)

theorem path_roundtrip_witness:
  "parse (to_string (path_resource (Strong 3) (Strong 0) (Strong 65535))) =
     Some (path_resource (Strong 3) (Strong 0) (Strong 65535))"
  by (rule path_roundtrip) (simp add: prefix_closed_def path_resource_def)

text \<open>C35: the hand-written scanner of \<open>parse\<close> computes the declarative reading: a leading slash,
  no trailing one, and each of the first four segments a decimal number of 16 bits.\<close>

theorem parse_meets_spec: "parse path = parse_spec path"
  by (rule parse_eq_spec)

text \<open>A path that comes out of the parser never has a component without the ones before it.\<close>

theorem parse_result_prefix_closed:
  "parse s = Some p \<Longrightarrow> prefix_closed p"
  by (rule parse_prefix_closed)

theorem parse_result_prefix_closed_witness:
  "prefix_closed (path_instance (Strong 5) (Strong 1))"
proof -
  have "parse (to_string (path_instance (Strong 5) (Strong 1))) =
      Some (path_instance (Strong 5) (Strong 1))"
    by (rule parse_to_string) (simp add: prefix_closed_def path_instance_def)
  then show ?thesis by (rule parse_result_prefix_closed)
qed

text \<open>The parser stops after the fourth component: whatever follows it, digits or not, is
  accepted and ignored.\<close>

theorem parse_accepts_junk:
  assumes "prefix_closed p" "is_resource_instance p" "junk \<noteq> []" "last junk \<noteq> CHR ''/''"
  shows "parse (to_string p @ ''/'' @ junk) = Some p"
  by (rule parse_ignores_suffix [OF assms])

theorem parse_accepts_junk_witness:
  "parse (to_string (path_of_values [3, 0, 6, 1]) @ ''/'' @ ''junk'') = Some (path_of_values [3, 0, 6, 1])"
  by (rule parse_accepts_junk [OF prefix_closed_values])
    (simp_all add: is_resource_instance_def path_object_def path_resource_def)

end
