(* ===== verification/Resources.thy ===== *)
theory Resources
  imports Paths
begin

text \<open>
  \<open>include/lwm2m/resource.hpp\<close> and \<open>src/resource.cpp\<close>: the variant of resource
  values, the type enumeration, and the class \<open>Resource\<close> whose three operations check the
  access bits, then that a handler is set, and only then call it. A handler is application code:
  a function that takes and returns the state \<open>'s\<close> it works on.
\<close>

section \<open>Values and types\<close>

text \<open>
  A \<open>double\<close> is its IEEE 754 bit pattern (the codec copies it with \<open>memcpy\<close>), a
  \<open>system_clock::time_point\<close> its count of nanoseconds since the epoch in an
  \<open>int64_t\<close>.
\<close>

type_synonym double = u64
type_synonym time_point = i64

datatype resource_value =
    V_None
  | V_Bool bool
  | V_Int i64
  | V_Uint u64
  | V_Float double
  | V_String string
  | V_Opaque bytes
  | V_Time time_point
  | V_ObjLink object_path

datatype resource_type =
    T_None | T_Boolean | T_Integer | T_UnsignedInteger | T_Float | T_String | T_Opaque | T_Time
  | T_ObjectLink

fun get_resource_type :: "resource_value \<Rightarrow> resource_type" where
  "get_resource_type V_None = T_None"
| "get_resource_type (V_Bool _) = T_Boolean"
| "get_resource_type (V_Int _) = T_Integer"
| "get_resource_type (V_Uint _) = T_UnsignedInteger"
| "get_resource_type (V_Float _) = T_Float"
| "get_resource_type (V_String _) = T_String"
| "get_resource_type (V_Opaque _) = T_Opaque"
| "get_resource_type (V_Time _) = T_Time"
| "get_resource_type (V_ObjLink _) = T_ObjectLink"

section \<open>Resources with handlers\<close>

record resource_definition =
  def_id :: resource_id
  def_name :: string
  def_type :: resource_type
  def_access :: resource_access
  def_multiple_instances :: bool
  def_mandatory :: bool

type_synonym 's read_handler =
  "instance_id \<Rightarrow> resource_instance_id option \<Rightarrow> 's \<Rightarrow> resource_value result \<times> 's"
type_synonym 's write_handler =
  "instance_id \<Rightarrow> resource_instance_id option \<Rightarrow> resource_value \<Rightarrow> 's \<Rightarrow> unit result \<times> 's"
type_synonym 's execute_handler = "instance_id \<Rightarrow> string \<Rightarrow> 's \<Rightarrow> unit result \<times> 's"

text \<open>An empty \<open>std::function\<close> is \<open>None\<close>.\<close>

record 's resource =
  res_def :: resource_definition
  res_read_handler :: "'s read_handler option"
  res_write_handler :: "'s write_handler option"
  res_execute_handler :: "'s execute_handler option"

definition mk_resource :: "resource_definition \<Rightarrow> 's resource" where
  "mk_resource d = \<lparr>res_def = d, res_read_handler = None, res_write_handler = None,
     res_execute_handler = None\<rparr>"

definition on_read :: "'s read_handler option \<Rightarrow> 's resource \<Rightarrow> 's resource" where
  "on_read h r = r\<lparr>res_read_handler := h\<rparr>"

definition on_write :: "'s write_handler option \<Rightarrow> 's resource \<Rightarrow> 's resource" where
  "on_write h r = r\<lparr>res_write_handler := h\<rparr>"

definition on_execute :: "'s execute_handler option \<Rightarrow> 's resource \<Rightarrow> 's resource" where
  "on_execute h r = r\<lparr>res_execute_handler := h\<rparr>"

definition resource_read ::
  "'s resource \<Rightarrow> instance_id \<Rightarrow> resource_instance_id option \<Rightarrow> 's \<Rightarrow> resource_value result \<times> 's" where
  "resource_read r iid riid s =
     (if \<not> has_access (def_access (res_def r)) access_Read
      then (err E_MethodNotAllowed ''Resource is not readable'', s)
      else case res_read_handler r of
          None \<Rightarrow> (err E_NotImplemented ''No read handler registered'', s)
        | Some h \<Rightarrow> h iid riid s)"

definition resource_write ::
  "'s resource \<Rightarrow> instance_id \<Rightarrow> resource_instance_id option \<Rightarrow> resource_value \<Rightarrow> 's \<Rightarrow> unit result \<times> 's" where
  "resource_write r iid riid v s =
     (if \<not> has_access (def_access (res_def r)) access_Write
      then (err E_MethodNotAllowed ''Resource is not writable'', s)
      else case res_write_handler r of
          None \<Rightarrow> (err E_NotImplemented ''No write handler registered'', s)
        | Some h \<Rightarrow> h iid riid v s)"

definition resource_execute ::
  "'s resource \<Rightarrow> instance_id \<Rightarrow> string \<Rightarrow> 's \<Rightarrow> unit result \<times> 's" where
  "resource_execute r iid args s =
     (if \<not> has_access (def_access (res_def r)) access_Execute
      then (err E_MethodNotAllowed ''Resource is not executable'', s)
      else case res_execute_handler r of
          None \<Rightarrow> (err E_NotImplemented ''No execute handler registered'', s)
        | Some h \<Rightarrow> h iid args s)"

lemmas resource_op_defs = resource_read_def resource_write_def resource_execute_def

lemma builders_independent:
  "res_write_handler (on_read h r) = res_write_handler r"
  "res_execute_handler (on_read h r) = res_execute_handler r"
  "res_read_handler (on_write w r) = res_read_handler r"
  "res_execute_handler (on_write w r) = res_execute_handler r"
  "res_read_handler (on_execute x r) = res_read_handler r"
  "res_write_handler (on_execute x r) = res_write_handler r"
  "res_def (on_read h r) = res_def r" "res_def (on_write w r) = res_def r"
  "res_def (on_execute x r) = res_def r"
  by (simp_all add: on_read_def on_write_def on_execute_def)

text \<open>
  An operation has an effect on the application only when the access bit is set and a handler is
  registered; then it is exactly the handler's effect.
\<close>

lemma resource_ops_guarded:
  "snd (resource_read r iid riid s) \<noteq> s \<Longrightarrow>
     has_access (def_access (res_def r)) access_Read \<and> res_read_handler r \<noteq> None"
  "snd (resource_write r iid riid v s) \<noteq> s \<Longrightarrow>
     has_access (def_access (res_def r)) access_Write \<and> res_write_handler r \<noteq> None"
  "snd (resource_execute r iid args s) \<noteq> s \<Longrightarrow>
     has_access (def_access (res_def r)) access_Execute \<and> res_execute_handler r \<noteq> None"
  by (auto simp: resource_op_defs split: if_splits option.splits)

end
