(* ===== verification/Tlv_Encoder.thy ===== *)
theory Tlv_Encoder
  imports Resources "HOL-Library.Signed_Division"
begin

text \<open>
  The class \<open>TlvEncoder\<close> of \<open>include/lwm2m/codec/tlv.hpp\<close> and
  \<open>src/codec/tlv.cpp\<close>: the value serialisers, the record header with its four length
  encodings, and the three composite encoders. Every shift and mask is the source's, on words of
  the source's widths.
\<close>

section \<open>Record types\<close>

datatype tlv_type = ObjectInstance | ResourceInstance | MultiResource | TlvResource

fun tlv_type_value :: "tlv_type \<Rightarrow> u8" where
  "tlv_type_value ObjectInstance = 0"
| "tlv_type_value ResourceInstance = 1"
| "tlv_type_value MultiResource = 2"
| "tlv_type_value TlvResource = 3"

section \<open>Value serialisers\<close>

definition serialize_bool :: "bool \<Rightarrow> bytes" where
  "serialize_bool v = [if v then 1 else 0]"

text \<open>\<open>static_cast<uint8_t>((value >> k) & 0xFF)\<close> for a signed and for an unsigned value.\<close>

definition sbyte_at :: "nat \<Rightarrow> i64 \<Rightarrow> u8" where
  "sbyte_at k v = ucast (signed_drop_bit k v AND 0xFF)"

definition ubyte_at :: "nat \<Rightarrow> 'a::len word \<Rightarrow> u8" where
  "ubyte_at k v = ucast (drop_bit k v AND 0xFF)"

definition serialize_int :: "i64 \<Rightarrow> bytes" where
  "serialize_int value =
     (if sint value \<ge> -128 \<and> sint value \<le> 127 then [ucast value]
      else if sint value \<ge> -32768 \<and> sint value \<le> 32767 then
        [sbyte_at 8 value, sbyte_at 0 value]
      else if sint value \<ge> -8388608 \<and> sint value \<le> 8388607 then
        [sbyte_at 24 value, sbyte_at 16 value, sbyte_at 8 value, sbyte_at 0 value]
      else
        [sbyte_at 56 value, sbyte_at 48 value, sbyte_at 40 value, sbyte_at 32 value,
         sbyte_at 24 value, sbyte_at 16 value, sbyte_at 8 value, sbyte_at 0 value])"

definition serialize_uint :: "u64 \<Rightarrow> bytes" where
  "serialize_uint value =
     (if value \<le> 255 then [ucast value]
      else if value \<le> 65535 then [ubyte_at 8 value, ubyte_at 0 value]
      else if value \<le> 16777215 then
        [ubyte_at 24 value, ubyte_at 16 value, ubyte_at 8 value, ubyte_at 0 value]
      else
        [ubyte_at 56 value, ubyte_at 48 value, ubyte_at 40 value, ubyte_at 32 value,
         ubyte_at 24 value, ubyte_at 16 value, ubyte_at 8 value, ubyte_at 0 value])"

text \<open>The loop \<open>for (i = 7; i >= 0; --i)\<close> writes byte \<open>i\<close> of the bit pattern at index \<open>7 - i\<close>.\<close>

definition serialize_float :: "double \<Rightarrow> bytes" where
  "serialize_float bits = map (\<lambda>i. ubyte_at (i * 8) bits) (rev [0..<8])"

definition serialize_string :: "string \<Rightarrow> bytes" where
  "serialize_string s = bytes_of_string s"

text \<open>
  \<open>duration_cast<seconds>\<close> of a nanosecond count truncates towards zero.
\<close>

definition serialize_time :: "time_point \<Rightarrow> bytes" where
  "serialize_time t = serialize_int (word_of_int (sint t sdiv 1000000000))"

definition serialize_objlink :: "object_path \<Rightarrow> bytes" where
  "serialize_objlink p =
     (let oid = strong_value (object_id p);
          iid = strong_value (case instance_id p of None \<Rightarrow> Strong 0 | Some i \<Rightarrow> i)
      in [ubyte_at 8 oid, ubyte_at 0 oid, ubyte_at 8 iid, ubyte_at 0 iid])"

fun serialize_value :: "resource_value \<Rightarrow> bytes" where
  "serialize_value V_None = []"
| "serialize_value (V_Bool v) = serialize_bool v"
| "serialize_value (V_Int v) = serialize_int v"
| "serialize_value (V_Uint v) = serialize_uint v"
| "serialize_value (V_Float v) = serialize_float v"
| "serialize_value (V_String v) = serialize_string v"
| "serialize_value (V_Opaque v) = v"
| "serialize_value (V_Time v) = serialize_time v"
| "serialize_value (V_ObjLink v) = serialize_objlink v"

section \<open>Records\<close>

text \<open>
  \<open>size_t\<close> is 64 bits wide; the byte casts of the length fields keep its low bits, so a value
  of \<open>2 ^ 24\<close> bytes or more gets a wrong length field, as in the source.
\<close>

definition len_byte :: "nat \<Rightarrow> nat \<Rightarrow> u8" where
  "len_byte k len = ubyte_at k (word_of_nat len :: u64)"

definition record_type_byte :: "tlv_type \<Rightarrow> u16 \<Rightarrow> nat \<Rightarrow> u8" where
  "record_type_byte type rid len =
     (let type_byte = push_bit 6 (tlv_type_value type);
          type_byte = (if rid > 255 then type_byte OR 0x20 else type_byte)
      in if len < 8 then type_byte OR (word_of_nat len AND 0x07)
         else if len < 256 then type_byte OR 0x08
         else if len < 65536 then type_byte OR 0x10
         else type_byte OR 0x18)"

definition record_id_bytes :: "u16 \<Rightarrow> bytes" where
  "record_id_bytes rid = (if rid > 255 then [ubyte_at 8 rid, ubyte_at 0 rid] else [ucast rid])"

definition record_length_bytes :: "nat \<Rightarrow> bytes" where
  "record_length_bytes len =
     (if len \<ge> 8 \<and> len < 256 then [word_of_nat len]
      else if len \<ge> 256 \<and> len < 65536 then [len_byte 8 len, len_byte 0 len]
      else if len \<ge> 65536 then [len_byte 16 len, len_byte 8 len, len_byte 0 len]
      else [])"

definition encode_record :: "tlv_type \<Rightarrow> u16 \<Rightarrow> bytes \<Rightarrow> bytes" where
  "encode_record type rid value =
     [record_type_byte type rid (length value)] @ record_id_bytes rid @
     record_length_bytes (length value) @ value"

definition encode_resource :: "resource_id \<Rightarrow> resource_value \<Rightarrow> bytes result" where
  "encode_resource rid value =
     ok (encode_record TlvResource (strong_value rid) (serialize_value value))"

text \<open>
  The loops over the instances and over the resources append to \<open>inner\<close> and return at the
  first error.
\<close>

fun encode_instances_loop ::
  "(resource_instance_id \<times> resource_value) list \<Rightarrow> bytes \<Rightarrow> bytes result" where
  "encode_instances_loop [] inner = ok inner"
| "encode_instances_loop ((riid, value) # rest) inner =
     (case encode_resource (Strong (strong_value riid)) value of
        Inl e \<Rightarrow> Inl e
      | Inr d \<Rightarrow>
          let d' = (case d of [] \<Rightarrow> []
            | b # bs \<Rightarrow> ((b AND 0x3F) OR push_bit 6 (tlv_type_value ResourceInstance)) # bs)
          in encode_instances_loop rest (inner @ d'))"

definition encode_multi_resource ::
  "resource_id \<Rightarrow> (resource_instance_id \<times> resource_value) list \<Rightarrow> bytes result" where
  "encode_multi_resource rid instances =
     (case encode_instances_loop instances [] of
        Inl e \<Rightarrow> Inl e
      | Inr inner \<Rightarrow> ok (encode_record MultiResource (strong_value rid) inner))"

fun encode_resources_loop :: "(resource_id \<times> resource_value) list \<Rightarrow> bytes \<Rightarrow> bytes result" where
  "encode_resources_loop [] inner = ok inner"
| "encode_resources_loop ((rid, value) # rest) inner =
     (case encode_resource rid value of
        Inl e \<Rightarrow> Inl e
      | Inr d \<Rightarrow> encode_resources_loop rest (inner @ d))"

definition encode_instance ::
  "instance_id \<Rightarrow> (resource_id \<times> resource_value) list \<Rightarrow> bytes result" where
  "encode_instance iid resources =
     (case encode_resources_loop resources [] of
        Inl e \<Rightarrow> Inl e
      | Inr inner \<Rightarrow> ok (encode_record ObjectInstance (strong_value iid) inner))"

end
