(* ===== verification/Floats.thy ===== *)
theory Floats
  imports Prelude "HOL-Library.Log_Nat"
begin

text \<open>
  IEEE 754 bit patterns, as far as the program computes with them: the widening of a
  \<open>float\<close> to a \<open>double\<close> in the TLV decoder, the comparisons of a position, and the
  multiplication and conversions of the registration and reconnection timers.
\<close>

section \<open>Widening\<close>

text \<open>
  \<open>static_cast<double>(float)\<close> on bit patterns. A subnormal \<open>float\<close> is normalised: with
  its highest set bit at position \<open>k\<close> its value is \<open>frac * 2 ^ -149\<close>, whose exponent field
  is \<open>k - 149 + 1023\<close>. An infinity keeps its sign; a NaN keeps sign and payload and becomes
  quiet, as the conversion instructions of x86-64 and AArch64 do (the C++ standard leaves the
  payload open).
\<close>

definition float_sign :: "u32 \<Rightarrow> bool" where
  "float_sign b = bit b 31"

definition float_exp :: "u32 \<Rightarrow> nat" where
  "float_exp b = unat (drop_bit 23 b AND 0xFF)"

definition float_frac :: "u32 \<Rightarrow> nat" where
  "float_frac b = unat (b AND 0x7FFFFF)"

definition pack_double :: "bool \<Rightarrow> nat \<Rightarrow> nat \<Rightarrow> u64" where
  "pack_double sign e fr = (if sign then push_bit 63 1 else 0) OR push_bit 52 (word_of_nat e) OR word_of_nat fr"

definition float_to_double :: "u32 \<Rightarrow> u64" where
  "float_to_double b =
     (let s = float_sign b; e = float_exp b; f = float_frac b
      in if e = 255 then
           (if f = 0 then pack_double s 2047 0
            else pack_double s 2047 (unat ((push_bit 29 (word_of_nat f) OR push_bit 51 1) :: u64)))
         else if e = 0 then
           (if f = 0 then pack_double s 0 0
            else let k = floorlog 2 f - 1 in pack_double s (k + 874) (f * 2 ^ (52 - k) - 2 ^ 52))
         else pack_double s (e + 896) (f * 2 ^ 29))"

section \<open>Comparison\<close>

text \<open>
  \<open><=\<close> on doubles: false when an operand is a NaN; otherwise the magnitudes order as their bit
  patterns do, a set sign bit negates, and both zeros are equal.
\<close>

definition double_is_nan :: "u64 \<Rightarrow> bool" where
  "double_is_nan b \<longleftrightarrow> unat (b AND 0x7FFFFFFFFFFFFFFF) > 0x7FF0000000000000"

definition double_key :: "u64 \<Rightarrow> int" where
  "double_key b =
     (let m = uint (b AND 0x7FFFFFFFFFFFFFFF) in if bit b 63 then - m else m)"

definition double_le :: "u64 \<Rightarrow> u64 \<Rightarrow> bool" where
  "double_le a b \<longleftrightarrow> \<not> double_is_nan a \<and> \<not> double_is_nan b \<and> double_key a \<le> double_key b"

lemma double_le_refl: "\<not> double_is_nan a \<Longrightarrow> double_le a a"
  by (simp add: double_le_def)

lemma double_le_trans: "double_le a b \<Longrightarrow> double_le b c \<Longrightarrow> double_le a c"
  by (simp add: double_le_def)

lemma double_le_nan: "double_le a b \<Longrightarrow> \<not> double_is_nan a \<and> \<not> double_is_nan b"
  by (simp add: double_le_def)

section \<open>Arithmetic\<close>

text \<open>
  A finite double is \<open>(-1) ^ s * m * 2 ^ e\<close> with a natural mantissa. \<open>round_double\<close> gives
  the nearest double of such a number, ties to even: the mantissa is cut to 53 bits, or to the
  exponent of the subnormals, and packed so that a carry out of the mantissa moves into the
  exponent field; from the largest exponent on the result is an infinity.
\<close>

definition double_mantissa :: "u64 \<Rightarrow> nat" where
  "double_mantissa b =
     (let e = unat (drop_bit 52 b AND 0x7FF); f = unat (b AND 0xFFFFFFFFFFFFF)
      in if e = 0 then f else f + 2 ^ 52)"

definition double_exponent :: "u64 \<Rightarrow> int" where
  "double_exponent b = (let e = unat (drop_bit 52 b AND 0x7FF) in int (max e 1) - 1075)"

definition double_is_inf :: "u64 \<Rightarrow> bool" where
  "double_is_inf b \<longleftrightarrow> b AND 0x7FFFFFFFFFFFFFFF = 0x7FF0000000000000"

definition round_half_even :: "nat \<Rightarrow> nat \<Rightarrow> nat" where
  "round_half_even m k =
     (let q = m div 2 ^ k; r = m mod 2 ^ k
      in if 2 * r < 2 ^ k then q else if 2 * r > 2 ^ k then q + 1
         else if even q then q else q + 1)"

definition round_double :: "bool \<Rightarrow> nat \<Rightarrow> int \<Rightarrow> u64" where
  "round_double s m e =
     (let sign = (if s then push_bit 63 1 else 0)
      in if m = 0 then sign
         else
           let target = max (e + int (floorlog 2 m) - 53) (- 1074);
               m' = (if target \<le> e then m * 2 ^ nat (e - target)
                     else round_half_even m (nat (target - e)));
               packed = nat (target + 1074) * 2 ^ 52 + m'
           in sign OR (if packed \<ge> 0x7FF0000000000000 then 0x7FF0000000000000
                       else word_of_nat packed))"

text \<open>A product with a NaN, or of a zero and an infinity, is the default quiet NaN; the payload of an
  operand is not kept, which no use of a product in the program can see.\<close>

definition double_mul :: "u64 \<Rightarrow> u64 \<Rightarrow> u64" where
  "double_mul a b =
     (let s = (bit a 63 \<noteq> bit b 63); za = double_mantissa a = 0; zb = double_mantissa b = 0
      in if double_is_nan a \<or> double_is_nan b \<or> (double_is_inf a \<and> zb \<and> \<not> double_is_inf b) \<or>
            (double_is_inf b \<and> za \<and> \<not> double_is_inf a)
         then 0xFFF8000000000000
         else if double_is_inf a \<or> double_is_inf b
         then (if s then 0xFFF0000000000000 else 0x7FF0000000000000)
         else round_double s (double_mantissa a * double_mantissa b)
                (double_exponent a + double_exponent b))"

definition double_of_i64 :: "i64 \<Rightarrow> u64" where
  "double_of_i64 w = round_double (sint w < 0) (nat \<bar>sint w\<bar>) 0"

text \<open>
  Conversion to \<open>int64_t\<close> cuts the fraction off. Outside the range, where the C++ standard
  leaves the behaviour undefined, the value is the one the x86-64 conversion instruction gives.
\<close>

definition double_to_i64 :: "u64 \<Rightarrow> i64" where
  "double_to_i64 b =
     (let m = double_mantissa b; e = double_exponent b;
          a = (if e \<ge> 0 then m * 2 ^ nat e else m div 2 ^ nat (- e));
          v = (if bit b 63 then - int a else int a)
      in if double_is_nan b \<or> double_is_inf b \<or> v < - (2 ^ 63) \<or> v \<ge> 2 ^ 63
         then word_of_int (- (2 ^ 63))
         else word_of_int v)"

section \<open>Exactness on integers\<close>

text \<open>A normal positive double from its exponent and fraction fields.\<close>

definition pack :: "nat \<Rightarrow> nat \<Rightarrow> u64" where
  "pack e f = word_of_nat (e * 2 ^ 52 + f)"

lemma unat_pack:
  assumes "e < 2047" "f < 2 ^ 52"
  shows "unat (pack e f) = e * 2 ^ 52 + f"
proof -
  have "e * 2 ^ 52 + f < 2047 * 2 ^ 52" using assms by simp
  then have "e * 2 ^ 52 + f < 2 ^ LENGTH(64)" by simp
  then show ?thesis unfolding pack_def unat_of_nat by (rule mod_less)
qed

lemma unat_and_mask: "unat (w AND mask n :: u64) = unat w mod 2 ^ n"
  by (metis take_bit_eq_mask take_bit_eq_mod unsigned_take_bit_eq)

lemma unat_drop_bit: "unat (drop_bit n w :: u64) = unat w div 2 ^ n"
  by (subst unat_drop_bit_eq) (simp add: drop_bit_eq_div)

lemma masks: "(0x7FF :: u64) = mask 11" "(0xFFFFFFFFFFFFF :: u64) = mask 52"
  "(0x7FFFFFFFFFFFFFFF :: u64) = mask 63"
  by (simp_all add: mask_eq_exp_minus_1)

lemma pack_fields:
  assumes "0 < e" "e < 2047" "f < 2 ^ 52"
  shows "double_mantissa (pack e f) = f + 2 ^ 52" "double_exponent (pack e f) = int e - 1075"
    "\<not> bit (pack e f) 63" "\<not> double_is_nan (pack e f)" "\<not> double_is_inf (pack e f)"
proof -
  note u = unat_pack [OF assms(2,3)]
  have f: "(e * 2 ^ 52 + f) div 2 ^ 52 = e" "(e * 2 ^ 52 + f) mod 2 ^ 52 = f" using assms(3) by simp_all
  have e: "e mod 2 ^ 11 = e" using assms(2) by simp
  show "double_mantissa (pack e f) = f + 2 ^ 52" "double_exponent (pack e f) = int e - 1075"
    using assms f e
    by (simp_all add: double_mantissa_def double_exponent_def masks unat_and_mask unat_drop_bit u Let_def
        del: power_numeral)
  have small: "e * 2 ^ 52 + f < 0x7FF0000000000000" using assms by simp
  have "(e * 2 ^ 52 + f) div 2 ^ 63 = 0" using small by simp
  then have "\<not> bit (unat (pack e f)) 63" by (simp add: bit_iff_odd u)
  then show "\<not> bit (pack e f) 63" by (simp add: bit_unsigned_iff)
  have "unat (pack e f AND mask 63) = e * 2 ^ 52 + f"
    unfolding unat_and_mask u using small by simp
  with small show "\<not> double_is_nan (pack e f)" "\<not> double_is_inf (pack e f)"
    unfolding double_is_nan_def double_is_inf_def masks by auto
qed

lemma floorlog_bounds:
  assumes "0 < m" "floorlog 2 m = k"
  shows "2 ^ (k - 1) \<le> m" "m < 2 ^ k" "0 < k"
  using assms floorlog_bounds [of m 2] by (auto simp: floorlog_def)

lemma round_double_pack:
  assumes "0 < m" "target = e + int (floorlog 2 m) - 53" "- 1074 \<le> target" "target \<le> 900"
    "m' = (if target \<le> e then m * 2 ^ nat (e - target) else round_half_even m (nat (target - e)))"
    "2 ^ 52 \<le> m'" "m' < 2 ^ 53"
  shows "round_double False m e = pack (nat (target + 1075)) (m' - 2 ^ 52)"
proof -
  define t where "t = nat (target + 1074)"
  have t: "nat (target + 1075) = t + 1" "t \<le> 1974" using assms(3,4) by (simp_all add: t_def)
  have packed: "t * 2 ^ 52 + m' = (t + 1) * 2 ^ 52 + (m' - 2 ^ 52)" using assms(6) by simp
  have "t * 2 ^ 52 + m' < 0x7FF0000000000000" using t(2) assms(7) by simp
  moreover have "max (e + int (floorlog 2 m) - 53) (- 1074) = target" using assms(2,3) by simp
  ultimately show ?thesis
    using assms(1) unfolding round_double_def Let_def pack_def t(1) packed [symmetric]
    by (simp only: assms(5) [symmetric] t_def [symmetric] if_False not_le if_not_P)
      (simp add: t_def)
qed

lemma double_to_i64_pack:
  assumes "0 < e" "e < 1075" "f < 2 ^ 52"
  shows "double_to_i64 (pack e f) = word_of_nat ((f + 2 ^ 52) div 2 ^ (1075 - e))"
proof -
  note p = pack_fields [OF assms(1) _ assms(3)]
  have "(f + 2 ^ 52) div 2 ^ (1075 - e) \<le> f + 2 ^ 52" by (rule div_le_dividend)
  also have "\<dots> < 2 ^ 63" using assms(3) by simp
  finally have "int ((f + 2 ^ 52) div 2 ^ (1075 - e)) < 2 ^ 63"
    by (metis of_nat_less_iff of_nat_numeral of_nat_power)
  moreover have "nat (- (int e - 1075)) = 1075 - e" "\<not> int e - 1075 \<ge> 0" using assms(2) by simp_all
  moreover have "\<not> int ((f + 2 ^ 52) div 2 ^ (1075 - e)) < - (2 ^ 63)"
    unfolding not_less by (rule order_trans [of _ 0]) simp_all
  ultimately show ?thesis
    using p assms(2) unfolding double_to_i64_def Let_def
    by (simp add: not_less del: power_numeral)
qed

lemma round_half_even_bounds: "m div 2 ^ k \<le> round_half_even m k" "round_half_even m k \<le> m div 2 ^ k + 1"
  by (simp_all add: round_half_even_def Let_def)

lemma round_half_even_exact: "round_half_even (m * 2 ^ k) k = m"
  by (simp add: round_half_even_def)

lemma normalised:
  assumes "0 < m" "m < 2 ^ 53" "floorlog 2 m = k"
  shows "2 ^ 52 \<le> m * 2 ^ (53 - k)" "m * 2 ^ (53 - k) < 2 ^ 53" "k \<le> 53" "0 < k"
proof -
  note b = floorlog_bounds [OF assms(1,3)]
  show k: "k \<le> 53" "0 < k" using floorlog_leI [OF assms(2)] assms(3) b(3) by simp_all
  have "2 ^ (k - 1) * 2 ^ (53 - k) \<le> m * 2 ^ (53 - k)" using b(1) by simp
  moreover have "(2 :: nat) ^ (k - 1) * 2 ^ (53 - k) = 2 ^ 52" using k by (simp flip: power_add)
  ultimately show "2 ^ 52 \<le> m * 2 ^ (53 - k)" by linarith
  have "m * 2 ^ (53 - k) < 2 ^ k * 2 ^ (53 - k)" using b(2) by simp
  moreover have "(2 :: nat) ^ k * 2 ^ (53 - k) = 2 ^ 53" using k by (simp flip: power_add)
  ultimately show "m * 2 ^ (53 - k) < 2 ^ 53" by simp
qed

text \<open>A positive integer below \<open>2 ^ 53\<close> is a double of its own.\<close>

lemma double_of_i64_small:
  assumes "sint w = int m" "0 < m" "m < 2 ^ 53" "floorlog 2 m = k"
  shows "double_of_i64 w = pack (k + 1022) (m * 2 ^ (53 - k) - 2 ^ 52)"
proof -
  note n = normalised [OF assms(2-4)]
  have "round_double False m 0 = pack (nat (int k - 53 + 1075)) (m * 2 ^ (53 - k) - 2 ^ 52)"
    by (rule round_double_pack) (use assms n in \<open>auto simp: nat_diff_distrib' nat_int_add\<close>)
  moreover have "nat (int k - 53 + 1075) = k + 1022" by simp
  ultimately show ?thesis using assms(1) by (simp add: double_of_i64_def)
qed

lemma double_mul_pack:
  assumes "0 < a" "a < 2047" "f < 2 ^ 52" "0 < b" "b < 2047" "g < 2 ^ 52"
  shows "double_mul (pack a f) (pack b g) =
    round_double False ((f + 2 ^ 52) * (g + 2 ^ 52)) (int a + int b - 2150)"
  using pack_fields [OF assms(1-3)] pack_fields [OF assms(4-6)] unfolding double_mul_def Let_def
  by (simp del: power_numeral)

text \<open>Doubling an integer is exact.\<close>

lemma double_twice:
  assumes "sint w = int m" "0 < m" "m < 2 ^ 51"
  shows "double_to_i64 (double_mul (double_of_i64 w) 0x4000000000000000) = word_of_nat (2 * m)"
proof -
  define k where "k = floorlog 2 m"
  define m' where "m' = m * 2 ^ (53 - k)"
  have m53: "m < 2 ^ 53" using assms(3) by simp
  note n = normalised [OF assms(2) m53 k_def [symmetric], folded m'_def]
  have k51: "k \<le> 51" using floorlog_leI [OF assms(3)] by (simp add: k_def)
  have two: "0x4000000000000000 = pack 1024 0" by (simp add: pack_def)
  have f: "m' - 2 ^ 52 < 2 ^ 52" "m' - 2 ^ 52 + 2 ^ 52 = m'" using n by simp_all
  have "double_of_i64 w = pack (k + 1022) (m' - 2 ^ 52)"
    using double_of_i64_small [OF assms(1,2) m53 k_def [symmetric]] by (simp add: m'_def)
  then have "double_mul (double_of_i64 w) 0x4000000000000000 =
      round_double False (m' * 2 ^ 52) (int (k + 1022) + int 1024 - 2150)"
    using f n(3) by (simp add: two double_mul_pack del: power_numeral)
  also have "\<dots> = pack (nat (int k - 52 + 1075)) (m' - 2 ^ 52)"
  proof (rule round_double_pack)
    have "m' * 2 ^ 52 = m * 2 ^ (53 - k + 52)" by (simp only: m'_def power_add mult.assoc)
    then have "floorlog 2 (m' * 2 ^ 52) = k + (53 - k + 52)"
      using assms(2) by (simp only: floorlog_power k_def)
    then show "int k - 52 = int (k + 1022) + int 1024 - 2150 + int (floorlog 2 (m' * 2 ^ 52)) - 53"
      using n(3) by simp
    have "nat (int k - 52 - (int (k + 1022) + int 1024 - 2150)) = 52" by simp
    then show "m' = (if int k - 52 \<le> int (k + 1022) + int 1024 - 2150
        then m' * 2 ^ 52 * 2 ^ nat (int (k + 1022) + int 1024 - 2150 - (int k - 52))
        else round_half_even (m' * 2 ^ 52) (nat (int k - 52 - (int (k + 1022) + int 1024 - 2150))))"
      by (simp only: round_half_even_exact) simp
  qed (use n k51 in simp_all)
  also have "nat (int k - 52 + 1075) = k + 1023" by simp
  finally have mul: "double_mul (double_of_i64 w) 0x4000000000000000 = pack (k + 1023) (m' - 2 ^ 52)" .
  have "m' = m * 2 * 2 ^ (52 - k)"
  proof -
    have "53 - k = Suc (52 - k)" using k51 by arith
    then show ?thesis by (simp add: m'_def)
  qed
  then have "m' div 2 ^ (1075 - (k + 1023)) = 2 * m" by simp
  with k51 f mul show ?thesis by (simp add: double_to_i64_pack)
qed

text \<open>
  Four fifths of a 32-bit integer, computed with the double next to 0.8 and cut to an integer, are
  the exact quotient: the product of the mantissas lies between \<open>q * 2 ^ 53\<close> and
  \<open>(q + 1) * 2 ^ 53\<close> by more than the rounding moves it.
\<close>

lemma four_fifths_product:
  fixes l :: nat
  assumes "l < 2 ^ 32" "q = 4 * l div 5"
  shows "q * 2 ^ 53 \<le> l * 0x1999999999999A" "l * 0x1999999999999A + 2 ^ 33 < (q + 1) * 2 ^ 53"
  using assms by simp_all

lemma four_fifths_rounded:
  fixes l P R s :: nat
  assumes "l < 2 ^ 32" "q = 4 * l div 5" "P = l * 0x1999999999999A"
    "2 ^ (s + 52) \<le> P" "P < 2 ^ (s + 53)" "s \<le> 32" "P div 2 ^ s \<le> R" "R \<le> P div 2 ^ s + 1"
  shows "2 ^ 52 \<le> R" "R < 2 ^ 53" "R div 2 ^ (53 - s) = q"
proof -
  note fp = four_fifths_product [OF assms(1,2), folded assms(3)]
  have two53: "(2 :: nat) ^ 53 = 2 ^ s * 2 ^ (53 - s)" using assms(6) by (simp flip: power_add)
  show "2 ^ 52 \<le> R"
    using assms(7) div_le_mono [OF assms(4), of "2 ^ s"] by (simp add: power_add)
  have "q * 2 ^ (53 - s) = q * 2 ^ 53 div 2 ^ s" unfolding two53 by simp
  with div_le_mono [OF fp(1), of "2 ^ s"] assms(7) have low: "q * 2 ^ (53 - s) \<le> R" by linarith
  have "2 ^ s * R \<le> 2 ^ s * (P div 2 ^ s) + 2 ^ s"
    using mult_le_mono2 [OF assms(8), of "2 ^ s"] by (simp add: algebra_simps)
  also have "\<dots> \<le> P + 2 ^ s" by simp
  also have "\<dots> \<le> P + 2 ^ 32" using power_increasing [OF assms(6), of "2 :: nat"] by simp
  also have "\<dots> < (q + 1) * 2 ^ 53" using fp(2) by simp
  finally have "2 ^ s * R < 2 ^ s * ((q + 1) * 2 ^ (53 - s))" unfolding two53 by (simp only: ac_simps)
  then have high: "R < (q + 1) * 2 ^ (53 - s)" by simp
  have "q * 2 ^ 53 < 2 ^ s * 2 ^ 53" using fp(1) assms(5) by (simp add: power_add)
  then have "q + 1 \<le> 2 ^ s" by simp
  then have "(q + 1) * 2 ^ (53 - s) \<le> 2 ^ 53" unfolding two53 by (rule mult_le_mono1)
  with high show "R < 2 ^ 53" by linarith
  show "R div 2 ^ (53 - s) = q" using low high by (intro div_nat_eqI) (simp_all add: ac_simps)
qed

lemma double_four_fifths:
  assumes "sint w = int l" "0 < l" "l < 2 ^ 32"
  shows "double_to_i64 (double_mul (double_of_i64 w) 0x3FE999999999999A) = word_of_nat (4 * l div 5)"
proof -
  define k where "k = floorlog 2 l"
  define m' where "m' = l * 2 ^ (53 - k)"
  define c :: nat where "c = 0x1999999999999A"
  define P where "P = l * c"
  define p where "p = floorlog 2 P"
  define M where "M = m' * c"
  define e where "e = int (k + 1022) + int 1022 - 2150"
  have l53: "l < 2 ^ 53" using assms(3) by simp
  note n = normalised [OF assms(2) l53 k_def [symmetric], folded m'_def]
  have k32: "k \<le> 32" using floorlog_leI [OF assms(3)] by (simp add: k_def)
  have P0: "0 < P" using assms(2) by (simp add: P_def c_def)
  note pb = floorlog_bounds [OF P0 p_def [symmetric]]
  have "P < 2 ^ 85" using assms(3) by (simp add: P_def c_def)
  then have p85: "p \<le> 85" using floorlog_leI [of P 2 85] by (simp add: p_def)
  have "2 ^ 52 * 2 ^ (k - 1) \<le> P"
    using floorlog_bounds(1) [OF assms(2) k_def [symmetric]] unfolding P_def c_def
    by (subst mult.commute) (rule mult_le_mono; simp)
  moreover have "52 + (k - 1) = k + 52 - 1" using n(4) by arith
  ultimately have "2 ^ (k + 52 - 1) \<le> P" by (metis power_add)
  then have pk: "k + 52 \<le> p" using floorlog_geI [of 2 "k + 52" P] by (simp add: p_def)
  have p53: "53 \<le> p" using pk n(4) by simp
  define s where "s = p - 53"
  define R where "R = round_half_even M (p - k)"
  have s: "p = s + 53" "s \<le> 32" "p - k = s + (53 - k)" using p53 p85 n(3) by (simp_all add: s_def)
  have M: "M = P * 2 ^ (53 - k)" by (simp add: M_def P_def m'_def)
  have "M div 2 ^ (p - k) = P div 2 ^ s" unfolding M s(3) power_add by simp
  then have R: "P div 2 ^ s \<le> R" "R \<le> P div 2 ^ s + 1"
    using round_half_even_bounds [of M "p - k"] by (simp_all add: R_def)
  define q where "q = 4 * l div 5"
  have "2 ^ (s + 52) \<le> P" "P < 2 ^ (s + 53)" using pb(1,2) s(1) by (simp_all add: add.commute)
  note r = four_fifths_rounded [OF assms(3) q_def _ this s(2) R, folded c_def, OF P_def]
  have factor: "0x3FE999999999999A = pack 1022 (c - 2 ^ 52)" by (simp add: pack_def c_def)
  have f: "m' - 2 ^ 52 < 2 ^ 52" "m' - 2 ^ 52 + 2 ^ 52 = m'" "c - 2 ^ 52 < 2 ^ 52"
    "c - 2 ^ 52 + 2 ^ 52 = c" using n by (simp_all add: c_def)
  have "double_of_i64 w = pack (k + 1022) (m' - 2 ^ 52)"
    using double_of_i64_small [OF assms(1,2) l53 k_def [symmetric]] by (simp add: m'_def)
  then have "double_mul (double_of_i64 w) 0x3FE999999999999A = round_double False M e"
    using f n(3) double_mul_pack [of "k + 1022" "m' - 2 ^ 52" 1022 "c - 2 ^ 52"]
    by (simp add: factor M_def e_def del: power_numeral)
  also have "\<dots> = pack (nat (int p - 106 + 1075)) (R - 2 ^ 52)"
  proof (rule round_double_pack)
    have "floorlog 2 M = p + (53 - k)" unfolding M p_def by (rule floorlog_power) (use P0 in simp_all)
    then show "int p - 106 = e + int (floorlog 2 M) - 53" using n(3) by (simp add: e_def)
    have "\<not> int p - 106 \<le> e" "nat (int p - 106 - e) = p - k" using pk by (simp_all add: e_def)
    then show "R = (if int p - 106 \<le> e then M * 2 ^ nat (e - (int p - 106))
        else round_half_even M (nat (int p - 106 - e)))"
      by (simp add: R_def)
  qed (use P0 p53 p85 r M in simp_all)
  also have "nat (int p - 106 + 1075) = p + 969" using p53 by simp
  finally have mul: "double_mul (double_of_i64 w) 0x3FE999999999999A = pack (p + 969) (R - 2 ^ 52)" .
  have "1075 - (p + 969) = 53 - s" using s(1) by simp
  moreover have "R - 2 ^ 52 < 2 ^ 52" "R - 2 ^ 52 + 2 ^ 52 = R" using r by simp_all
  ultimately show ?thesis
    using p85 r(3) unfolding mul q_def [symmetric]
    by (subst double_to_i64_pack) simp_all
qed

end
