(* ===== verification/Tlv_Decoder.thy ===== *)
theory Tlv_Decoder
  imports Tlv_Encoder Floats
begin

text \<open>
  The class \<open>TlvDecoder\<close> of \<open>src/codec/tlv.cpp\<close>: the record parser with its bounds
  checks, the loop over a buffer, the recursion into nested records with its depth bound, and the
  value deserialisers. A pointer and a length are the list of the bytes that follow.
\<close>

section \<open>Records\<close>

datatype tlv_record = TlvRecord
  (rec_type: tlv_type) (rec_id: u16) (rec_value: bytes) (rec_children: "tlv_record list")

definition kMaxTlvDepth :: nat where
  "kMaxTlvDepth = 8"

text \<open>\<open>static_cast<TlvType>((type_byte >> 6) & 0x03)\<close>\<close>

definition tlv_type_of_byte :: "u8 \<Rightarrow> tlv_type" where
  "tlv_type_of_byte b =
     (let v = drop_bit 6 b AND 0x03
      in if v = 0 then ObjectInstance else if v = 1 then ResourceInstance
         else if v = 2 then MultiResource else TlvResource)"

record tlv_header =
  hdr_type :: tlv_type
  hdr_id :: u16
  hdr_pos :: nat
  hdr_length :: nat

text \<open>
  The part of \<open>parse_record\<close> before the value: type byte, id, length field, with the position
  where the value starts. The last test is the source's check that the value is there.
\<close>

definition parse_id :: "bytes \<Rightarrow> (u16 \<times> nat) result" where
  "parse_id d =
     (let len = length d; pos = 1
      in if d ! 0 AND 0x20 \<noteq> 0 then
           (if pos + 1 \<ge> len then err E_DecodingError ''Truncated TLV''
            else ok ((push_bit 8 (ucast (d ! pos))) OR ucast (d ! (pos + 1)), pos + 2))
         else
           (if pos \<ge> len then err E_DecodingError ''Truncated TLV''
            else ok (ucast (d ! pos), pos + 1)))"

definition parse_length :: "bytes \<Rightarrow> nat \<Rightarrow> (nat \<times> nat) result" where
  "parse_length d pos =
     (let len = length d; type_byte = d ! 0; length_type = drop_bit 3 type_byte AND 0x03
      in if length_type = 0 then ok (unat (type_byte AND 0x07), pos)
         else if length_type = 1 then
           (if pos \<ge> len then err E_DecodingError ''Truncated TLV''
            else ok (unat (d ! pos), pos + 1))
         else if length_type = 2 then
           (if pos + 1 \<ge> len then err E_DecodingError ''Truncated TLV''
            else ok (unat (push_bit 8 (ucast (d ! pos)) OR ucast (d ! (pos + 1)) :: u64), pos + 2))
         else
           (if pos + 2 \<ge> len then err E_DecodingError ''Truncated TLV''
            else ok (unat (push_bit 16 (ucast (d ! pos)) OR push_bit 8 (ucast (d ! (pos + 1)))
                           OR ucast (d ! (pos + 2)) :: u64), pos + 3)))"

definition parse_header :: "bytes \<Rightarrow> tlv_header result" where
  "parse_header d =
     (if length d = 0 then err E_DecodingError ''Empty TLV data''
      else case parse_id d of Inl e \<Rightarrow> Inl e
        | Inr (rid, pos) \<Rightarrow>
            (case parse_length d pos of Inl e \<Rightarrow> Inl e
             | Inr (value_length, pos) \<Rightarrow>
                 if pos + value_length > length d
                 then err E_DecodingError ''Truncated TLV value''
                 else ok \<lparr>hdr_type = tlv_type_of_byte (d ! 0), hdr_id = rid, hdr_pos = pos,
                          hdr_length = value_length\<rparr>))"

definition header_value :: "bytes \<Rightarrow> tlv_header \<Rightarrow> bytes" where
  "header_value d h = take (hdr_length h) (drop (hdr_pos h) d)"

definition header_consumed :: "tlv_header \<Rightarrow> nat" where
  "header_consumed h = hdr_pos h + hdr_length h"

lemma parse_header_bounds:
  assumes "parse_header d = ok h"
  shows "2 \<le> hdr_pos h" "header_consumed h \<le> length d" "d \<noteq> []"
  using assms
  by (auto simp: parse_header_def parse_id_def parse_length_def header_consumed_def Let_def
      split: if_splits sum.splits prod.splits)

text \<open>
  \<open>decode_impl\<close> and its loop. A record with nested records decodes its value one level
  deeper; when that fails its children stay empty.
\<close>

function (sequential) decode_impl :: "bytes \<Rightarrow> nat \<Rightarrow> tlv_record list result"
  and decode_loop :: "bytes \<Rightarrow> nat \<Rightarrow> tlv_record list \<Rightarrow> tlv_record list result" where
  "decode_impl d depth =
     (if depth > kMaxTlvDepth then err E_DecodingError ''TLV nesting too deep''
      else decode_loop d depth [])"
| "decode_loop d depth records =
     (if d = [] then ok records
      else case parse_header d of
          Inl e \<Rightarrow> Inl e
        | Inr h \<Rightarrow>
            let children =
              (if hdr_type h = ObjectInstance \<or> hdr_type h = MultiResource
               then (case decode_impl (header_value d h) (depth + 1) of
                       Inl _ \<Rightarrow> [] | Inr nested \<Rightarrow> nested)
               else [])
            in decode_loop (drop (header_consumed h) d) depth
                 (records @ [TlvRecord (hdr_type h) (hdr_id h) (header_value d h) children]))"
  by pat_completeness auto
termination
proof (relation "measures [\<lambda>x. case x of Inl (d, depth) \<Rightarrow> length d | Inr (d, depth, rs) \<Rightarrow> length d,
    \<lambda>x. case x of Inl _ \<Rightarrow> 1 | Inr _ \<Rightarrow> 0]", goal_cases)
  case (3 d depth records h)
  then show ?case
    using parse_header_bounds [of d h] by (auto simp: header_value_def header_consumed_def)
next
  case (4 d depth records h x)
  then show ?case
    using parse_header_bounds [of d h] by (auto simp: header_consumed_def)
qed auto

declare decode_impl.simps [simp del] decode_loop.simps [simp del]

text \<open>\<open>parse_record\<close>: the record and the number of bytes consumed.\<close>

definition nested_records :: "tlv_type \<Rightarrow> bytes \<Rightarrow> nat \<Rightarrow> tlv_record list" where
  "nested_records type value depth =
     (if type = ObjectInstance \<or> type = MultiResource
      then (case decode_impl value (depth + 1) of Inl _ \<Rightarrow> [] | Inr nested \<Rightarrow> nested)
      else [])"

definition parse_record :: "bytes \<Rightarrow> nat \<Rightarrow> (tlv_record \<times> nat) result" where
  "parse_record d depth =
     (case parse_header d of
        Inl e \<Rightarrow> Inl e
      | Inr h \<Rightarrow> ok (TlvRecord (hdr_type h) (hdr_id h) (header_value d h)
                    (nested_records (hdr_type h) (header_value d h) depth), header_consumed h))"

text \<open>The loop is the source's: parse one record, append it, advance by what it consumed.\<close>

lemma decode_loop_eq:
  "decode_loop d depth records =
     (if d = [] then ok records
      else case parse_record d depth of
          Inl e \<Rightarrow> Inl e
        | Inr (record, consumed) \<Rightarrow> decode_loop (drop consumed d) depth (records @ [record]))"
  by (subst decode_loop.simps) (simp add: parse_record_def nested_records_def Let_def split: sum.splits)

definition decode :: "bytes \<Rightarrow> tlv_record list result" where
  "decode d = decode_impl d 0"

section \<open>Value deserialisers\<close>

text \<open>The loop \<open>value = (value << 8) | data[i]\<close>.\<close>

definition be_value :: "bytes \<Rightarrow> 'a::len word" where
  "be_value d = foldl (\<lambda>value b. push_bit 8 value OR ucast b) 0 d"

definition deserialize_bool :: "bytes \<Rightarrow> bool result" where
  "deserialize_bool d =
     (if length d = 0 then err E_DecodingError ''Empty boolean value'' else ok (d ! 0 \<noteq> 0))"

definition deserialize_int :: "bytes \<Rightarrow> i64 result" where
  "deserialize_int d =
     (let len = length d
      in if len = 0 \<or> len > 8 then err E_DecodingError ''Invalid integer length''
         else let negative = (d ! 0 AND 0x80 \<noteq> 0); value = be_value d
              in if negative \<and> len < 8 then ok (value OR NOT (push_bit (len * 8) 1 - 1))
                 else ok value)"

definition deserialize_uint :: "bytes \<Rightarrow> u64 result" where
  "deserialize_uint d =
     (let len = length d
      in if len = 0 \<or> len > 8 then err E_DecodingError ''Invalid integer length''
         else ok (be_value d))"

definition deserialize_float :: "bytes \<Rightarrow> double result" where
  "deserialize_float d =
     (let len = length d
      in if len = 4 then ok (float_to_double (be_value d))
         else if len = 8 then ok (be_value d)
         else err E_DecodingError ''Invalid float length'')"

definition deserialize_string :: "bytes \<Rightarrow> string result" where
  "deserialize_string d = ok (string_of_bytes d)"

text \<open>
  \<open>time_point{seconds{n}}\<close> converts to nanoseconds by a multiplication of \<open>int64_t\<close>,
  which C++ leaves undefined when it overflows; the model wraps around, as the compiled code does
  without sanitisers. \<open>seconds_representable\<close> says when no overflow happens.
\<close>

definition seconds_representable :: "i64 \<Rightarrow> bool" where
  "seconds_representable n \<longleftrightarrow>
     - (2 ^ 63) \<le> sint n * 1000000000 \<and> sint n * 1000000000 < 2 ^ 63"

definition deserialize_time :: "bytes \<Rightarrow> time_point result" where
  "deserialize_time d =
     (case deserialize_int d of
        Inl e \<Rightarrow> Inl e
      | Inr seconds \<Rightarrow> ok (seconds * 1000000000))"

definition deserialize_objlink :: "bytes \<Rightarrow> object_path result" where
  "deserialize_objlink d =
     (if length d \<noteq> 4 then err E_DecodingError ''Invalid object link length''
      else let oid = push_bit 8 (ucast (d ! 0)) OR ucast (d ! 1);
               iid = push_bit 8 (ucast (d ! 2)) OR ucast (d ! 3)
           in ok (path_instance (Strong oid) (Strong iid)))"

fun decode_resource :: "bytes \<Rightarrow> resource_type \<Rightarrow> resource_value result" where
  "decode_resource d T_Boolean = result_map V_Bool (deserialize_bool d)"
| "decode_resource d T_Integer = result_map V_Int (deserialize_int d)"
| "decode_resource d T_UnsignedInteger = result_map V_Uint (deserialize_uint d)"
| "decode_resource d T_Float = result_map V_Float (deserialize_float d)"
| "decode_resource d T_String = result_map V_String (deserialize_string d)"
| "decode_resource d T_Opaque = ok (V_Opaque d)"
| "decode_resource d T_Time = result_map V_Time (deserialize_time d)"
| "decode_resource d T_ObjectLink = result_map V_ObjLink (deserialize_objlink d)"
| "decode_resource d T_None = ok V_None"

end
