(* ===== verification/Tlv_Codec.thy ===== *)
theory Tlv_Codec
  imports Tlv_Decoder
begin

text \<open>
  The codec as a pair: what the decoder makes of what the encoder wrote. Record headers, buffers
  of several records, object instances and multiple resources come back as they went in; a
  truncated record is rejected; the decoder's recursion and memory are bounded; every value type
  comes back up to what its wire format keeps.
\<close>

section \<open>The header bytes\<close>

lemma record_type_byte_id: "record_type_byte type rid len AND 0x20 \<noteq> 0 \<longleftrightarrow> rid > 255"
proof (cases "len < 8")
  case True
  then have "len \<in> {0,1,2,3,4,5,6,7}" by auto
  then show ?thesis by (cases type) (auto simp: record_type_byte_def Let_def)
next
  case False
  then show ?thesis by (cases type) (auto simp: record_type_byte_def Let_def)
qed

lemma record_type_byte_type [simp]: "tlv_type_of_byte (record_type_byte type rid len) = type"
proof (cases "len < 8")
  case True
  then have "len \<in> {0,1,2,3,4,5,6,7}" by auto
  then show ?thesis by (cases type) (auto simp: record_type_byte_def tlv_type_of_byte_def Let_def)
next
  case False
  then show ?thesis by (cases type) (auto simp: record_type_byte_def tlv_type_of_byte_def Let_def)
qed

lemma record_type_byte_length_type:
  "drop_bit 3 (record_type_byte type rid len) AND 0x03 =
     (if len < 8 then 0 else if len < 256 then 1 else if len < 65536 then 2 else 3)"
proof (cases "len < 8")
  case True
  then have "len \<in> {0,1,2,3,4,5,6,7}" by auto
  then show ?thesis by (cases type) (auto simp: record_type_byte_def Let_def)
next
  case False
  then show ?thesis by (cases type) (auto simp: record_type_byte_def Let_def)
qed

lemma record_type_byte_inline: "len < 8 \<Longrightarrow> unat (record_type_byte type rid len AND 0x07) = len"
proof -
  assume "len < 8"
  then have "len \<in> {0,1,2,3,4,5,6,7}" by auto
  then show ?thesis by (cases type) (auto simp: record_type_byte_def Let_def)
qed

lemma bit_ubyte_at [bit_simps]: "bit (ubyte_at k w) n \<longleftrightarrow> n < 8 \<and> bit w (k + n)"
proof -
  have "drop_bit k w AND 0xFF = take_bit 8 (drop_bit k w)"
    by (simp add: take_bit_eq_mask mask_eq_exp_minus_1)
  then show ?thesis
    unfolding ubyte_at_def by (auto simp: bit_simps dest: bit_imp_le_length)
qed

lemma join_u16 [simp]: "push_bit 8 (ucast (ubyte_at 8 w)) OR ucast (ubyte_at 0 w) = (w :: u16)"
  by (rule bit_word_eqI) (auto simp: bit_simps)

lemma ucast_small_id: "\<not> rid > 255 \<Longrightarrow> ucast (ucast rid :: u8) = (rid :: u16)"
proof -
  assume "\<not> rid > 255"
  then have "unat rid < 256" by (simp add: word_less_nat_alt)
  then have "unat (take_bit 8 rid) = unat rid"
    by (simp add: unsigned_take_bit_eq take_bit_nat_eq_self_iff)
  then show ?thesis by (simp add: unsigned_ucast_eq word_unat_eq_iff)
qed

lemma join_len16:
  "len < 65536 \<Longrightarrow> unat (push_bit 8 (ucast (len_byte 8 len)) OR ucast (len_byte 0 len) :: u64) = len"
proof -
  assume len: "len < 65536"
  have "push_bit 8 (ucast (len_byte 8 len)) OR ucast (len_byte 0 len) = take_bit 16 (word_of_nat len :: u64)"
    by (rule bit_word_eqI) (auto simp: len_byte_def bit_simps)
  with len show ?thesis by (simp only: unsigned_take_bit_eq) (simp add: unat_of_nat take_bit_nat_eq_self_iff)
qed

lemma join_len24:
  "len < 16777216 \<Longrightarrow>
   unat (push_bit 16 (ucast (len_byte 16 len)) OR push_bit 8 (ucast (len_byte 8 len))
     OR ucast (len_byte 0 len) :: u64) = len"
proof -
  assume len: "len < 16777216"
  have "push_bit 16 (ucast (len_byte 16 len)) OR push_bit 8 (ucast (len_byte 8 len))
     OR ucast (len_byte 0 len) = take_bit 24 (word_of_nat len :: u64)"
    by (rule bit_word_eqI) (auto simp: len_byte_def bit_simps)
  with len show ?thesis by (simp only: unsigned_take_bit_eq) (simp add: unat_of_nat take_bit_nat_eq_self_iff)
qed

section \<open>One record, several records\<close>

lemma encode_record_Cons:
  "encode_record type rid v =
     record_type_byte type rid (length v) # record_id_bytes rid @ record_length_bytes (length v) @ v"
  by (simp add: encode_record_def)

lemma encode_record_not_Nil [simp]: "encode_record type rid v \<noteq> []"
  by (simp add: encode_record_def)

lemma length_record_id_bytes: "length (record_id_bytes rid) = (if rid > 255 then 2 else 1)"
  by (simp add: record_id_bytes_def)

lemma length_record_length_bytes:
  "length (record_length_bytes len) =
     (if len < 8 then 0 else if len < 256 then 1 else if len < 65536 then 2 else 3)"
  by (simp add: record_length_bytes_def)

lemma length_encode_record:
  "length (encode_record type rid v) =
     1 + (if rid > 255 then 2 else 1)
       + (if length v < 8 then 0 else if length v < 256 then 1 else if length v < 65536 then 2 else 3)
       + length v"
  by (simp add: encode_record_Cons length_record_id_bytes length_record_length_bytes)

lemma parse_id_encoded:
  "parse_id (record_type_byte type rid len # record_id_bytes rid @ rest) =
     ok (rid, Suc (length (record_id_bytes rid)))"
proof (cases "rid > 255")
  case True
  then have "record_type_byte type rid len AND 0x20 \<noteq> 0" by (simp add: record_type_byte_id)
  with True show ?thesis
    by (simp add: parse_id_def record_id_bytes_def Let_def)
next
  case False
  then have "record_type_byte type rid len AND 0x20 = 0" using record_type_byte_id by blast
  with False show ?thesis
    by (simp add: parse_id_def record_id_bytes_def Let_def ucast_small_id)
qed

lemma parse_length_encoded:
  assumes "len < 2 ^ 24" "pos = length pre" "pre = record_type_byte type rid len # pre'"
  shows "parse_length (pre @ record_length_bytes len @ rest) pos =
    ok (len, pos + length (record_length_bytes len))"
proof -
  have b: "(pre @ record_length_bytes len @ rest) ! 0 = record_type_byte type rid len"
    by (simp add: assms(3))
  have n: "(pre @ xs) ! (length pre + k) = xs ! k" for xs :: bytes and k
    by (simp add: nth_append)
  have n0: "(pre @ xs) ! length pre = xs ! 0" for xs :: bytes
    using n [of xs 0] by simp
  consider "len < 8" | "\<not> len < 8" "len < 256" | "\<not> len < 256" "len < 65536"
    | "\<not> len < 65536" by linarith
  then show ?thesis
  proof cases
    case 1
    then show ?thesis
      unfolding parse_length_def Let_def b record_type_byte_length_type
      by (simp add: record_length_bytes_def record_type_byte_inline)
  next
    case 2
    then show ?thesis
      unfolding parse_length_def Let_def b record_type_byte_length_type
      by (simp add: record_length_bytes_def n0 assms(2) unat_of_nat)
  next
    case 3
    then show ?thesis
      unfolding parse_length_def Let_def b record_type_byte_length_type
      using join_len16 [of len] n [of _ 1] by (simp add: record_length_bytes_def n0 assms(2))
  next
    case 4
    then show ?thesis
      unfolding parse_length_def Let_def b record_type_byte_length_type
      using join_len24 [of len] assms(1) n [of _ 1] n [of _ 2]
      by (simp add: record_length_bytes_def n0 assms(2))
  qed
qed

definition encoded_header :: "tlv_type \<Rightarrow> u16 \<Rightarrow> bytes \<Rightarrow> tlv_header" where
  "encoded_header type rid v =
     \<lparr>hdr_type = type, hdr_id = rid,
      hdr_pos = 1 + length (record_id_bytes rid) + length (record_length_bytes (length v)),
      hdr_length = length v\<rparr>"

lemma parse_header_encoded:
  assumes "length v < 2 ^ 24"
  shows "parse_header (encode_record type rid v @ rest) = ok (encoded_header type rid v)"
proof -
  let ?t = "record_type_byte type rid (length v)"
  let ?d = "encode_record type rid v @ rest"
  have pid: "parse_id ?d = ok (rid, Suc (length (record_id_bytes rid)))"
    by (simp add: encode_record_Cons parse_id_encoded)
  have d: "?d = (?t # record_id_bytes rid) @ record_length_bytes (length v) @ v @ rest"
    by (simp add: encode_record_Cons)
  have plen: "parse_length ?d (Suc (length (record_id_bytes rid))) =
    ok (length v, Suc (length (record_id_bytes rid)) + length (record_length_bytes (length v)))"
    unfolding d by (rule parse_length_encoded [OF assms _ refl]) simp
  have hd: "?d ! 0 = ?t" by (simp add: encode_record_Cons)
  show ?thesis
    by (simp add: parse_header_def pid plen hd encoded_header_def)
      (simp add: encode_record_Cons)
qed

lemma header_consumed_encoded [simp]:
  "header_consumed (encoded_header type rid v) = length (encode_record type rid v)"
  by (simp add: header_consumed_def encoded_header_def encode_record_Cons)

lemma header_value_encoded [simp]:
  "header_value (encode_record type rid v @ rest) (encoded_header type rid v) = v"
  by (simp add: header_value_def encoded_header_def encode_record_Cons)

lemma encoded_header_sel [simp]:
  "hdr_type (encoded_header type rid v) = type" "hdr_id (encoded_header type rid v) = rid"
  by (simp_all add: encoded_header_def)

lemma parse_record_encoded:
  assumes "length v < 2 ^ 24"
  shows "parse_record (encode_record type rid v @ rest) depth =
    ok (TlvRecord type rid v (nested_records type v depth), length (encode_record type rid v))"
  by (simp add: parse_record_def parse_header_encoded [OF assms])

lemma decode_loop_Nil [simp]: "decode_loop [] depth records = ok records"
  by (subst decode_loop.simps) simp

lemma decode_loop_encoded:
  assumes "length v < 2 ^ 24"
  shows "decode_loop (encode_record type rid v @ rest) depth records =
    decode_loop rest depth (records @ [TlvRecord type rid v (nested_records type v depth)])"
  by (subst decode_loop_eq) (simp add: parse_record_encoded [OF assms])

text \<open>A buffer that is the concatenation of encoded records decodes to exactly these records.\<close>

definition encode_records :: "(tlv_type \<times> u16 \<times> bytes) list \<Rightarrow> bytes" where
  "encode_records rs = concat (map (\<lambda>(type, rid, v). encode_record type rid v) rs)"

definition records_fit :: "(tlv_type \<times> u16 \<times> bytes) list \<Rightarrow> bool" where
  "records_fit rs \<longleftrightarrow> (\<forall>(type, rid, v) \<in> set rs. length v < 2 ^ 24)"

lemma decode_loop_records:
  "records_fit rs \<Longrightarrow>
   decode_loop (encode_records rs) depth acc =
     ok (acc @ map (\<lambda>(type, rid, v). TlvRecord type rid v (nested_records type v depth)) rs)"
proof (induction rs arbitrary: acc)
  case Nil
  then show ?case by (simp add: encode_records_def)
next
  case (Cons r rs)
  obtain type rid v where r: "r = (type, rid, v)" by (cases r)
  with Cons show ?case
    by (simp add: encode_records_def records_fit_def decode_loop_encoded)
qed

lemma decode_impl_records:
  assumes "records_fit rs" "depth \<le> kMaxTlvDepth"
  shows "decode_impl (encode_records rs) depth =
     ok (map (\<lambda>(type, rid, v). TlvRecord type rid v (nested_records type v depth)) rs)"
  using assms by (subst decode_impl.simps) (simp add: decode_loop_records)

text \<open>The header parser never looks past the bytes of its record: more bytes change nothing.\<close>

lemma parse_header_append:
  assumes "parse_header d = ok h"
  shows "parse_header (d @ rest) = ok h"
proof -
  obtain rid pos where id: "parse_id d = ok (rid, pos)"
    using assms by (auto simp: parse_header_def split: if_splits sum.splits)
  from assms id obtain vl p where len: "parse_length d pos = ok (vl, p)"
    by (auto simp: parse_header_def split: if_splits sum.splits)
  from assms have ne: "d \<noteq> []" by (auto simp: parse_header_def)
  have pos: "1 \<le> pos" "pos \<le> length d"
    using id ne by (auto simp: parse_id_def Let_def split: if_splits)
  have "parse_id (d @ rest) = ok (rid, pos)"
    using id ne by (auto simp: parse_id_def Let_def nth_append split: if_splits)
  moreover have "parse_length (d @ rest) pos = ok (vl, p)"
    using len ne pos by (auto simp: parse_length_def Let_def nth_append split: if_splits)
  ultimately show ?thesis
    using assms id len ne by (auto simp: parse_header_def nth_append split: if_splits)
qed

lemma is_err_decode_if_header: "d \<noteq> [] \<Longrightarrow> is_err (parse_header d) \<Longrightarrow> is_err (decode d)"
  unfolding decode_def
  by (subst decode_impl.simps, subst decode_loop.simps)
    (auto simp: kMaxTlvDepth_def is_err_def split: sum.splits)

text \<open>Every proper prefix of an encoded record is rejected.\<close>

lemma decode_truncated:
  assumes v: "length v < 2 ^ 24" and n: "0 < n" "n < length (encode_record type rid v)"
  shows "is_err (decode (take n (encode_record type rid v)))"
proof (rule is_err_decode_if_header)
  let ?e = "encode_record type rid v"
  show "take n ?e \<noteq> []" using n by simp
  show "is_err (parse_header (take n ?e))"
  proof (cases "parse_header (take n ?e)")
    case (Inr h)
    then have "parse_header (take n ?e @ drop n ?e) = ok h" by (rule parse_header_append)
    then have "h = encoded_header type rid v"
      using parse_header_encoded [OF v, of type rid "[]"] by simp
    then have "header_consumed h = length ?e" by simp
    with parse_header_bounds(2) [OF Inr] n show ?thesis by simp
  qed simp
qed

section \<open>Big-endian numbers\<close>

definition be_bytes :: "nat \<Rightarrow> 'a::len word \<Rightarrow> bytes" where
  "be_bytes n w = map (\<lambda>i. ubyte_at (8 * i) w) (rev [0..<n])"

lemma length_be_bytes [simp]: "length (be_bytes n w) = n"
  by (simp add: be_bytes_def)

lemma be_bytes_Suc: "be_bytes (Suc n) w = ubyte_at (8 * n) w # be_bytes n w"
  by (simp add: be_bytes_def)

lemma be_value_acc:
  "foldl (\<lambda>value b. push_bit 8 value OR ucast b) acc (be_bytes n w) =
     (push_bit (8 * n) acc OR take_bit (8 * n) w :: 'a::len word)"
proof (induction n arbitrary: acc)
  case 0
  then show ?case by (simp add: be_bytes_def)
next
  case (Suc n)
  have "push_bit (8 * n) (push_bit 8 acc OR ucast (ubyte_at (8 * n) w)) OR take_bit (8 * n) w =
    push_bit (8 * Suc n) acc OR take_bit (8 * Suc n) w"
    by (rule bit_word_eqI) (auto simp: bit_simps algebra_simps)
  with Suc show ?case by (simp add: be_bytes_Suc)
qed

lemma be_value_be_bytes [simp]: "be_value (be_bytes n w) = take_bit (8 * n) w"
  by (simp add: be_value_def be_value_acc)

lemma sbyte_at_eq: "k \<le> 56 \<Longrightarrow> sbyte_at k v = ubyte_at k v"
proof -
  assume k: "k \<le> 56"
  have "signed_drop_bit k v AND 0xFF = take_bit 8 (signed_drop_bit k v)"
    by (simp add: take_bit_eq_mask mask_eq_exp_minus_1)
  then show ?thesis
    unfolding sbyte_at_def using k
    by (intro bit_word_eqI) (auto simp: bit_simps)
qed

lemma ubyte_at_0: "ubyte_at 0 w = ucast w"
  by (rule bit_word_eqI) (auto simp: bit_simps)

lemma serialize_int_be:
  "serialize_int v =
     be_bytes (if -128 \<le> sint v \<and> sint v \<le> 127 then 1
               else if -32768 \<le> sint v \<and> sint v \<le> 32767 then 2
               else if -8388608 \<le> sint v \<and> sint v \<le> 8388607 then 4 else 8) v"
  by (simp add: serialize_int_def be_bytes_def sbyte_at_eq ubyte_at_0 upt_rec)

lemma serialize_uint_be:
  "serialize_uint v =
     be_bytes (if v \<le> 255 then 1 else if v \<le> 65535 then 2 else if v \<le> 16777215 then 4 else 8) v"
  by (simp add: serialize_uint_def be_bytes_def ubyte_at_0 upt_rec)

lemma serialize_float_be: "serialize_float v = be_bytes 8 v"
  by (simp add: serialize_float_def be_bytes_def mult.commute)

lemma bit_of_small_sint:
  assumes "- (2 ^ m) \<le> sint v" "sint v < 2 ^ m" "m \<le> i" "i < LENGTH('a)"
  shows "bit (v :: 'a::len word) i = bit v m"
proof -
  have "signed_take_bit m (sint v) = sint v"
    using assms by (simp add: signed_take_bit_int_eq_self)
  then have "bit (sint v) i = bit (signed_take_bit m (sint v)) i" by simp
  also have "\<dots> = bit (sint v) m" using assms by (simp add: bit_simps)
  finally show ?thesis using assms by (simp add: bit_sint_iff)
qed

lemma deserialize_int_be:
  assumes "0 < n" "n \<le> 8" "- (2 ^ (8 * n - 1)) \<le> sint v" "sint v < 2 ^ (8 * n - 1)"
  shows "deserialize_int (be_bytes n v) = ok v"
proof -
  obtain k where k: "n = Suc k" using assms(1) by (cases n) auto
  have neg: "be_bytes n v ! 0 AND 0x80 \<noteq> 0 \<longleftrightarrow> bit v (8 * n - 1)"
  proof -
    have "be_bytes n v ! 0 AND 0x80 \<noteq> 0 \<longleftrightarrow> bit (be_bytes n v ! 0) 7"
      using and_exp_eq_0_iff_not_bit [of "be_bytes n v ! 0" 7] by simp
    then show ?thesis by (simp add: k be_bytes_Suc bit_simps algebra_simps)
  qed
  have hi: "bit v i = bit v (8 * n - 1)" if "8 * n - 1 \<le> i" "i < 64" for i
    using bit_of_small_sint [OF assms(3,4) that(1)] that(2) by simp
  show ?thesis
  proof (cases "bit v (8 * n - 1)")
    case True
    have m: "push_bit (n * 8) 1 - 1 = (mask (8 * n) :: i64)"
      by (simp add: mask_eq_exp_minus_1 push_bit_eq_mult mult.commute)
    have "take_bit (8 * n) v OR NOT (push_bit (n * 8) 1 - 1) = v"
      unfolding m
    proof (rule bit_word_eqI)
      fix i assume "i < LENGTH(64)"
      then show "bit (take_bit (8 * n) v OR NOT (mask (8 * n))) i = bit v i"
        using hi [of i] True by (auto simp: bit_simps)
    qed
    moreover have "take_bit 64 v = v" by (simp add: take_bit_word_eq_self)
    ultimately show ?thesis
      using assms(1,2) True neg
      by (cases "n = 8") (simp_all add: deserialize_int_def Let_def)
  next
    case False
    have "take_bit (8 * n) v = v"
    proof (rule bit_word_eqI)
      fix i assume "i < LENGTH(64)"
      then show "bit (take_bit (8 * n) v) i = bit v i"
        using hi [of i] False by (cases "8 * n - 1 \<le> i") (auto simp: bit_simps)
    qed
    then show ?thesis
      using assms(1,2) False neg by (simp add: deserialize_int_def Let_def)
  qed
qed

lemma deserialize_serialize_int [simp]: "deserialize_int (serialize_int v) = ok v"
proof -
  have "- (2 ^ 63) \<le> sint v \<and> sint v < 2 ^ 63"
    using sint_ge [of v] sint_lt [of v] by simp
  then show ?thesis
    by (simp add: serialize_int_be deserialize_int_be)
qed

lemma deserialize_serialize_uint [simp]: "deserialize_uint (serialize_uint v) = ok v"
proof -
  have self: "take_bit n v = v" if "unat v < 2 ^ n" for n
  proof -
    from that have "unat (take_bit n v) = unat v"
      by (simp add: unsigned_take_bit_eq take_bit_nat_eq_self_iff)
    then show ?thesis by (simp add: word_unat_eq_iff)
  qed
  show ?thesis
    using self [of 8] self [of 16] self [of 32]
    by (auto simp: serialize_uint_be deserialize_uint_def Let_def word_le_nat_alt
        take_bit_word_eq_self)
qed

section \<open>Values\<close>

lemma deserialize_serialize_bool [simp]: "deserialize_bool (serialize_bool v) = ok v"
  by (simp add: deserialize_bool_def serialize_bool_def)

lemma deserialize_serialize_float [simp]: "deserialize_float (serialize_float v) = ok v"
  by (simp add: deserialize_float_def serialize_float_be Let_def take_bit_word_eq_self)

lemma deserialize_serialize_string [simp]: "deserialize_string (serialize_string v) = ok v"
  by (simp add: deserialize_string_def serialize_string_def)

text \<open>What a value becomes on the wire: a link keeps object and instance, a time its seconds.\<close>

definition link_on_wire :: "object_path \<Rightarrow> object_path" where
  "link_on_wire p = path_instance (object_id p)
     (case instance_id p of None \<Rightarrow> Strong 0 | Some i \<Rightarrow> i)"

definition time_on_wire :: "time_point \<Rightarrow> time_point" where
  "time_on_wire t = word_of_int ((sint t sdiv 1000000000) * 1000000000)"

fun value_on_wire :: "resource_value \<Rightarrow> resource_value" where
  "value_on_wire (V_ObjLink p) = V_ObjLink (link_on_wire p)"
| "value_on_wire (V_Time t) = V_Time (time_on_wire t)"
| "value_on_wire v = v"

lemma deserialize_serialize_objlink [simp]:
  "deserialize_objlink (serialize_objlink p) = ok (link_on_wire p)"
  by (simp add: deserialize_objlink_def serialize_objlink_def link_on_wire_def Let_def)

lemma deserialize_serialize_time [simp]:
  "deserialize_time (serialize_time t) = ok (time_on_wire t)"
  by (simp add: deserialize_time_def serialize_time_def time_on_wire_def)

lemma decode_serialize_value:
  "decode_resource (serialize_value v) (get_resource_type v) = ok (value_on_wire v)"
  by (cases v) simp_all

text \<open>The time on the wire is the instant rounded towards the epoch to a whole second; no overflow.\<close>

lemma time_on_wire_sint:
  "sint (time_on_wire t) = (sint t sdiv 1000000000) * 1000000000"
proof -
  have s: "- (2 ^ 63) \<le> sint t" "sint t < 2 ^ 63"
    using sint_ge [of t] sint_lt [of t] by simp_all
  let ?q = "\<bar>sint t\<bar> div 1000000000"
  have q: "sint t sdiv 1000000000 = sgn (sint t) * ?q"
    by (simp add: signed_divide_int_def)
  have "?q * 1000000000 \<le> \<bar>sint t\<bar>" "0 \<le> ?q" by simp_all
  then have "- (2 ^ 63) \<le> (sint t sdiv 1000000000) * 1000000000 \<and>
      (sint t sdiv 1000000000) * 1000000000 < 2 ^ 63"
    unfolding q using s by (cases "sint t" "0::int" rule: linorder_cases) auto
  then have "signed_take_bit 63 ((sint t sdiv 1000000000) * 1000000000) =
      (sint t sdiv 1000000000) * 1000000000"
    by (intro signed_take_bit_int_eq_self) simp_all
  then show ?thesis
    unfolding time_on_wire_def signed_of_int by simp
qed

section \<open>Composite encoders\<close>

definition resource_records :: "(resource_id \<times> resource_value) list \<Rightarrow> (tlv_type \<times> u16 \<times> bytes) list" where
  "resource_records rs = map (\<lambda>(rid, v). (TlvResource, strong_value rid, serialize_value v)) rs"

lemma encode_resources_loop_eq:
  "encode_resources_loop rs inner = ok (inner @ encode_records (resource_records rs))"
  by (induction rs arbitrary: inner)
    (auto simp: encode_resource_def encode_records_def resource_records_def)

lemma encode_instance_eq:
  "encode_instance iid rs =
     ok (encode_record ObjectInstance (strong_value iid) (encode_records (resource_records rs)))"
  by (simp add: encode_instance_def encode_resources_loop_eq)

text \<open>Retagging the first byte of a resource record makes it a resource instance record.\<close>

lemma retag_type_byte:
  "(record_type_byte TlvResource rid len AND 0x3F) OR push_bit 6 (tlv_type_value ResourceInstance) =
   record_type_byte ResourceInstance rid len"
proof (cases "len < 8")
  case True
  then have "len \<in> {0,1,2,3,4,5,6,7}" by auto
  then show ?thesis by (auto simp: record_type_byte_def Let_def)
next
  case False
  then show ?thesis by (auto simp: record_type_byte_def Let_def)
qed

definition instance_records ::
  "(resource_instance_id \<times> resource_value) list \<Rightarrow> (tlv_type \<times> u16 \<times> bytes) list" where
  "instance_records rs = map (\<lambda>(rid, v). (ResourceInstance, strong_value rid, serialize_value v)) rs"

lemma encode_instances_loop_eq:
  "encode_instances_loop rs inner = ok (inner @ encode_records (instance_records rs))"
proof (induction rs arbitrary: inner)
  case (Cons r rs)
  then show ?case
    using retag_type_byte
    by (cases r) (simp add: encode_resource_def encode_records_def instance_records_def encode_record_Cons Let_def)
qed (simp add: encode_records_def instance_records_def)

lemma encode_multi_resource_eq:
  "encode_multi_resource rid rs =
     ok (encode_record MultiResource (strong_value rid) (encode_records (instance_records rs)))"
  by (simp add: encode_multi_resource_def encode_instances_loop_eq)

text \<open>A record inside a buffer is no longer than the buffer.\<close>

lemma length_encode_records_mem:
  "(type, rid, v) \<in> set rs \<Longrightarrow> length v \<le> length (encode_records rs)"
proof -
  assume "(type, rid, v) \<in> set rs"
  then obtain xs ys where "rs = xs @ (type, rid, v) # ys" by (auto dest: split_list)
  then show ?thesis by (simp add: encode_records_def length_encode_record)
qed

lemma records_fit_if_total: "length (encode_records rs) < 2 ^ 24 \<Longrightarrow> records_fit rs"
  by (auto simp: records_fit_def dest: length_encode_records_mem)

definition plain_record :: "tlv_type \<times> u16 \<times> bytes \<Rightarrow> tlv_record" where
  "plain_record r = (case r of (type, rid, v) \<Rightarrow> TlvRecord type rid v [])"

lemma nested_records_plain:
  assumes "length (encode_records rs) < 2 ^ 24" "depth < kMaxTlvDepth"
    "type = ObjectInstance \<or> type = MultiResource"
    "\<forall>(t, rid, v) \<in> set rs. t \<noteq> ObjectInstance \<and> t \<noteq> MultiResource"
  shows "nested_records type (encode_records rs) depth = map plain_record rs"
proof -
  have "decode_impl (encode_records rs) (depth + 1) =
    ok (map (\<lambda>(t, rid, v). TlvRecord t rid v (nested_records t v (depth + 1))) rs)"
    using assms(1,2) by (intro decode_impl_records records_fit_if_total) auto
  with assms(3,4) show ?thesis
    by (auto simp: nested_records_def plain_record_def)
qed

lemma decode_single:
  "length v < 2 ^ 24 \<Longrightarrow>
   decode (encode_record type rid v) = ok [TlvRecord type rid v (nested_records type v 0)]"
  using decode_impl_records [of "[(type, rid, v)]" 0]
  by (simp add: decode_def encode_records_def records_fit_def)

lemma decode_encode_instances:
  fixes insts :: "(instance_id \<times> (resource_id \<times> resource_value) list) list"
  assumes "\<forall>(iid, rs) \<in> set insts. length (encode_records (resource_records rs)) < 2 ^ 24"
  shows "decode (encode_records (map (\<lambda>(iid, rs).
            (ObjectInstance, strong_value iid, encode_records (resource_records rs))) insts)) =
    ok (map (\<lambda>(iid, rs). TlvRecord ObjectInstance (strong_value iid)
            (encode_records (resource_records rs)) (map plain_record (resource_records rs))) insts)"
proof -
  let ?r = "\<lambda>(iid, rs). (ObjectInstance, strong_value (iid :: instance_id),
      encode_records (resource_records rs))"
  have fit: "records_fit (map ?r insts)"
    using assms by (auto simp: records_fit_def)
  have nest: "nested_records ObjectInstance (encode_records (resource_records rs)) 0 =
      map plain_record (resource_records rs)" if "(iid, rs) \<in> set insts" for iid rs
    using assms that
    by (intro nested_records_plain) (auto simp: kMaxTlvDepth_def resource_records_def)
  show ?thesis
    unfolding decode_def
    by (subst decode_impl_records [OF fit]) (auto simp: nest)
qed

section \<open>Bounds on what the decoder builds\<close>

text \<open>
  \<open>records_within n len rs\<close>: the records \<open>rs\<close> and those inside them have at most \<open>n\<close>
  levels, and at every level each list of records with two bytes of header per record fits into the
  value that contains it, the outermost into \<open>len\<close> bytes.
\<close>

fun records_within :: "nat \<Rightarrow> nat \<Rightarrow> tlv_record list \<Rightarrow> bool" where
  "records_within 0 len rs \<longleftrightarrow> rs = []"
| "records_within (Suc n) len rs \<longleftrightarrow>
     sum_list (map (\<lambda>r. 2 + length (rec_value r)) rs) \<le> len \<and>
     list_all (\<lambda>r. records_within n (length (rec_value r)) (rec_children r)) rs"

lemma records_within_Nil [simp]: "records_within n len []"
  by (cases n) simp_all

lemma records_within_Cons:
  assumes "2 + length (rec_value r) \<le> k" "k \<le> len" "0 < n"
    "records_within (n - 1) (length (rec_value r)) (rec_children r)" "records_within n (len - k) rs"
  shows "records_within n len (r # rs)"
  using assms by (cases n) auto

lemma decode_bounds_aux:
  "decode_impl d depth = ok rs \<Longrightarrow> depth \<le> 8 \<and> records_within (9 - depth) (length d) rs"
  "decode_loop d' depth' acc = ok rs' \<Longrightarrow> depth' \<le> 8 \<Longrightarrow>
     \<exists>new. rs' = acc @ new \<and> records_within (9 - depth') (length d') new"
proof (induction d depth and d' depth' acc arbitrary: rs and rs' rule: decode_impl_decode_loop.induct)
  case (1 d depth)
  then show ?case
    by (auto simp: decode_impl.simps [of d depth] kMaxTlvDepth_def split: if_splits)
next
  case (2 d depth acc)
  show ?case
  proof (cases "d = []")
    case True
    with 2 show ?thesis by auto
  next
    case False
    with 2(3) obtain h where h: "parse_header d = ok h"
      by (subst (asm) decode_loop.simps) (auto split: sum.splits)
    let ?v = "header_value d h" and ?n = "header_consumed h"
    define cs where "cs = nested_records (hdr_type h) ?v depth"
    let ?r = "TlvRecord (hdr_type h) (hdr_id h) ?v cs"
    have loop: "decode_loop (drop ?n d) depth (acc @ [?r]) = ok rs'"
      using 2(3) False h by (subst (asm) decode_loop_eq) (simp add: parse_record_def cs_def)
    from 2(2) [OF False h refl] loop 2(4) obtain new where
      new: "rs' = (acc @ [?r]) @ new" "records_within (9 - depth) (length (drop ?n d)) new"
      by (auto simp: cs_def nested_records_def)
    have vlen: "2 + length ?v \<le> ?n" "?n \<le> length d"
      using parse_header_bounds [OF h] by (auto simp: header_value_def header_consumed_def)
    have "records_within (8 - depth) (length ?v) cs"
    proof (cases "(hdr_type h = ObjectInstance \<or> hdr_type h = MultiResource) \<and>
        is_ok (decode_impl ?v (depth + 1))")
      case True
      then obtain ns where ns: "decode_impl ?v (depth + 1) = ok ns"
        by (auto simp: is_ok_def split: sum.splits)
      from 2(1) [OF False h _ ns] True ns show ?thesis
        by (auto simp: cs_def nested_records_def)
    next
      case False
      then have "cs = []"
        by (auto simp: cs_def nested_records_def is_ok_def split: sum.splits)
      then show ?thesis by simp
    qed
    then have "records_within (9 - depth) (length d) (?r # new)"
      using vlen new(2) 2(4) by (intro records_within_Cons [of ?r ?n]) simp_all
    with new(1) show ?thesis by auto
  qed
qed

lemma decode_bounds: "decode d = ok rs \<Longrightarrow> records_within 9 (length d) rs"
  using decode_bounds_aux(1) [of d 0 rs] by (simp add: decode_def)

text \<open>The depth limit is never reported: a buffer fails to decode only because it is truncated.\<close>

lemma parse_header_errors:
  "parse_header d = Inl e \<Longrightarrow> e \<in> {mk_error E_DecodingError ''Empty TLV data'',
     mk_error E_DecodingError ''Truncated TLV'', mk_error E_DecodingError ''Truncated TLV value''}"
  by (auto simp: parse_header_def parse_id_def parse_length_def Let_def err_def
      split: if_splits sum.splits prod.splits)

lemma decode_loop_errors:
  "decode_loop d depth acc = Inl e \<Longrightarrow> e \<in> {mk_error E_DecodingError ''Truncated TLV'',
     mk_error E_DecodingError ''Truncated TLV value''}"
proof (induction "length d" arbitrary: d acc rule: less_induct)
  case less
  show ?case
  proof (cases "parse_header d")
    case (Inl e')
    with less.prems have "d \<noteq> []" "e = e'"
      by (subst (asm) decode_loop.simps, simp split: if_splits)+
    then show ?thesis
      using Inl
      by (auto simp: parse_header_def parse_id_def parse_length_def Let_def err_def
          split: if_splits sum.splits prod.splits)
  next
    case (Inr h)
    note b = parse_header_bounds [OF Inr]
    with less.prems Inr have "\<exists>acc'. decode_loop (drop (header_consumed h) d) depth acc' = Inl e"
      by (subst (asm) decode_loop_eq) (auto simp: parse_record_def)
    moreover have "length (drop (header_consumed h) d) < length d"
      using b by (auto simp: header_consumed_def)
    ultimately show ?thesis using less.hyps by blast
  qed
qed

section \<open>Serialisers and deserialisers as codecs\<close>

text \<open>
  The contract between a serialiser and the deserialiser of the same type: decoding gives back
  the value up to \<open>norm\<close>, which is what the wire format keeps of it, and \<open>norm\<close> changes
  nothing on the wire.
\<close>

locale value_codec =
  fixes ser :: "'a \<Rightarrow> bytes" and deser :: "bytes \<Rightarrow> 'a result" and norm :: "'a \<Rightarrow> 'a"
  assumes deser_ser: "deser (ser v) = ok (norm v)"
    and ser_norm: "ser (norm v) = ser v"
begin

lemma norm_norm: "norm (norm v) = norm v"
  using deser_ser [of v] deser_ser [of "norm v"] by (simp add: ser_norm)

lemma ser_eq_iff: "ser v = ser w \<longleftrightarrow> norm v = norm w"
  by (metis deser_ser ser_norm sum.inject(2))

lemma deser_never_fails: "is_ok (deser (ser v))"
  by (simp add: deser_ser)

end

interpretation bool_codec: value_codec serialize_bool deserialize_bool "\<lambda>v. v"
  by unfold_locales simp_all

interpretation int_codec: value_codec serialize_int deserialize_int "\<lambda>v. v"
  by unfold_locales simp_all

interpretation uint_codec: value_codec serialize_uint deserialize_uint "\<lambda>v. v"
  by unfold_locales simp_all

interpretation float_codec: value_codec serialize_float deserialize_float "\<lambda>v. v"
  by unfold_locales simp_all

interpretation string_codec: value_codec serialize_string deserialize_string "\<lambda>v. v"
  by unfold_locales simp_all

interpretation objlink_codec: value_codec serialize_objlink deserialize_objlink link_on_wire
  by unfold_locales (simp, simp add: serialize_objlink_def link_on_wire_def path_cons_defs)

lemma serialize_time_on_wire: "serialize_time (time_on_wire t) = serialize_time t"
proof -
  have "(q * 1000000000) sdiv 1000000000 = q" for q :: int
    by (simp add: signed_divide_int_def abs_mult sgn_mult abs_sgn mult.commute)
  then show ?thesis
    by (simp add: serialize_time_def time_on_wire_sint)
qed

interpretation time_codec: value_codec serialize_time deserialize_time time_on_wire
  by unfold_locales (simp_all add: serialize_time_on_wire)

text \<open>The codec of a whole value, at the value's own type.\<close>

lemma serialize_value_on_wire: "serialize_value (value_on_wire v) = serialize_value v"
  by (cases v) (simp_all add: objlink_codec.ser_norm time_codec.ser_norm)

section \<open>Properties\<close>

text \<open>C29: a sequence of encoded records, of every type and with values below 16 MiB, decodes to
  exactly these records in their order, containers with their nested records.\<close>

theorem tlv_sequence_roundtrip:
  "records_fit rs \<Longrightarrow>
     decode (encode_records rs) =
       ok (map (\<lambda>(type, rid, v). TlvRecord type rid v (nested_records type v 0)) rs)"
  by (simp add: decode_def decode_impl_records)

theorem tlv_sequence_roundtrip_witness:
  "decode (encode_records [(TlvResource, 1, [7]), (TlvResource, 300, replicate 9 0)]) =
     ok [TlvRecord TlvResource 1 [7] [], TlvRecord TlvResource 300 (replicate 9 0) []]"
proof -
  have "records_fit [(TlvResource, 1, [7]), (TlvResource, 300, replicate 9 0)]"
    by (simp add: records_fit_def)
  from tlv_sequence_roundtrip [OF this] show ?thesis by (simp add: nested_records_def)
qed

text \<open>the payload of a Read on an object, the concatenation of its encoded instances, decodes
  to one Object Instance record per instance holding one Resource record per resource.\<close>

theorem tlv_instances_roundtrip:
  fixes insts :: "(instance_id \<times> (resource_id \<times> resource_value) list) list"
  assumes "\<forall>(iid, rs) \<in> set insts. length (encode_records (resource_records rs)) < 2 ^ 24"
  shows "decode (concat (map (\<lambda>(iid, rs). case encode_instance iid rs of Inl _ \<Rightarrow> [] | Inr b \<Rightarrow> b) insts)) =
    ok (map (\<lambda>(iid, rs). TlvRecord ObjectInstance (strong_value iid)
            (encode_records (resource_records rs)) (map plain_record (resource_records rs))) insts)"
proof -
  have "concat (map (\<lambda>(iid, rs). case encode_instance iid rs of Inl _ \<Rightarrow> [] | Inr b \<Rightarrow> b) insts) =
      encode_records (map (\<lambda>(iid, rs).
        (ObjectInstance, strong_value iid, encode_records (resource_records rs))) insts)"
    by (induction insts) (auto simp: encode_instance_eq encode_records_def)
  then show ?thesis using decode_encode_instances [OF assms] by simp
qed

theorem tlv_instances_roundtrip_witness:
  "decode (concat (map (\<lambda>(iid, rs). case encode_instance iid rs of Inl _ \<Rightarrow> [] | Inr b \<Rightarrow> b)
      [(Strong 0, [(Strong 1, V_Bool True)]), (Strong 1, [])])) =
   ok [TlvRecord ObjectInstance 0 [193, 1, 1] [TlvRecord TlvResource 1 [1] []],
       TlvRecord ObjectInstance 1 [] []]"
  using tlv_instances_roundtrip [of "[(Strong 0, [(Strong 1, V_Bool True)]), (Strong 1, [])]"]
  by (simp add: resource_records_def encode_records_def encode_record_Cons record_type_byte_def
      record_id_bytes_def record_length_bytes_def serialize_bool_def plain_record_def)

text \<open>An encoded multiple resource decodes to one record holding the resource instances in
  order.\<close>

theorem tlv_multi_resource_roundtrip:
  assumes "length (encode_records (instance_records vs)) < 2 ^ 24"
  shows "and_then (encode_multi_resource rid vs) decode =
    ok [TlvRecord MultiResource (strong_value rid) (encode_records (instance_records vs))
          (map plain_record (instance_records vs))]"
proof -
  have "nested_records MultiResource (encode_records (instance_records vs)) 0 =
      map plain_record (instance_records vs)"
    by (rule nested_records_plain [OF assms])
      (auto simp: kMaxTlvDepth_def instance_records_def)
  then show ?thesis by (simp add: encode_multi_resource_eq decode_single [OF assms])
qed

theorem tlv_multi_resource_roundtrip_witness:
  "and_then (encode_multi_resource (Strong 6) [(Strong 0, V_Int 1), (Strong 1, V_Int 5)]) decode =
    ok [TlvRecord MultiResource 6 [65, 0, 1, 65, 1, 5]
          [TlvRecord ResourceInstance 0 [1] [], TlvRecord ResourceInstance 1 [5] []]]"
  using tlv_multi_resource_roundtrip [of "[(Strong 0, V_Int 1), (Strong 1, V_Int 5)]" "Strong 6"]
  by (simp add: instance_records_def encode_records_def encode_record_Cons record_type_byte_def
      record_id_bytes_def record_length_bytes_def serialize_int_def plain_record_def)

text \<open>C30: every resource value survives serialisation and decoding with its own type, up to what
  the wire format holds: a time is cut to seconds, an object link to its object and instance.\<close>

theorem value_roundtrip:
  "decode_resource (serialize_value v) (get_resource_type v) = ok (value_on_wire v)"
  by (rule decode_serialize_value)

text \<open>no proper non-empty prefix of an encoded record is accepted.\<close>

theorem tlv_truncation_detected:
  assumes "length v < 2 ^ 24" "0 < n" "n < length (encode_record type rid v)"
  shows "is_err (decode (take n (encode_record type rid v)))"
  by (rule decode_truncated [OF assms])

theorem tlv_truncation_detected_witness:
  "is_err (decode (take 5 (encode_record TlvResource 2 [1, 2, 3, 4])))"
  by (rule tlv_truncation_detected)
    (simp_all add: length_encode_record)

text \<open>C31: what the decoder returns on any input is bounded by the input: at most nine levels deep,
  and at every level the records of one container, with two bytes for the header of each, take no
  more room than the value of that container has bytes; the outermost no more than the input.\<close>

theorem decoder_bounded:
  "decode d = ok rs \<Longrightarrow> records_within 9 (length d) rs"
  by (rule decode_bounds)

theorem decoder_bounded_witness:
  "\<exists>rs. decode (encode_record ObjectInstance 1 (encode_record TlvResource 1 [7])) = ok rs \<and> rs \<noteq> [] \<and>
     records_within 9 5 rs"
proof -
  let ?v = "encode_record TlvResource 1 [7]"
  have d: "decode (encode_record ObjectInstance 1 ?v) =
      ok [TlvRecord ObjectInstance 1 ?v (nested_records ObjectInstance ?v 0)]"
    by (rule decode_single) (simp add: length_encode_record)
  have "length (encode_record ObjectInstance 1 ?v) = 5" by (simp add: length_encode_record)
  with d decoder_bounded [OF d] show ?thesis by simp
qed

text \<open>decoding fails only with one of the two truncation errors; in particular the depth limit
  of the recursion is never reported to a caller of \<open>decode\<close>.\<close>

theorem decoder_errors:
  "decode d = Inl e \<Longrightarrow>
     e \<in> {mk_error E_DecodingError ''Truncated TLV'', mk_error E_DecodingError ''Truncated TLV value''}"
  by (rule decode_loop_errors [of d 0 "[]"]) (simp add: decode_def decode_impl.simps [of d 0] kMaxTlvDepth_def)

theorem decoder_errors_witness:
  "\<exists>e. decode [0xC1] = Inl e \<and>
     e \<in> {mk_error E_DecodingError ''Truncated TLV'', mk_error E_DecodingError ''Truncated TLV value''}"
proof -
  have "is_err (decode (take 1 (encode_record TlvResource 1 [7])))"
    by (rule decode_truncated) (simp_all add: length_encode_record)
  moreover have "take 1 (encode_record TlvResource 1 [7]) = [0xC1]"
    by (simp add: encode_record_Cons record_type_byte_def)
  ultimately obtain e where "decode [0xC1] = Inl e" by (cases "decode [0xC1]") auto
  with decoder_errors [OF this] show ?thesis by blast
qed

end
