(* ===== verification/Tlv_Grammar.thy ===== *)
theory Tlv_Grammar
  imports Tlv_Codec
begin

text \<open>
  The TLV format as a grammar, in the arithmetic of its description and without the decoder's
  shifts, positions and bounds tests: what a header may look like, and which buffers a list of
  records stands for. The decoder accepts exactly this language.
\<close>

section \<open>Headers\<close>

definition number :: "bytes \<Rightarrow> nat" where
  "number ds = foldl (\<lambda>n b. n * 256 + unat b) 0 ds"

text \<open>
  A type byte with the record type, the flag for a wide identifier, the size of the length field
  and a short length; the identifier; the length field.
\<close>

definition type_byte :: "tlv_type \<Rightarrow> bool \<Rightarrow> nat \<Rightarrow> nat \<Rightarrow> u8" where
  "type_byte type wide lsize short =
     of_nat (64 * unat (tlv_type_value type) + 32 * of_bool wide + 8 * lsize + short)"

definition tlv_header_bytes :: "tlv_type \<Rightarrow> u16 \<Rightarrow> nat \<Rightarrow> bytes \<Rightarrow> bool" where
  "tlv_header_bytes type rid len hdr \<longleftrightarrow>
     (\<exists>wide lsize short ids lens. lsize < 4 \<and> short < 8 \<and>
        length ids = (if wide then 2 else 1) \<and> length lens = lsize \<and>
        hdr = type_byte type wide lsize short # ids @ lens \<and>
        unat rid = number ids \<and> len = (if lsize = 0 then short else number lens))"

section \<open>Buffers\<close>

text \<open>
  \<open>denotes n d rs\<close>: the bytes \<open>d\<close> are the records \<open>rs\<close>, with \<open>n\<close> levels allowed
  below. An instance or a multiple resource has as children what its value denotes, and none when
  its value is no such buffer or lies too deep.
\<close>

abbreviation nests :: "tlv_type \<Rightarrow> bool" where
  "nests type \<equiv> type = ObjectInstance \<or> type = MultiResource"

function denotes :: "nat \<Rightarrow> bytes \<Rightarrow> tlv_record list \<Rightarrow> bool" where
  "denotes n d [] \<longleftrightarrow> d = []"
| "denotes n d (TlvRecord type rid v cs # rs) \<longleftrightarrow>
     (\<exists>hdr rest. tlv_header_bytes type rid (length v) hdr \<and> d = hdr @ v @ rest \<and>
        (case n of 0 \<Rightarrow> cs = []
         | Suc m \<Rightarrow> if nests type \<and> (\<exists>cs'. denotes m v cs') then denotes m v cs else cs = []) \<and>
        denotes n rest rs)"
  by pat_completeness auto
termination
  by (relation "measures [\<lambda>(n, d, rs). n, \<lambda>(n, d, rs). length rs]") auto

declare denotes.simps(2) [simp del]

section \<open>The header parser\<close>

lemma tlv_type_value_less: "unat (tlv_type_value type) < 4"
  by (cases type) simp_all

lemma unat_type_byte:
  assumes "lsize < 4" "short < 8"
  shows "unat (type_byte type wide lsize short) =
    64 * unat (tlv_type_value type) + 32 * of_bool wide + 8 * lsize + short"
proof -
  have small: "unat (of_nat x :: u8) = x" if "x < 256" for x
    using that by (simp add: unat_of_nat take_bit_nat_eq_self_iff)
  show ?thesis
    unfolding type_byte_def using assms tlv_type_value_less [of type]
    by (intro small) (cases wide; simp)
qed

lemma byte_fields:
  fixes b :: u8
  shows "unat (drop_bit 6 b AND 0x03) = unat b div 64"
    "unat (drop_bit 3 b AND 0x03) = unat b div 8 mod 4"
    "unat (b AND 0x07) = unat b mod 8"
    "b AND 0x20 \<noteq> 0 \<longleftrightarrow> odd (unat b div 32)"
proof -
  have m: "x AND 3 = take_bit 2 x" "x AND 7 = take_bit 3 x" for x :: u8
    by (simp_all add: take_bit_eq_mask mask_eq_exp_minus_1)
  have "unat b < 256" using unsigned_less [of b] by simp
  then show "unat (drop_bit 6 b AND 0x03) = unat b div 64"
    by (simp add: m unsigned_take_bit_eq unsigned_drop_bit_eq take_bit_eq_mod drop_bit_eq_div
        unat_mod_distrib unat_div_distrib)
  show "unat (drop_bit 3 b AND 0x03) = unat b div 8 mod 4"
    by (simp add: m unsigned_take_bit_eq unsigned_drop_bit_eq take_bit_eq_mod drop_bit_eq_div
        unat_mod_distrib unat_div_distrib)
  show "unat (b AND 0x07) = unat b mod 8"
    by (simp add: m unsigned_take_bit_eq take_bit_eq_mod unat_mod_distrib)
  have "b AND 0x20 \<noteq> 0 \<longleftrightarrow> bit b 5"
    using and_exp_eq_0_iff_not_bit [of b 5] by simp
  also have "\<dots> \<longleftrightarrow> bit (unat b) 5" by (simp add: bit_unsigned_iff)
  also have "\<dots> \<longleftrightarrow> odd (unat b div 32)" by (simp add: bit_iff_odd)
  finally show "b AND 0x20 \<noteq> 0 \<longleftrightarrow> odd (unat b div 32)" .
qed

lemma unat_shifted_or:
  fixes x :: u8 and y :: "'a::len word"
  assumes "unat y < 2 ^ k" "k + 8 \<le> LENGTH('a)"
  shows "unat (push_bit k (ucast x) OR y) = unat x * 2 ^ k + unat y"
proof -
  have y: "\<not> bit y i" if "k \<le> i" for i
  proof -
    have "take_bit k (unat y) = unat y" using assms(1) by (simp add: take_bit_nat_eq_self_iff)
    then have "take_bit k y = y" by (simp add: word_unat_eq_iff unsigned_take_bit_eq)
    then have "bit y i = bit (take_bit k y) i" by simp
    with that show ?thesis by (simp add: bit_take_bit_iff)
  qed
  have x: "unat x < 256" using unsigned_less [of x] by simp
  have "unat x * 2 ^ k < 256 * 2 ^ k" using x by simp
  also have "\<dots> = (2::nat) ^ (k + 8)" by (simp add: power_add)
  finally have bound: "unat x * 2 ^ k < 2 ^ (k + 8)" .
  have "unat x * 2 ^ k + unat y < (unat x + 1) * 2 ^ k" using assms(1) by simp
  also have "\<dots> \<le> 256 * 2 ^ k" using x by (intro mult_right_mono) simp_all
  also have "\<dots> = (2::nat) ^ (k + 8)" by (simp add: power_add)
  also have "\<dots> \<le> 2 ^ LENGTH('a)" using assms(2) by (rule power_increasing) simp
  finally have total: "unat x * 2 ^ k + unat y < 2 ^ LENGTH('a)" .
  have "push_bit k (ucast x) OR y = push_bit k (ucast x) + y"
    by (rule disjunctive_add [symmetric]) (use y in \<open>auto simp: bit_simps\<close>)
  moreover have "unat (push_bit k (ucast x :: 'a word)) = unat x * 2 ^ k"
  proof -
    have "unat x * 2 ^ k < 2 ^ LENGTH('a)" using total by simp
    moreover have "unat x < 2 ^ LENGTH('a)" using x power_increasing [of 8 "LENGTH('a)" "2::nat"] assms(2) by simp
    ultimately show ?thesis
      unfolding unsigned_push_bit_eq unsigned_ucast_eq
      by (simp add: push_bit_eq_mult take_bit_nat_eq_self)
  qed
  ultimately show ?thesis using total by (simp add: unat_add_lem [THEN iffD1])
qed

lemma number_simps [simp]:
  "number [] = 0" "number [x] = unat x" "number [x, y] = unat x * 256 + unat y"
  "number [x, y, z] = (unat x * 256 + unat y) * 256 + unat z"
  by (simp_all add: number_def)

lemma unat_ucast_byte:
  fixes b :: u8
  assumes "8 \<le> LENGTH('a::len)"
  shows "unat (ucast b :: 'a word) = unat b"
proof -
  have "unat b < 2 ^ LENGTH(8)" by (rule unsigned_less)
  then have "unat b < 2 ^ LENGTH('a)"
    using power_increasing [of 8 "LENGTH('a)" "2::nat"] assms by simp
  then show ?thesis by (simp add: unsigned_ucast_eq take_bit_nat_eq_self)
qed

lemma join_number:
  "unat (push_bit 8 (ucast x) OR ucast y :: u16) = number [x, y]"
  "unat (push_bit 8 (ucast x) OR ucast y :: u64) = number [x, y]"
  "unat (push_bit 16 (ucast x) OR push_bit 8 (ucast y) OR ucast z :: u64) = number [x, y, z]"
  for x y z :: u8
proof -
  have b: "unat b < 256" for b :: u8 using unsigned_less [of b] by simp
  show "unat (push_bit 8 (ucast x) OR ucast y :: u16) = number [x, y]"
    by (subst unat_shifted_or) (simp_all add: unat_ucast_byte b)
  show yz: "unat (push_bit 8 (ucast x) OR ucast y :: u64) = number [x, y]" for x y :: u8
    by (subst unat_shifted_or) (simp_all add: unat_ucast_byte b)
  show "unat (push_bit 16 (ucast x) OR push_bit 8 (ucast y) OR ucast z :: u64) = number [x, y, z]"
    using b [of y] b [of z] by (subst unat_shifted_or) (simp_all add: yz)
qed

lemma byte_split:
  fixes n :: nat
  shows "n = 64 * (n div 64) + 32 * (n div 32 mod 2) + 8 * (n div 8 mod 4) + n mod 8"
proof -
  have "n = 8 * (n div 8) + n mod 8" "n div 8 = 4 * (n div 8 div 4) + n div 8 mod 4"
    "n div 32 = 2 * (n div 32 div 2) + n div 32 mod 2" by simp_all
  moreover have "n div 8 div 4 = n div 32" "n div 32 div 2 = n div 64"
    by (simp_all flip: div_mult2_eq)
  ultimately show ?thesis by linarith
qed

lemma byte_join:
  fixes t w l s :: nat
  assumes "w < 2" "l < 4" "s < 8"
  shows "(64 * t + 32 * w + 8 * l + s) mod 8 = s" "(64 * t + 32 * w + 8 * l + s) div 8 mod 4 = l"
    "(64 * t + 32 * w + 8 * l + s) div 32 mod 2 = w" "(64 * t + 32 * w + 8 * l + s) div 64 = t"
proof -
  define n where "n = 64 * t + 32 * w + 8 * l + s"
  define k where "k = l + 4 * (w + 2 * t)"
  have n: "n = s + 8 * k" by (simp add: n_def k_def)
  have "n div 8 = k" and "n mod 8 = s" unfolding n using assms(3) by simp_all
  then have 8: "n div 8 = l + 4 * (w + 2 * t)" by (simp add: k_def)
  have "n div 8 mod 4 = l" unfolding 8 using assms(2) by (simp only: mod_mult_self2 mod_less)
  have "n div 32 = n div 8 div 4" by (simp flip: div_mult2_eq)
  then have 32: "n div 32 = w + 2 * t" using 8 assms(2) by simp
  have "n div 64 = n div 32 div 2" by (simp flip: div_mult2_eq)
  then have "n div 64 = t" using 32 assms(1) by simp
  with 32 \<open>n div 8 mod 4 = l\<close> \<open>n mod 8 = s\<close> assms
  show "(64 * t + 32 * w + 8 * l + s) mod 8 = s" "(64 * t + 32 * w + 8 * l + s) div 8 mod 4 = l"
    "(64 * t + 32 * w + 8 * l + s) div 32 mod 2 = w" "(64 * t + 32 * w + 8 * l + s) div 64 = t"
    by (simp_all flip: n_def)
qed

lemma type_byte_fields:
  assumes "lsize < 4" "short < 8"
  shows "unat (type_byte type wide lsize short) div 64 = unat (tlv_type_value type)"
    "odd (unat (type_byte type wide lsize short) div 32) \<longleftrightarrow> wide"
    "unat (type_byte type wide lsize short) div 8 mod 4 = lsize"
    "unat (type_byte type wide lsize short) mod 8 = short"
  using byte_join [of "of_bool wide" lsize short "unat (tlv_type_value type)"] assms
  by (simp_all add: unat_type_byte odd_iff_mod_2_eq_one)

text \<open>What the header parser reads from a buffer with a given head.\<close>

lemma tlv_type_of_type_byte:
  assumes "lsize < 4" "short < 8"
  shows "tlv_type_of_byte (type_byte type wide lsize short) = type"
proof -
  let ?b = "drop_bit 6 (type_byte type wide lsize short) AND 0x03"
  have "unat ?b = unat (tlv_type_value type)"
    by (simp only: byte_fields type_byte_fields [OF assms])
  then have "?b = tlv_type_value type" by (simp only: word_unat_eq_iff)
  then show ?thesis by (cases type) (simp_all add: tlv_type_of_byte_def)
qed

lemma type_byte_of_fields:
  "type_byte (tlv_type_of_byte b) (b AND 0x20 \<noteq> 0) (unat (drop_bit 3 b AND 0x03)) (unat (b AND 0x07)) = b"
proof -
  have "unat b < 2 ^ LENGTH(8)" by (rule unsigned_less)
  then have b: "unat b < 256" by simp
  define t where "t = drop_bit 6 b AND 0x03"
  have "unat t < 4" using b by (simp add: t_def byte_fields)
  then have "t = 0 \<or> t = 1 \<or> t = 2 \<or> t = 3" by (auto simp: word_unat_eq_iff)
  then have "tlv_type_value (tlv_type_of_byte b) = t"
    by (auto simp: tlv_type_of_byte_def Let_def simp flip: t_def)
  then have "unat (tlv_type_value (tlv_type_of_byte b)) = unat b div 64"
    by (simp add: t_def byte_fields)
  moreover have "unat b = 64 * (unat b div 64) + 32 * of_bool (odd (unat b div 32)) +
      8 * (unat b div 8 mod 4) + unat b mod 8"
    using byte_split [of "unat b"] by (simp add: odd_iff_mod_2_eq_one of_bool_odd_eq_mod_2)
  ultimately show ?thesis
    unfolding type_byte_def byte_fields by simp
qed

lemma parse_length_after:
  assumes "drop_bit 3 b AND 0x03 = of_nat k" "k < 4"
  shows "parse_length (b # ids @ zs) (Suc (length ids)) =
    (if k \<le> length zs
     then ok (if k = 0 then unat (b AND 0x07) else number (take k zs), Suc (length ids) + k)
     else err E_DecodingError ''Truncated TLV'')"
proof -
  have n: "(b # ids @ zs) ! Suc (length ids) = zs ! 0" "(b # ids @ zs) ! (Suc (length ids) + 1) = zs ! 1"
    "(b # ids @ zs) ! (Suc (length ids) + 2) = zs ! 2" "(b # ids @ zs) ! 0 = b"
    by (simp_all add: nth_append)
  consider (0) "k = 0" | (1) "k = 1" | (2) "k = 2" | (3) "k = 3" using assms(2) by linarith
  then show ?thesis
  proof cases
    case 0
    have "drop_bit 3 b AND 0x03 = 0" using assms(1) 0 by simp
    then show ?thesis unfolding parse_length_def Let_def n(4) using 0 by simp
  next
    case 1
    have "drop_bit 3 b AND 0x03 = 1" using assms(1) 1 by simp
    then show ?thesis unfolding parse_length_def Let_def n using 1 by (cases zs) simp_all
  next
    case 2
    have "drop_bit 3 b AND 0x03 = 2" using assms(1) 2 by simp
    then show ?thesis unfolding parse_length_def Let_def n using 2 join_number(2)
      by (cases zs; cases "tl zs") simp_all
  next
    case 3
    have "drop_bit 3 b AND 0x03 = 3" using assms(1) 3 by simp
    then show ?thesis unfolding parse_length_def Let_def n using 3 join_number(3)
      by (cases zs; cases "tl zs"; cases "tl (tl zs)") simp_all
  qed
qed

lemma parse_header_of_bytes:
  assumes "tlv_header_bytes type rid len hdr" "len \<le> length rest"
  shows "parse_header (hdr @ rest) =
    ok \<lparr>hdr_type = type, hdr_id = rid, hdr_pos = length hdr, hdr_length = len\<rparr>"
proof -
  obtain wide lsize short ids lens where h: "lsize < 4" "short < 8"
      "length ids = (if wide then 2 else 1)" "length lens = lsize"
      "hdr = type_byte type wide lsize short # ids @ lens" "unat rid = number ids"
      "len = (if lsize = 0 then short else number lens)"
    using assms(1) unfolding tlv_header_bytes_def by blast
  define b where "b = type_byte type wide lsize short"
  have w: "b AND 0x20 \<noteq> 0 \<longleftrightarrow> wide"
    by (simp only: b_def byte_fields type_byte_fields [OF h(1,2)])
  have "unat (drop_bit 3 b AND 0x03) = lsize"
    by (simp only: b_def byte_fields type_byte_fields [OF h(1,2)])
  moreover have "of_nat (unat (drop_bit 3 b AND 0x03)) = drop_bit 3 b AND 0x03" by simp
  ultimately have l: "drop_bit 3 b AND 0x03 = of_nat lsize" by simp
  have s: "unat (b AND 0x07) = short"
    by (simp only: b_def byte_fields type_byte_fields [OF h(1,2)])
  let ?d = "hdr @ rest"
  have d: "?d = b # ids @ lens @ rest" by (simp add: h(5) b_def)
  have id: "parse_id ?d = ok (rid, Suc (length ids))"
  proof (cases wide)
    case True
    then obtain x y where ids: "ids = [x, y]" using h(3) by (auto simp: length_Suc_conv numeral_2_eq_2)
    have "push_bit 8 (ucast x) OR ucast y = rid"
      using h(6) join_number(1) [of x y] by (simp only: ids word_unat_eq_iff)
    then show ?thesis using w True by (simp add: d ids parse_id_def Let_def)
  next
    case False
    then obtain x where ids: "ids = [x]" using h(3) by (auto simp: length_Suc_conv)
    have "ucast x = rid" using h(6) by (simp add: ids word_unat_eq_iff unat_ucast_byte)
    then show ?thesis using w False by (simp add: d ids parse_id_def Let_def)
  qed
  have len: "parse_length ?d (Suc (length ids)) = ok (len, Suc (length ids + lsize))"
    using parse_length_after [OF l h(1), of ids "lens @ rest"] h(4,7) s by (simp add: d)
  have "?d ! 0 = b" "length hdr = Suc (length ids + lsize)" using h(4) by (simp_all add: h(5) b_def)
  moreover have "tlv_type_of_byte b = type" unfolding b_def by (rule tlv_type_of_type_byte [OF h(1,2)])
  ultimately show ?thesis using assms(2) by (simp add: parse_header_def id len)
qed

text \<open>Conversely, a header the parser accepts is one of the grammar.\<close>

lemma bytes_of_parse_header:
  assumes "parse_header d = ok h"
  shows "tlv_header_bytes (hdr_type h) (hdr_id h) (hdr_length h) (take (hdr_pos h) d) \<and>
    hdr_pos h + hdr_length h \<le> length d"
proof -
  obtain rid p pos len where id: "parse_id d = ok (rid, p)" and l1: "parse_length d p = ok (len, pos)"
    and h: "h = \<lparr>hdr_type = tlv_type_of_byte (d ! 0), hdr_id = rid, hdr_pos = pos, hdr_length = len\<rparr>"
    and fits: "d \<noteq> []" "pos + len \<le> length d"
    using assms by (auto simp: parse_header_def split: if_splits sum.splits)
  obtain b xs where d: "d = b # xs" using fits(1) by (cases d) auto
  define wide where "wide \<longleftrightarrow> b AND 0x20 \<noteq> 0"
  define lsize where "lsize = unat (drop_bit 3 b AND 0x03)"
  define ids where "ids = take (p - 1) xs"
  have ids: "length ids = (if wide then 2 else 1)" "unat rid = number ids" "p = Suc (length ids)"
    "length ids \<le> length xs"
  proof -
    consider (w) x y zs where wide "xs = x # y # zs" "rid = push_bit 8 (ucast x) OR ucast y" "p = 3"
      | (n) x zs where "\<not> wide" "xs = x # zs" "rid = ucast x" "p = 2"
      using id unfolding d wide_def
      by (cases xs; cases "tl xs") (auto simp: parse_id_def Let_def split: if_splits)
    then have "length ids = (if wide then 2 else 1) \<and> unat rid = number ids \<and> p = Suc (length ids) \<and>
      length ids \<le> length xs"
      by cases (simp_all add: ids_def join_number(1) [simplified] unat_ucast_byte)
    then show "length ids = (if wide then 2 else 1)" "unat rid = number ids" "p = Suc (length ids)"
      "length ids \<le> length xs" by auto
  qed
  define zs where "zs = drop (length ids) xs"
  define lens where "lens = take lsize zs"
  have xs: "xs = ids @ zs" by (metis append_take_drop_id diff_Suc_1 ids(3) ids_def zs_def)
  have "unat b < 2 ^ LENGTH(8)" by (rule unsigned_less)
  then have "lsize < 4" "unat (b AND 0x07) < 8" by (simp_all add: lsize_def byte_fields)
  have l: "drop_bit 3 b AND 0x03 = of_nat lsize" by (simp add: lsize_def)
  have lens: "length lens = lsize \<and> pos = p + lsize \<and> lsize \<le> length zs \<and>
    len = (if lsize = 0 then unat (b AND 0x07) else number lens)"
    using parse_length_after [OF l \<open>lsize < 4\<close>, of ids zs] l1
    by (auto simp: d xs ids(3) lens_def split: if_splits)
  then have "take pos d = b # ids @ lens" by (simp add: d xs ids(3) lens_def)
  moreover have "b = type_byte (hdr_type h) wide lsize (unat (b AND 0x07))"
    using type_byte_of_fields [of b] by (simp add: h d wide_def lsize_def)
  ultimately have "tlv_header_bytes (hdr_type h) (hdr_id h) (hdr_length h) (take pos d)"
    unfolding tlv_header_bytes_def
    by (intro exI [of _ wide] exI [of _ lsize] exI [of _ "unat (b AND 0x07)"] exI [of _ ids]
        exI [of _ lens] conjI)
      (use lens ids(1,2) \<open>lsize < 4\<close> \<open>unat (b AND 0x07) < 8\<close> in \<open>simp_all only: h tlv_header.simps\<close>)
  then show ?thesis using fits(2) by (simp add: h)
qed

section \<open>The decoder\<close>

definition children_ok :: "nat \<Rightarrow> tlv_type \<Rightarrow> bytes \<Rightarrow> tlv_record list \<Rightarrow> bool" where
  "children_ok n type v cs \<longleftrightarrow>
     (case n of 0 \<Rightarrow> cs = []
      | Suc m \<Rightarrow> if nests type \<and> (\<exists>cs'. denotes m v cs') then denotes m v cs else cs = [])"

lemma denotes_Cons:
  assumes "parse_header d = ok h"
  shows "denotes n d (TlvRecord type rid v cs # rs) \<longleftrightarrow>
    type = hdr_type h \<and> rid = hdr_id h \<and> v = header_value d h \<and>
    children_ok n type v cs \<and> denotes n (drop (header_consumed h) d) rs"
proof
  assume "denotes n d (TlvRecord type rid v cs # rs)"
  then obtain hdr rest where r: "tlv_header_bytes type rid (length v) hdr" "d = hdr @ v @ rest"
      "children_ok n type v cs" "denotes n rest rs"
    by (subst (asm) denotes.simps) (auto simp: children_ok_def)
  from parse_header_of_bytes [OF r(1), of "v @ rest"] assms r(2)
  have "h = \<lparr>hdr_type = type, hdr_id = rid, hdr_pos = length hdr, hdr_length = length v\<rparr>" by simp
  with r show "type = hdr_type h \<and> rid = hdr_id h \<and> v = header_value d h \<and>
    children_ok n type v cs \<and> denotes n (drop (header_consumed h) d) rs"
    by (simp add: header_value_def header_consumed_def)
next
  assume r: "type = hdr_type h \<and> rid = hdr_id h \<and> v = header_value d h \<and>
    children_ok n type v cs \<and> denotes n (drop (header_consumed h) d) rs"
  note hdr = bytes_of_parse_header [OF assms]
  have "hdr_length h \<le> length d - hdr_pos h" using hdr by arith
  then have "length v = hdr_length h" using r by (simp add: header_value_def)
  moreover have "drop (hdr_pos h) d = v @ drop (header_consumed h) d"
    using r append_take_drop_id [of "hdr_length h" "drop (hdr_pos h) d"]
    by (simp add: header_value_def header_consumed_def add.commute)
  then have "d = take (hdr_pos h) d @ v @ drop (header_consumed h) d"
    using append_take_drop_id [of "hdr_pos h" d] by simp
  ultimately show "denotes n d (TlvRecord type rid v cs # rs)"
    unfolding denotes.simps(2) children_ok_def [symmetric]
    by (intro exI [of _ "take (hdr_pos h) d"] exI [of _ "drop (header_consumed h) d"]) (use r hdr in auto)
qed

lemma denotes_header:
  assumes "denotes n d rs" "d \<noteq> []"
  shows "\<exists>h r rs'. parse_header d = ok h \<and> rs = r # rs'"
proof (cases rs)
  case (Cons r rs')
  obtain type rid v cs where r: "r = TlvRecord type rid v cs" by (cases r)
  from assms(1) obtain hdr rest where "tlv_header_bytes type rid (length v) hdr" "d = hdr @ v @ rest"
    unfolding Cons r denotes.simps(2) by blast
  with parse_header_of_bytes [of type rid "length v" hdr "v @ rest"] Cons show ?thesis by auto
qed (use assms in simp)

lemma children_ok_nested:
  assumes "\<And>ns. decode_impl v (depth + 1) = ok ns \<longleftrightarrow> depth + 1 \<le> 8 \<and> denotes (8 - (depth + 1)) v ns"
    "depth \<le> 8"
  shows "children_ok (8 - depth) type v cs \<longleftrightarrow> cs = nested_records type v depth"
proof (cases "nests type \<and> depth < 8")
  case True
  then have n: "8 - depth = Suc (8 - (depth + 1))" by arith
  show ?thesis
  proof (cases "decode_impl v (depth + 1)")
    case (Inl e)
    then have "\<not> (\<exists>cs'. denotes (8 - (depth + 1)) v cs')" using assms(1) True by auto
    with True Inl n show ?thesis by (auto simp: children_ok_def nested_records_def)
  next
    case (Inr ns)
    have "denotes (8 - (depth + 1)) v cs' \<longleftrightarrow> cs' = ns" for cs'
      using assms(1) [of cs'] True Inr by auto
    with True Inr n show ?thesis by (simp add: children_ok_def nested_records_def)
  qed
next
  case False
  then have "nested_records type v depth = []"
  proof (cases "nests type")
    case True
    with False assms(2) have "depth = 8" by simp
    then have "decode_impl v (depth + 1) = err E_DecodingError ''TLV nesting too deep''"
      by (subst decode_impl.simps) (simp add: kMaxTlvDepth_def)
    then show ?thesis by (simp add: nested_records_def)
  qed (simp add: nested_records_def)
  with False assms(2) show ?thesis
    by (auto simp: children_ok_def split: nat.split)
qed

lemma decode_denotes:
  "decode_impl d depth = ok rs \<longleftrightarrow> depth \<le> 8 \<and> denotes (8 - depth) d rs"
  "depth' \<le> 8 \<Longrightarrow> decode_loop d' depth' acc = ok rs' \<longleftrightarrow> (\<exists>new. rs' = acc @ new \<and> denotes (8 - depth') d' new)"
proof (induction d depth and d' depth' acc arbitrary: rs and rs' rule: decode_impl_decode_loop.induct)
  case (1 d depth)
  then show ?case
    by (cases "depth > 8") (auto simp: decode_impl.simps [of d depth] kMaxTlvDepth_def)
next
  case (2 d depth acc)
  show ?case
  proof (cases "d = []")
    case True
    have "denotes n [] new \<longleftrightarrow> new = []" for n new
      using denotes_header [of n "[]" new] by (cases new; cases "hd new")
        (auto simp: denotes.simps(2) tlv_header_bytes_def)
    with True show ?thesis by auto
  next
    case nonempty: False
    show ?thesis
    proof (cases "parse_header d")
      case (Inl e)
      then show ?thesis using nonempty denotes_header [of "8 - depth" d]
        by (subst decode_loop.simps) auto
    next
      case (Inr h)
      define v where "v = header_value d h"
      define r where "r = TlvRecord (hdr_type h) (hdr_id h) v (nested_records (hdr_type h) v depth)"
      have cs: "children_ok (8 - depth) (hdr_type h) v cs \<longleftrightarrow> cs = nested_records (hdr_type h) v depth" for cs
      proof (cases "nests (hdr_type h)")
        case True
        have "decode_impl v (depth + 1) = ok ns \<longleftrightarrow> depth + 1 \<le> 8 \<and> denotes (8 - (depth + 1)) v ns" for ns
          unfolding v_def by (rule 2(1) [OF nonempty Inr True])
        then show ?thesis using 2(3) by (rule children_ok_nested)
      next
        case False
        then show ?thesis by (auto simp: children_ok_def nested_records_def split: nat.split)
      qed
      have "decode_loop d depth acc = decode_loop (drop (header_consumed h) d) depth (acc @ [r])"
        using nonempty Inr by (subst decode_loop_eq) (simp add: parse_record_def r_def v_def)
      also have "\<dots> = ok rs' \<longleftrightarrow> (\<exists>new. rs' = (acc @ [r]) @ new \<and>
          denotes (8 - depth) (drop (header_consumed h) d) new)"
        unfolding r_def nested_records_def v_def by (rule 2(2) [OF nonempty Inr refl 2(3)])
      also have "\<dots> \<longleftrightarrow> (\<exists>new. rs' = acc @ new \<and> denotes (8 - depth) d new)" (is "?L \<longleftrightarrow> ?R")
      proof
        assume ?L
        then obtain new where "rs' = acc @ r # new" "denotes (8 - depth) (drop (header_consumed h) d) new"
          by auto
        then have "rs' = acc @ r # new \<and> denotes (8 - depth) d (r # new)"
          unfolding r_def denotes_Cons [OF Inr] by (simp add: cs v_def [symmetric])
        then show ?R by blast
      next
        assume ?R
        then obtain new where new: "rs' = acc @ new" "denotes (8 - depth) d new" by blast
        then obtain r' rs where "new = r' # rs" using denotes_header nonempty by blast
        moreover obtain type rid w cs' where "r' = TlvRecord type rid w cs'" by (cases r')
        ultimately have "new = r # rs \<and> denotes (8 - depth) (drop (header_consumed h) d) rs"
          using new(2) by (auto simp: denotes_Cons [OF Inr] cs r_def simp flip: v_def)
        with new(1) show ?L by auto
      qed
      finally show ?thesis .
    qed
  qed
qed

text \<open>C28: the decoder accepts exactly the buffers of the grammar and returns the records they denote,
  with eight levels of nesting below the outermost records.\<close>

theorem decode_meets_grammar: "decode d = ok rs \<longleftrightarrow> denotes 8 d rs"
  unfolding decode_def decode_denotes(1) by simp

end
