(* ===== verification/Float_Arith.thy ===== *)
theory Float_Arith
  imports Floats
begin

text \<open>
  The rest of the double arithmetic the downloader uses: sums, differences and quotients on bit
  patterns, each the exact result rounded once, ties to even.
\<close>

text \<open>The comparison of doubles that is false on a NaN.\<close>

definition double_lt :: "u64 \<Rightarrow> u64 \<Rightarrow> bool" where
  "double_lt a b \<longleftrightarrow> \<not> double_is_nan a \<and> \<not> double_is_nan b \<and> double_key a < double_key b"

definition double_of_u64 :: "u64 \<Rightarrow> u64" where
  "double_of_u64 w = round_double False (unat w) 0"

definition double_nan :: u64 where "double_nan = 0xFFF8000000000000"

definition double_inf :: "bool \<Rightarrow> u64" where
  "double_inf s = (if s then 0xFFF0000000000000 else 0x7FF0000000000000)"

definition signed_mantissa :: "u64 \<Rightarrow> int" where
  "signed_mantissa b = (if bit b 63 then - int (double_mantissa b) else int (double_mantissa b))"

text \<open>
  The sum of two finite doubles over their smaller exponent; a zero sum is negative only when both
  operands are.
\<close>

definition double_add :: "u64 \<Rightarrow> u64 \<Rightarrow> u64" where
  "double_add a b =
     (if double_is_nan a \<or> double_is_nan b \<or>
         (double_is_inf a \<and> double_is_inf b \<and> bit a 63 \<noteq> bit b 63) then double_nan
      else if double_is_inf a then a
      else if double_is_inf b then b
      else
        let e = min (double_exponent a) (double_exponent b);
            n = signed_mantissa a * 2 ^ nat (double_exponent a - e) +
                signed_mantissa b * 2 ^ nat (double_exponent b - e)
        in round_double (if n = 0 then bit a 63 \<and> bit b 63 else n < 0) (nat \<bar>n\<bar>) e)"

definition double_sub :: "u64 \<Rightarrow> u64 \<Rightarrow> u64" where
  "double_sub a b = double_add a (b XOR push_bit 63 1)"

text \<open>
  The quotient of two finite doubles: 108 extra bits make the integer quotient longer than a
  mantissa by at least three bits, and a last bit records whether anything was cut off.
\<close>

definition double_div :: "u64 \<Rightarrow> u64 \<Rightarrow> u64" where
  "double_div a b =
     (let s = (bit a 63 \<noteq> bit b 63); ma = double_mantissa a; mb = double_mantissa b
      in if double_is_nan a \<or> double_is_nan b \<or> (double_is_inf a \<and> double_is_inf b) \<or>
            (ma = 0 \<and> mb = 0) then double_nan
         else if double_is_inf a \<or> mb = 0 then double_inf s
         else if double_is_inf b then round_double s 0 0
         else
           let n = ma * 2 ^ 108
           in round_double s (2 * (n div mb) + (if n mod mb = 0 then 0 else 1))
                (double_exponent a - double_exponent b - 109))"

section \<open>Rounding only once\<close>

text \<open>The last bit stands for what was cut off: rounding after it is rounding the fraction.\<close>

lemma sticky_half:
  fixes n m q :: nat
  assumes "0 < m" "q = n div m" "0 < k"
  shows "(2 * q + (if n mod m = 0 then 0 else 1)) div 2 ^ Suc k = n div (m * 2 ^ k)"
    "2 * ((2 * q + (if n mod m = 0 then 0 else 1)) mod 2 ^ Suc k) < 2 ^ Suc k \<longleftrightarrow>
       2 * (n mod (m * 2 ^ k)) < m * 2 ^ k"
    "2 * ((2 * q + (if n mod m = 0 then 0 else 1)) mod 2 ^ Suc k) > 2 ^ Suc k \<longleftrightarrow>
       2 * (n mod (m * 2 ^ k)) > m * 2 ^ k"
proof -
  define s where "s = (if n mod m = 0 then 0 else 1 :: nat)"
  define r where "r = n mod m"
  have s: "s < 2" "s = 0 \<longleftrightarrow> r = 0" by (simp_all add: s_def r_def)
  have r: "r < m" using assms(1) by (simp add: r_def)
  have n: "n = m * q + r" by (simp add: assms(2) r_def)
  have e: "n div (m * 2 ^ k) = q div 2 ^ k" by (simp add: assms(2) div_mult2_eq)
  have em: "n mod (m * 2 ^ k) = m * (q mod 2 ^ k) + r" by (simp add: assms(2) r_def mod_mult2_eq)
  have "(2 * q + s) div 2 = q" using s(1) by simp
  then have d: "(2 * q + s) div 2 ^ Suc k = q div 2 ^ k" by (simp add: div_mult2_eq)
  then show "(2 * q + (if n mod m = 0 then 0 else 1)) div 2 ^ Suc k = n div (m * 2 ^ k)"
    by (simp add: e flip: s_def)
  have dm: "(2 * q + s) mod 2 ^ Suc k = 2 * (q mod 2 ^ k) + s"
  proof -
    have "(2 * q + s) mod 2 ^ Suc k = 2 * ((2 * q + s) div 2 mod 2 ^ k) + (2 * q + s) mod 2"
      by (simp only: power_Suc mod_mult2_eq)
    then show ?thesis using s(1) by simp
  qed
  obtain h where h: "(2 :: nat) ^ k = 2 * h" using assms(3) by (cases k) auto
  define x where "x = q mod 2 ^ k"
  have "2 * (2 * x + s) < 2 * 2 ^ k \<longleftrightarrow> x < h" using s(1) h by auto
  moreover have "2 * (m * x + r) < m * 2 ^ k \<longleftrightarrow> x < h"
  proof
    assume "x < h"
    then have "Suc x \<le> h" by simp
    then have "m * Suc x \<le> m * h" by (rule mult_le_mono2)
    then show "2 * (m * x + r) < m * 2 ^ k" using r h by simp
  next
    assume l: "2 * (m * x + r) < m * 2 ^ k"
    show "x < h"
    proof (rule ccontr)
      assume "\<not> x < h"
      then have "m * h \<le> m * x" by simp
      with l h show False by simp
    qed
  qed
  ultimately show "2 * ((2 * q + (if n mod m = 0 then 0 else 1)) mod 2 ^ Suc k) < 2 ^ Suc k \<longleftrightarrow>
      2 * (n mod (m * 2 ^ k)) < m * 2 ^ k"
    using dm em by (simp flip: s_def x_def)
  have "2 * (2 * x + s) > 2 * 2 ^ k \<longleftrightarrow> x > h \<or> x = h \<and> s \<noteq> 0" using s(1) h by auto
  moreover have "2 * (m * x + r) > m * 2 ^ k \<longleftrightarrow> x > h \<or> x = h \<and> r \<noteq> 0"
  proof (cases x h rule: linorder_cases)
    case less
    then have "m * Suc x \<le> m * h" by (intro mult_le_mono2) simp
    then have "2 * (m * x + r) < m * 2 ^ k" using r h by simp
    with less show ?thesis by simp
  next
    case equal
    then show ?thesis using h by auto
  next
    case greater
    then have "m * Suc h \<le> m * x" by (intro mult_le_mono2) simp
    with greater h assms(1) show ?thesis by simp
  qed
  ultimately show "2 * ((2 * q + (if n mod m = 0 then 0 else 1)) mod 2 ^ Suc k) > 2 ^ Suc k \<longleftrightarrow>
      2 * (n mod (m * 2 ^ k)) > m * 2 ^ k"
    using dm em s(2) by (simp flip: s_def x_def)
qed

definition round_ratio :: "nat \<Rightarrow> nat \<Rightarrow> nat" where
  "round_ratio n d =
     (let q = n div d; r = n mod d
      in if 2 * r < d then q else if 2 * r > d then q + 1 else if even q then q else q + 1)"

lemma round_sticky:
  assumes "0 < m" "0 < k"
  shows "round_half_even (2 * (n div m) + (if n mod m = 0 then 0 else 1)) (Suc k) =
    round_ratio n (m * 2 ^ k)"
  using sticky_half [OF assms(1) refl assms(2), of n]
  unfolding round_half_even_def round_ratio_def Let_def by presburger

end
