(* ===== verification/Http_Downloader.thy ===== *)
theory Http_Downloader
  imports Float_Arith Results Paths
begin

text \<open>
  \<open>HttpDownloader\<close> (\<open>transport/http_downloader.hpp/.cpp\<close>), the wrapper over libcurl:
  its progress report, the callbacks that libcurl makes, and the download thread next to the
  threads of the application as one step relation. Every access to an atomic member is a step of
  its own. What libcurl and the file system answer is the choice of the step; a file is its
  content in the map from paths.
\<close>

section \<open>Progress\<close>

text \<open>Integer division as C++ has it, towards zero.\<close>

definition trunc_div :: "int \<Rightarrow> int \<Rightarrow> int" where
  "trunc_div x n = sgn x * (\<bar>x\<bar> div n)"

record download_progress =
  pr_bytes_downloaded :: u64
  pr_total_bytes :: u64
  pr_speed_mbps :: u64
  pr_start_time :: i64

definition default_progress :: download_progress where
  "default_progress = \<lparr>pr_bytes_downloaded = 0, pr_total_bytes = 0, pr_speed_mbps = 0,
     pr_start_time = 0\<rparr>"

definition percent :: "download_progress \<Rightarrow> u8" where
  "percent p =
     (if pr_total_bytes p = 0 then 0
      else ucast (pr_bytes_downloaded p * 100 div pr_total_bytes p))"

text \<open>The bit patterns of 1024 and of 1024 * 1024.\<close>

definition eta :: "download_progress \<Rightarrow> i64" where
  "eta p =
     (if double_le (pr_speed_mbps p) 0 \<or> pr_bytes_downloaded p \<ge> pr_total_bytes p then 0
      else
        let remaining = double_of_u64 (pr_total_bytes p - pr_bytes_downloaded p);
            bytes_per_sec = double_mul (double_mul (pr_speed_mbps p) 0x4090000000000000) 0x4090000000000000
        in double_to_i64 (double_div remaining bytes_per_sec))"

definition elapsed_ms :: "i64 \<Rightarrow> download_progress \<Rightarrow> i64" where
  "elapsed_ms now p = word_of_int (trunc_div (sint (now - pr_start_time p)) 1000000)"

section \<open>State\<close>

record download_context =
  ctx_file :: bool
  ctx_last_progress_time :: i64
  ctx_last_bytes :: u64
  ctx_last_speed :: u64

text \<open>
  The rest of the thread's function once the transfer is over, or could not start: the accesses to
  shared state that are left, in order.
\<close>

datatype tail_action =
    Store_Not_Downloading
  | Remove_File
  | Complete bool string
  | Decide "32 word" i64 i64

datatype thread_pc = At_Open | At_Init | At_Transfer bool | At_Tail "tail_action list"

record download_thread =
  th_url :: string
  th_dest :: string
  th_on_progress :: bool
  th_on_complete :: bool
  th_context :: download_context
  th_pc :: thread_pc

text \<open>What the application sees: reports of progress, and completions with the file as it is then.\<close>

datatype download_event =
    Progressed download_progress
  | Completed string bool string "bytes option"

text \<open>\<open>start_download\<close> between its first and its last access to shared state.\<close>

record starting =
  st_url :: string
  st_dest :: string
  st_on_progress :: bool
  st_on_complete :: bool

record http_downloader =
  hd_cancelled :: bool
  hd_downloading :: bool
  hd_thread :: "download_thread option"
  hd_progress :: download_progress
  hd_starting :: "starting option"
  hd_files :: "(string, bytes) umap"
  hd_log :: "download_event list"

definition downloader_init :: "(string, bytes) umap \<Rightarrow> http_downloader" where
  "downloader_init files = \<lparr>hd_cancelled = False, hd_downloading = False, hd_thread = None,
     hd_progress = default_progress, hd_starting = None, hd_files = files, hd_log = []\<rparr>"

section \<open>Callbacks of libcurl\<close>

text \<open>
  \<open>good\<close> is the state of the stream after the write; a failed write may have left the first
  \<open>written\<close> bytes. The result is the count for curl.
\<close>

definition write_callback ::
  "bool \<Rightarrow> nat \<Rightarrow> bytes \<Rightarrow> download_thread \<Rightarrow> http_downloader \<Rightarrow> nat \<times> http_downloader" where
  "write_callback good written contents th d =
     (let content = (case umap_find (hd_files d) (th_dest th) of None \<Rightarrow> [] | Some b \<Rightarrow> b);
          d1 = d\<lparr>hd_files := umap_set (hd_files d) (th_dest th)
                 (content @ (if good then contents else take written contents))\<rparr>
      in (if \<not> good then 0 else length contents, d1))"

text \<open>The speed over the time since the last update, smoothed; 0.7 and 0.3 are bit patterns.\<close>

definition measured_speed :: "i64 \<Rightarrow> i64 \<Rightarrow> download_context \<Rightarrow> u64" where
  "measured_speed elapsed dlnow ctx =
     (let bytes_delta = double_sub (double_of_i64 dlnow) (double_of_u64 (ctx_last_bytes ctx));
          seconds = double_div (double_of_i64 elapsed) 0x408F400000000000;
          bytes_per_sec = double_div bytes_delta seconds;
          speed = double_div bytes_per_sec 0x4130000000000000
      in if double_lt 0 (ctx_last_speed ctx)
         then double_add (double_mul 0x3FE6666666666666 speed)
                (double_mul 0x3FD3333333333333 (ctx_last_speed ctx))
         else speed)"

definition progress_callback ::
  "i64 \<Rightarrow> i64 \<Rightarrow> i64 \<Rightarrow> download_thread \<Rightarrow> http_downloader \<Rightarrow> int \<times> download_thread \<times> http_downloader" where
  "progress_callback now dltotal dlnow th d =
     (if hd_cancelled d then (1, th, d)
      else
        let ctx = th_context th;
            elapsed = word_of_int (trunc_div (sint (now - ctx_last_progress_time ctx)) 1000000) :: i64;
            update = sint elapsed \<ge> 250 \<and> sint dlnow > sint (ctx_last_bytes ctx);
            speed = (if update then measured_speed elapsed dlnow ctx else ctx_last_speed ctx);
            ctx1 = (if update then ctx\<lparr>ctx_last_speed := speed, ctx_last_bytes := dlnow,
                      ctx_last_progress_time := now\<rparr> else ctx);
            progress = \<lparr>pr_bytes_downloaded = dlnow, pr_total_bytes = dltotal, pr_speed_mbps = speed,
                        pr_start_time = pr_start_time (hd_progress d)\<rparr>;
            d1 = d\<lparr>hd_progress := progress\<rparr>;
            d2 = (if th_on_progress th \<and> sint dltotal > 0
                  then d1\<lparr>hd_log := hd_log d1 @ [Progressed progress]\<rparr> else d1)
        in (0, th\<lparr>th_context := ctx1\<rparr>, d2))"

section \<open>Operations of the application\<close>

text \<open>\<open>start_download\<close> up to \<open>cleanup_thread\<close>; \<open>None\<close>: it goes on.\<close>

definition start_download_begin ::
  "string \<Rightarrow> string \<Rightarrow> bool \<Rightarrow> bool \<Rightarrow> http_downloader \<Rightarrow> unit result option \<times> http_downloader" where
  "start_download_begin url dest on_progress on_complete d =
     (let was = hd_downloading d; d1 = d\<lparr>hd_downloading := True\<rparr>
      in if was then (Some (err E_InvalidState ''Download already in progress''), d1)
         else if url = [] then
           (Some (err E_BadRequest ''URL cannot be empty''), d1\<lparr>hd_downloading := False\<rparr>)
         else (None, d1\<lparr>hd_starting := Some \<lparr>st_url = url, st_dest = dest,
                 st_on_progress = on_progress, st_on_complete = on_complete\<rparr>\<rparr>))"

text \<open>The rest, once the previous thread has ended and is joined; two readings of the clock.\<close>

definition start_download_finish ::
  "i64 \<Rightarrow> i64 \<Rightarrow> starting \<Rightarrow> http_downloader \<Rightarrow> unit result \<times> http_downloader" where
  "start_download_finish now1 now2 st d =
     (ok (), d\<lparr>hd_cancelled := False,
        hd_progress := default_progress\<lparr>pr_start_time := now1\<rparr>,
        hd_starting := None,
        hd_thread := Some \<lparr>th_url = st_url st, th_dest = st_dest st,
          th_on_progress = st_on_progress st, th_on_complete = st_on_complete st,
          th_context = \<lparr>ctx_file = False, ctx_last_progress_time = now2, ctx_last_bytes = 0,
            ctx_last_speed = 0\<rparr>,
          th_pc = At_Open\<rparr>\<rparr>)"

definition cancel :: "http_downloader \<Rightarrow> http_downloader" where
  "cancel d = d\<lparr>hd_cancelled := True\<rparr>"

definition progress :: "http_downloader \<Rightarrow> download_progress" where
  "progress d = hd_progress d"

definition is_downloading :: "http_downloader \<Rightarrow> bool" where
  "is_downloading d = hd_downloading d"

text \<open>
  The polling loop over what it reads: the flag, and while it is set the elapsed nanoseconds;
  \<open>None\<close>: the readings end first. The timeout in nanoseconds wraps where C++ leaves the
  overflow undefined.
\<close>

fun wait_for_completion :: "i64 \<Rightarrow> (bool \<times> i64) list \<Rightarrow> bool option" where
  "wait_for_completion timeout [] = None"
| "wait_for_completion timeout ((downloading, elapsed) # readings) =
     (if \<not> downloading then Some True
      else if sint elapsed \<ge> sint (timeout * 1000000) then Some False
      else wait_for_completion timeout readings)"

section \<open>The download thread\<close>

definition thread_ended :: "http_downloader \<Rightarrow> bool" where
  "thread_ended d = (case hd_thread d of None \<Rightarrow> True | Some th \<Rightarrow> th_pc th = At_Tail [])"

definition thread_open :: "bool \<Rightarrow> download_thread \<Rightarrow> http_downloader \<Rightarrow> download_thread \<times> http_downloader" where
  "thread_open opened th d =
     (if \<not> opened then
        (th\<lparr>th_pc := At_Tail [Store_Not_Downloading,
           Complete False (''Failed to open output file: '' @ th_dest th)]\<rparr>, d)
      else (th\<lparr>th_context := (th_context th)\<lparr>ctx_file := True\<rparr>, th_pc := At_Init\<rparr>,
            d\<lparr>hd_files := umap_set (hd_files d) (th_dest th) []\<rparr>))"

definition thread_init :: "bool \<Rightarrow> download_thread \<Rightarrow> download_thread" where
  "thread_init curl th =
     (if \<not> curl then
        th\<lparr>th_context := (th_context th)\<lparr>ctx_file := False\<rparr>,
           th_pc := At_Tail [Remove_File, Store_Not_Downloading,
             Complete False ''Failed to initialize curl'']\<rparr>
      else th\<lparr>th_pc := At_Transfer False\<rparr>)"

text \<open>
  The options that the thread sets before the transfer, in the order of the calls. The two masks of
  protocols are the lists of their bits.
\<close>

datatype curl_protocol = CURLPROTO_HTTP | CURLPROTO_HTTPS

datatype curl_option =
    CURLOPT_URL string
  | CURLOPT_WRITEFUNCTION | CURLOPT_WRITEDATA
  | CURLOPT_XFERINFOFUNCTION | CURLOPT_XFERINFODATA
  | CURLOPT_NOPROGRESS int
  | CURLOPT_FOLLOWLOCATION int
  | CURLOPT_MAXREDIRS int
  | CURLOPT_PROTOCOLS "curl_protocol list"
  | CURLOPT_REDIR_PROTOCOLS "curl_protocol list"
  | CURLOPT_SSL_VERIFYPEER int
  | CURLOPT_SSL_VERIFYHOST int
  | CURLOPT_CONNECTTIMEOUT int
  | CURLOPT_TIMEOUT int
  | CURLOPT_LOW_SPEED_LIMIT int
  | CURLOPT_LOW_SPEED_TIME int
  | CURLOPT_USERAGENT string

definition curl_options :: "string \<Rightarrow> curl_option list" where
  "curl_options url =
     [CURLOPT_URL url,
      CURLOPT_WRITEFUNCTION, CURLOPT_WRITEDATA,
      CURLOPT_XFERINFOFUNCTION, CURLOPT_XFERINFODATA, CURLOPT_NOPROGRESS 0,
      CURLOPT_FOLLOWLOCATION 1, CURLOPT_MAXREDIRS 10,
      CURLOPT_PROTOCOLS [CURLPROTO_HTTP, CURLPROTO_HTTPS],
      CURLOPT_REDIR_PROTOCOLS [CURLPROTO_HTTP, CURLPROTO_HTTPS],
      CURLOPT_SSL_VERIFYPEER 1, CURLOPT_SSL_VERIFYHOST 2,
      CURLOPT_CONNECTTIMEOUT 30, CURLOPT_TIMEOUT 3600,
      CURLOPT_LOW_SPEED_LIMIT 1024, CURLOPT_LOW_SPEED_TIME 60,
      CURLOPT_USERAGENT ''ferriot-client/0.1'']"

text \<open>
  The URL comes from the server and nothing else of the transfer does: two downloads differ in that
  option alone. No later call undoes an earlier one, so the protocols of the transfer and of its
  redirects stay within HTTP and HTTPS, and the certificate is verified.
\<close>

lemma url_chooses_only_itself: "tl (curl_options url) = tl (curl_options url')"
  by (simp add: curl_options_def)

lemma curl_transfer_confined:
  "CURLOPT_PROTOCOLS ps \<in> set (curl_options url) \<longleftrightarrow> ps = [CURLPROTO_HTTP, CURLPROTO_HTTPS]"
  "CURLOPT_REDIR_PROTOCOLS ps \<in> set (curl_options url) \<longleftrightarrow> ps = [CURLPROTO_HTTP, CURLPROTO_HTTPS]"
  "CURLOPT_SSL_VERIFYPEER n \<in> set (curl_options url) \<longleftrightarrow> n = 1"
  "CURLOPT_SSL_VERIFYHOST n \<in> set (curl_options url) \<longleftrightarrow> n = 2"
  "CURLOPT_MAXREDIRS n \<in> set (curl_options url) \<longleftrightarrow> n = 10"
  by (simp_all add: curl_options_def)

text \<open>
  \<open>curl_easy_perform\<close> returns \<open>res\<close> (CURLE_OK is zero) and the file is closed. Bytes that
  are still in the buffer of the stream are lost when the close fails, which the code does not look
  at: \<open>kept\<close> bytes are in the file afterwards.
\<close>

definition thread_performed ::
  "32 word \<Rightarrow> i64 \<Rightarrow> i64 \<Rightarrow> nat \<Rightarrow> download_thread \<Rightarrow> http_downloader \<Rightarrow> download_thread \<times> http_downloader" where
  "thread_performed res http_code downloaded kept th d =
     (th\<lparr>th_context := (th_context th)\<lparr>ctx_file := False\<rparr>,
         th_pc := At_Tail [Store_Not_Downloading, Decide res http_code downloaded]\<rparr>,
      case umap_find (hd_files d) (th_dest th) of
        None \<Rightarrow> d
      | Some content \<Rightarrow> d\<lparr>hd_files := umap_set (hd_files d) (th_dest th) (take kept content)\<rparr>)"

text \<open>\<open>std::to_string\<close> of a signed number.\<close>

definition show_i64 :: "i64 \<Rightarrow> string" where
  "show_i64 n = (if sint n < 0 then ''-'' else []) @ decimal (nat \<bar>sint n\<bar>)"

definition decide :: "(32 word \<Rightarrow> string) \<Rightarrow> bool \<Rightarrow> 32 word \<Rightarrow> i64 \<Rightarrow> i64 \<Rightarrow> tail_action list" where
  "decide strerror cancelled res http_code downloaded =
     (if cancelled then [Remove_File, Complete False ''Download cancelled'']
      else if res \<noteq> 0 then [Remove_File, Complete False (''curl error: '' @ strerror res)]
      else if sint http_code \<ge> 400 then
        [Remove_File, Complete False (''HTTP error: '' @ show_i64 http_code)]
      else if sint downloaded \<le> 0 then [Remove_File, Complete False ''Empty download (0 bytes)'']
      else [Complete True ''''])"

fun tail_step ::
  "(32 word \<Rightarrow> string) \<Rightarrow> download_thread \<Rightarrow> tail_action list \<Rightarrow> http_downloader \<Rightarrow>
   tail_action list \<times> http_downloader" where
  "tail_step strerror th [] d = ([], d)"
| "tail_step strerror th (Store_Not_Downloading # rest) d = (rest, d\<lparr>hd_downloading := False\<rparr>)"
| "tail_step strerror th (Remove_File # rest) d =
     (rest, d\<lparr>hd_files := umap_erase (hd_files d) (th_dest th)\<rparr>)"
| "tail_step strerror th (Complete success message # rest) d =
     (rest, if th_on_complete th
            then d\<lparr>hd_log := hd_log d @
              [Completed (th_dest th) success message (umap_find (hd_files d) (th_dest th))]\<rparr>
            else d)"
| "tail_step strerror th (Decide res http_code downloaded # rest) d =
     (decide strerror (hd_cancelled d) res http_code downloaded @ rest, d)"

section \<open>Interleavings\<close>

text \<open>
  One step of the application or of the download thread, with what libcurl, the file system and the
  clock answer. \<open>None\<close>: the step is not possible here. libcurl reports a failure when a
  callback asked it to stop. The joining in \<open>cleanup_thread\<close> is the guard of
  \<open>L_Finish\<close>. Several threads may start downloads; a refusal is one step.
\<close>

datatype dl_label =
    L_Begin string string bool bool
  | L_Finish i64 i64
  | L_Cancel
  | L_Open bool
  | L_Init bool
  | L_Write bool nat bytes
  | L_Progress i64 i64 i64
  | L_Performed "32 word" i64 i64 nat
  | L_Tail

abbreviation set_thread :: "http_downloader \<Rightarrow> download_thread \<Rightarrow> http_downloader" where
  "set_thread d th \<equiv> d\<lparr>hd_thread := Some th\<rparr>"

fun thread_step ::
  "(32 word \<Rightarrow> string) \<Rightarrow> dl_label \<Rightarrow> download_thread \<Rightarrow> http_downloader \<Rightarrow> http_downloader option" where
  "thread_step strerror (L_Open opened) th d =
     (if th_pc th = At_Open then let (th', d') = thread_open opened th d in Some (set_thread d' th')
      else None)"
| "thread_step strerror (L_Init curl) th d =
     (if th_pc th = At_Init then Some (set_thread d (thread_init curl th)) else None)"
| "thread_step strerror (L_Write good written contents) th d =
     (if th_pc th = At_Transfer False then
        let (n, d') = write_callback good written contents th d
        in Some (set_thread d' (th\<lparr>th_pc := At_Transfer (n \<noteq> length contents)\<rparr>))
      else None)"
| "thread_step strerror (L_Progress now dltotal dlnow) th d =
     (if th_pc th = At_Transfer False then
        let (r, th', d') = progress_callback now dltotal dlnow th d
        in Some (set_thread d' (th'\<lparr>th_pc := At_Transfer (r \<noteq> 0)\<rparr>))
      else None)"
| "thread_step strerror (L_Performed res http_code downloaded kept) th d =
     (case th_pc th of
        At_Transfer aborted \<Rightarrow>
          if aborted \<and> res = 0 then None
          else let (th', d') = thread_performed res http_code downloaded kept th d
               in Some (set_thread d' th')
      | _ \<Rightarrow> None)"
| "thread_step strerror L_Tail th d =
     (case th_pc th of
        At_Tail (action # rest) \<Rightarrow>
          let (rest', d') = tail_step strerror th (action # rest) d
          in Some (set_thread d' (th\<lparr>th_pc := At_Tail rest'\<rparr>))
      | _ \<Rightarrow> None)"
| "thread_step strerror l th d = None"

fun dl_step ::
  "(32 word \<Rightarrow> string) \<Rightarrow> dl_label \<Rightarrow> http_downloader \<Rightarrow> http_downloader option" where
  "dl_step strerror (L_Begin url dest on_progress on_complete) d =
     Some (snd (start_download_begin url dest on_progress on_complete d))"
| "dl_step strerror (L_Finish now1 now2) d =
     (case hd_starting d of
        None \<Rightarrow> None
      | Some st \<Rightarrow>
          if thread_ended d then Some (snd (start_download_finish now1 now2 st d)) else None)"
| "dl_step strerror L_Cancel d = Some (cancel d)"
| "dl_step strerror l d =
     (case hd_thread d of None \<Rightarrow> None | Some th \<Rightarrow> thread_step strerror l th d)"

text \<open>What a new downloader reaches, with the steps that were made, the latest first.\<close>

inductive dl_reach ::
  "(32 word \<Rightarrow> string) \<Rightarrow> (string, bytes) umap \<Rightarrow> dl_label list \<Rightarrow> http_downloader \<Rightarrow> bool"
  for strerror files where
  reach_init: "dl_reach strerror files [] (downloader_init files)"
| reach_step: "dl_reach strerror files ls d \<Longrightarrow> dl_step strerror l d = Some d' \<Longrightarrow>
    dl_reach strerror files (l # ls) d'"

inductive_cases dl_reach_ConsE: "dl_reach strerror files (l # ls) d"

text \<open>The bytes that libcurl delivered in the latest download, and how its transfer ended.\<close>

fun delivered :: "dl_label list \<Rightarrow> bytes" where
  "delivered [] = []"
| "delivered (L_Open opened # ls) = []"
| "delivered (L_Write good written contents # ls) =
     delivered ls @ (if good then contents else take written contents)"
| "delivered (l # ls) = delivered ls"

fun transfer_end :: "dl_label list \<Rightarrow> (32 word \<times> i64 \<times> i64 \<times> nat) option" where
  "transfer_end [] = None"
| "transfer_end (L_Open opened # ls) = None"
| "transfer_end (L_Performed res http_code downloaded kept # ls) =
     Some (res, http_code, downloaded, kept)"
| "transfer_end (l # ls) = transfer_end ls"

definition transfer_ok :: "dl_label list \<Rightarrow> bool" where
  "transfer_ok ls = (case transfer_end ls of None \<Rightarrow> False
     | Some (res, http_code, downloaded, kept) \<Rightarrow>
         res = 0 \<and> sint http_code < 400 \<and> sint downloaded > 0)"

definition saved :: "dl_label list \<Rightarrow> bytes" where
  "saved ls = (case transfer_end ls of None \<Rightarrow> delivered ls
     | Some (res, http_code, downloaded, kept) \<Rightarrow> take kept (delivered ls))"

end
