(* ===== verification/Http_Downloads.thy ===== *)
theory Http_Downloads
  imports Http_Downloader
begin

text \<open>
  What every interleaving of the download thread with the application keeps: where the thread is
  determines the flag, the file and the completion that is still due.
\<close>

definition open_failed :: "string \<Rightarrow> string" where
  "open_failed dest = ''Failed to open output file: '' @ dest"

definition file_of :: "download_thread \<Rightarrow> http_downloader \<Rightarrow> bytes option" where
  "file_of th d = umap_find (hd_files d) (th_dest th)"

text \<open>The rest of the thread's function is one of these.\<close>

definition tail_ok :: "dl_label list \<Rightarrow> download_thread \<Rightarrow> tail_action list \<Rightarrow> http_downloader \<Rightarrow> bool" where
  "tail_ok ls th as d =
     (as = []
      \<or> as = [Store_Not_Downloading, Complete False (open_failed (th_dest th))]
      \<or> as = [Complete False (open_failed (th_dest th))]
      \<or> (\<exists>m. as = [Remove_File, Store_Not_Downloading, Complete False m])
      \<or> (\<exists>m. as = [Store_Not_Downloading, Complete False m] \<and> file_of th d = None)
      \<or> (\<exists>m. as = [Complete False m] \<and> file_of th d = None)
      \<or> (\<exists>m. as = [Remove_File, Complete False m])
      \<or> (\<exists>res h n k. (as = [Store_Not_Downloading, Decide res h n] \<or> as = [Decide res h n])
           \<and> transfer_end ls = Some (res, h, n, k) \<and> (res = 0 \<longrightarrow> file_of th d = Some (saved ls)))
      \<or> (\<exists>m. as = [Complete True m] \<and> transfer_ok ls \<and> file_of th d = Some (saved ls)))"

fun pc_ok :: "dl_label list \<Rightarrow> download_thread \<Rightarrow> thread_pc \<Rightarrow> http_downloader \<Rightarrow> bool" where
  "pc_ok ls th At_Open d = True"
| "pc_ok ls th At_Init d = (file_of th d = Some (delivered ls) \<and> transfer_end ls = None)"
| "pc_ok ls th (At_Transfer aborted) d =
     (transfer_end ls = None \<and> (\<not> aborted \<longrightarrow> file_of th d = Some (delivered ls)))"
| "pc_ok ls th (At_Tail as) d = tail_ok ls th as d"

definition thread_ok :: "dl_label list \<Rightarrow> http_downloader \<Rightarrow> bool" where
  "thread_ok ls d =
     (case hd_thread d of None \<Rightarrow> True | Some th \<Rightarrow> pc_ok ls th (th_pc th) d)"

fun pc_busy :: "thread_pc \<Rightarrow> bool" where
  "pc_busy (At_Tail as) = (Store_Not_Downloading \<in> set as)"
| "pc_busy pc = True"

definition thread_busy :: "http_downloader \<Rightarrow> bool" where
  "thread_busy d = (case hd_thread d of None \<Rightarrow> False | Some th \<Rightarrow> pc_busy (th_pc th))"

definition flag_ok :: "http_downloader \<Rightarrow> bool" where
  "flag_ok d = (hd_downloading d = (hd_starting d \<noteq> None \<or> thread_busy d) \<and>
     \<not> (hd_starting d \<noteq> None \<and> thread_busy d))"

lemma file_of_simps [simp]:
  "file_of th (d\<lparr>hd_thread := t\<rparr>) = file_of th d"
  "file_of th (d\<lparr>hd_downloading := b\<rparr>) = file_of th d"
  "file_of th (d\<lparr>hd_cancelled := b\<rparr>) = file_of th d"
  "file_of th (d\<lparr>hd_starting := s\<rparr>) = file_of th d"
  "file_of th (d\<lparr>hd_log := l\<rparr>) = file_of th d"
  "file_of th (d\<lparr>hd_progress := p\<rparr>) = file_of th d"
  "file_of (th\<lparr>th_pc := pc\<rparr>) d = file_of th d"
  "file_of (th\<lparr>th_context := c\<rparr>) d = file_of th d"
  by (simp_all add: file_of_def)

lemma file_of_files [simp]:
  "file_of th (d\<lparr>hd_files := umap_set fs (th_dest th) b\<rparr>) = Some b"
  "file_of th (d\<lparr>hd_files := umap_erase fs (th_dest th)\<rparr>) = None"
  by (simp_all add: file_of_def)

text \<open>Steps of the application do not touch what the thread relies on.\<close>

definition app_label :: "dl_label \<Rightarrow> bool" where
  "app_label l = (case l of L_Begin url dest a b \<Rightarrow> True | L_Cancel \<Rightarrow> True | _ \<Rightarrow> False)"

lemma tail_ok_frame:
  assumes "delivered ls' = delivered ls" "transfer_end ls' = transfer_end ls"
    "th_dest th' = th_dest th" "hd_files d' = hd_files d"
  shows "tail_ok ls' th' as d' = tail_ok ls th as d"
  unfolding tail_ok_def file_of_def saved_def transfer_ok_def assms ..

lemma pc_ok_frame:
  assumes "delivered ls' = delivered ls" "transfer_end ls' = transfer_end ls"
    "th_dest th' = th_dest th" "hd_files d' = hd_files d"
  shows "pc_ok ls' th' pc d' = pc_ok ls th pc d"
  using assms by (cases pc) (simp_all add: tail_ok_frame [OF assms] file_of_def)

lemma app_step_keeps:
  assumes "dl_step e l d = Some d'" "app_label l"
  shows "hd_thread d' = hd_thread d" "hd_files d' = hd_files d"
    "delivered (l # ls) = delivered ls" "transfer_end (l # ls) = transfer_end ls"
    "hd_log d' = hd_log d"
  using assms
  by (auto simp: app_label_def start_download_begin_def cancel_def Let_def
      split: dl_label.splits if_splits)

lemma decide_tail_ok:
  assumes "transfer_end ls = Some (res, h, n, k)" "res = 0 \<longrightarrow> file_of th d = Some (saved ls)"
  shows "tail_ok ls th (decide e c res h n) d"
  using assms by (simp add: tail_ok_def decide_def transfer_ok_def not_le)

lemma tail_step_ok:
  assumes "tail_ok ls th (a # rest) d" "tail_step e th (a # rest) d = (rest', d')"
  shows "tail_ok ls th rest' d'"
proof (cases a)
  case (Decide res h n)
  then have "rest = []" "d' = d" "rest' = decide e (hd_cancelled d) res h n"
    using assms by (auto simp: tail_ok_def)
  moreover obtain k where "transfer_end ls = Some (res, h, n, k)"
      "res = 0 \<longrightarrow> file_of th d = Some (saved ls)"
    using assms(1) Decide by (auto simp: tail_ok_def)
  ultimately show ?thesis by (simp add: decide_tail_ok)
qed (use assms in \<open>auto simp: tail_ok_def split: if_splits\<close>)

text \<open>Completions seen, due, and downloads started.\<close>

fun is_completion :: "download_event \<Rightarrow> bool" where
  "is_completion (Completed dest success msg content) = True"
| "is_completion (Progressed p) = False"

definition completions :: "http_downloader \<Rightarrow> nat" where
  "completions d = length (filter is_completion (hd_log d))"

definition completion_due :: "http_downloader \<Rightarrow> nat" where
  "completion_due d = (if thread_ended d then 0 else 1)"

fun is_finish :: "dl_label \<Rightarrow> bool" where
  "is_finish (L_Finish now1 now2) = True"
| "is_finish l = False"

definition downloads_started :: "dl_label list \<Rightarrow> nat" where
  "downloads_started ls = length (filter is_finish ls)"

fun asks_completion :: "dl_label \<Rightarrow> bool" where
  "asks_completion (L_Begin url dest on_progress on_complete) = on_complete"
| "asks_completion l = True"

definition count_ok :: "dl_label list \<Rightarrow> http_downloader \<Rightarrow> bool" where
  "count_ok ls d =
     ((\<forall>st. hd_starting d = Some st \<longrightarrow> st_on_complete st) \<and>
      (\<forall>th. hd_thread d = Some th \<longrightarrow> th_on_complete th) \<and>
      completions d + completion_due d = downloads_started ls)"

lemmas download_defs = thread_ok_def flag_ok_def thread_busy_def count_ok_def completions_def
  completion_due_def downloads_started_def thread_ended_def

lemma app_thread_ok:
  assumes "dl_step e l d = Some d'" "app_label l" "thread_ok ls d"
  shows "thread_ok (l # ls) d'"
proof (cases "hd_thread d")
  case (Some th)
  note keeps = app_step_keeps [OF assms(1,2)]
  have "pc_ok (l # ls) th (th_pc th) d' = pc_ok ls th (th_pc th) d"
    by (rule pc_ok_frame) (simp_all only: keeps)
  then show ?thesis using assms(3) Some keeps(1) by (simp add: thread_ok_def)
qed (use assms app_step_keeps [OF assms(1,2)] in \<open>simp add: thread_ok_def\<close>)

lemma begin_ok:
  assumes "dl_step e (L_Begin url dest a b) d = Some d'" "flag_ok d"
  shows "flag_ok d'"
    "asks_completion (L_Begin url dest a b) \<Longrightarrow> count_ok ls d \<Longrightarrow>
     count_ok (L_Begin url dest a b # ls) d'"
  using assms by (auto simp: download_defs start_download_begin_def Let_def split: if_splits)

lemma cancel_ok:
  assumes "dl_step e L_Cancel d = Some d'" "flag_ok d"
  shows "flag_ok d'" "count_ok ls d \<Longrightarrow> count_ok (L_Cancel # ls) d'"
  using assms by (auto simp: download_defs cancel_def)

lemma finish_ok:
  assumes "dl_step e (L_Finish n1 n2) d = Some d'" "flag_ok d"
  shows "thread_ok (L_Finish n1 n2 # ls) d'" "flag_ok d'"
    "count_ok ls d \<Longrightarrow> count_ok (L_Finish n1 n2 # ls) d'"
  using assms
  by (auto simp: download_defs start_download_finish_def split: option.splits if_splits)

text \<open>A step of the thread.\<close>

lemma tail_step_frame:
  assumes "tail_ok ls th (a # rest) d" "tail_step e th (a # rest) d = (rest', d')"
  shows "hd_starting d' = hd_starting d" "hd_thread d' = hd_thread d"
    "hd_downloading d' = (hd_downloading d \<and> a \<noteq> Store_Not_Downloading)"
    "Store_Not_Downloading \<in> set rest' \<longleftrightarrow> Store_Not_Downloading \<in> set rest"
    "a = Store_Not_Downloading \<Longrightarrow> Store_Not_Downloading \<notin> set rest"
  using assms by (cases a; auto simp: tail_ok_def decide_def split: if_splits)+

lemma tail_step_log:
  assumes "tail_ok ls th (a # rest) d" "tail_step e th (a # rest) d = (rest', d')" "th_on_complete th"
  shows "completions d' + (if rest' = [] then 0 else 1) = completions d + 1"
  using assms by (cases a) (auto simp: tail_ok_def decide_def completions_def split: if_splits)

text \<open>What every step of the thread leaves: itself, what it relies on, and the flag.\<close>

definition thread_moves ::
  "dl_label list \<Rightarrow> download_thread \<Rightarrow> http_downloader \<Rightarrow> dl_label list \<Rightarrow> http_downloader \<Rightarrow> bool" where
  "thread_moves ls th d ls' d' =
     (hd_starting d' = hd_starting d \<and>
      (\<exists>th'. hd_thread d' = Some th' \<and> th_on_complete th' = th_on_complete th \<and>
         pc_ok ls' th' (th_pc th') d' \<and>
         (th_on_complete th \<longrightarrow> completions d' + (if th_pc th' = At_Tail [] then 0 else 1) = completions d + 1) \<and>
         (pc_busy (th_pc th') \<longrightarrow> pc_busy (th_pc th)) \<and>
         hd_downloading d' = (hd_downloading d \<and> (pc_busy (th_pc th) \<longrightarrow> pc_busy (th_pc th')))))"

lemma completions_simps [simp]:
  "completions (d\<lparr>hd_thread := t\<rparr>) = completions d"
  "completions (d\<lparr>hd_files := f\<rparr>) = completions d"
  "completions (d\<lparr>hd_progress := p\<rparr>) = completions d"
  "completions (d\<lparr>hd_log := hd_log d @ [Progressed q]\<rparr>) = completions d"
  by (simp_all add: completions_def)

lemma progress_moves:
  assumes "thread_step e (L_Progress now dt dn) th d = Some d'" "pc_ok ls th (th_pc th) d"
  shows "thread_moves ls th d (L_Progress now dt dn # ls) d'"
  using assms
  by (auto simp: thread_moves_def progress_callback_def Let_def completions_def file_of_def split: if_splits)

lemma write_moves:
  assumes "thread_step e (L_Write good n bs) th d = Some d'" "pc_ok ls th (th_pc th) d"
  shows "thread_moves ls th d (L_Write good n bs # ls) d'"
  using assms
  by (auto simp: thread_moves_def write_callback_def Let_def file_of_def split: if_splits)

lemma open_moves:
  assumes "thread_step e (L_Open b) th d = Some d'" "pc_ok ls th (th_pc th) d"
  shows "thread_moves ls th d (L_Open b # ls) d'"
  using assms
  by (auto simp: thread_moves_def thread_open_def tail_ok_def open_failed_def file_of_def split: if_splits)

lemma init_moves:
  assumes "thread_step e (L_Init b) th d = Some d'" "pc_ok ls th (th_pc th) d"
  shows "thread_moves ls th d (L_Init b # ls) d'"
  using assms
  by (auto simp: thread_moves_def thread_init_def tail_ok_def file_of_def split: if_splits)

lemma performed_moves:
  assumes "thread_step e (L_Performed r h n k) th d = Some d'" "pc_ok ls th (th_pc th) d"
  shows "thread_moves ls th d (L_Performed r h n k # ls) d'"
  using assms
  by (auto simp: thread_moves_def thread_performed_def tail_ok_def file_of_def saved_def
      split: if_splits thread_pc.splits option.splits)

lemma tail_ok_label: "tail_ok (L_Tail # ls) th as d = tail_ok ls th as d"
  by (rule tail_ok_frame) simp_all

lemma tail_moves:
  assumes "thread_step e L_Tail th d = Some d'" "pc_ok ls th (th_pc th) d"
  shows "thread_moves ls th d (L_Tail # ls) d'"
proof -
  obtain a rest rest' d1 where pc: "th_pc th = At_Tail (a # rest)"
    and step: "tail_step e th (a # rest) d = (rest', d1)"
    and d': "d' = set_thread d1 (th\<lparr>th_pc := At_Tail rest'\<rparr>)"
    using assms(1) by (auto split: thread_pc.splits list.splits prod.splits)
  have ok: "tail_ok ls th (a # rest) d" using assms(2) pc by simp
  have "tail_ok (L_Tail # ls) (th\<lparr>th_pc := At_Tail rest'\<rparr>) rest' d' = tail_ok ls th rest' d1"
    by (rule tail_ok_frame) (simp_all add: d')
  then show ?thesis
    using tail_step_ok [OF ok step] tail_step_frame [OF ok step] tail_step_log [OF ok step] pc d'
    by (auto simp: thread_moves_def)
qed

lemmas moves = progress_moves write_moves open_moves init_moves performed_moves tail_moves

lemma thread_step_moves:
  assumes "thread_step e l th d = Some d'" "pc_ok ls th (th_pc th) d"
  shows "thread_moves ls th d (l # ls) d'" "\<not> is_finish l"
  using assms by (cases l; use assms moves in auto; fail)+

lemma thread_moves_ok:
  assumes "thread_moves ls th d (l # ls) d'" "hd_thread d = Some th" "\<not> is_finish l"
    "flag_ok d" "\<not> thread_ended d"
  shows "thread_ok (l # ls) d'" "flag_ok d'" "count_ok ls d \<Longrightarrow> count_ok (l # ls) d'"
  using assms by (auto simp: thread_moves_def download_defs)

definition download_ok :: "dl_label list \<Rightarrow> http_downloader \<Rightarrow> bool" where
  "download_ok ls d =
     (thread_ok ls d \<and> flag_ok d \<and> (list_all asks_completion ls \<longrightarrow> count_ok ls d))"

lemma thread_step_running:
  "thread_step e l th d = Some d' \<Longrightarrow> hd_thread d = Some th \<Longrightarrow> \<not> thread_ended d"
  by (cases l) (auto simp: thread_ended_def split: if_splits thread_pc.splits)

lemma dl_step_cases:
  assumes "dl_step e l d = Some d'"
  obtains (app_begin) url dest a b where "l = L_Begin url dest a b"
  | (app_finish) n1 n2 where "l = L_Finish n1 n2"
  | (app_cancel) "l = L_Cancel"
  | (thread) th where "hd_thread d = Some th" "thread_step e l th d = Some d'"
  using assms by (cases l) (auto split: option.splits)

lemma download_ok_step:
  assumes "dl_step e l d = Some d'" "download_ok ls d"
  shows "download_ok (l # ls) d'"
  using assms(1)
proof (cases rule: dl_step_cases)
  case (app_begin url dest a b)
  then show ?thesis
    using assms begin_ok [of e url dest a b d d'] app_thread_ok [OF assms(1)]
    by (auto simp: download_ok_def app_label_def)
next
  case (app_finish n1 n2)
  then show ?thesis using assms finish_ok [of e n1 n2 d d'] by (auto simp: download_ok_def)
next
  case app_cancel
  then show ?thesis
    using assms cancel_ok [of e d d'] app_thread_ok [OF assms(1)]
    by (auto simp: download_ok_def app_label_def)
next
  case (thread th)
  have "pc_ok ls th (th_pc th) d" using assms(2) thread by (simp add: download_ok_def thread_ok_def)
  from thread_step_moves [OF thread(2) this] show ?thesis
    using thread_moves_ok [OF _ thread(1) _ _ thread_step_running [OF thread(2,1)]] assms(2)
    by (auto simp: download_ok_def)
qed

lemma download_ok_reach: "dl_reach e files ls d \<Longrightarrow> download_ok ls d"
proof (induction rule: dl_reach.induct)
  case reach_init
  show ?case by (simp add: download_ok_def download_defs downloader_init_def)
next
  case (reach_step ls d l d')
  then show ?case by (blast intro: download_ok_step)
qed


section \<open>Properties\<close>

definition sample_steps :: "dl_label list" where
  "sample_steps = [L_Tail, L_Tail, L_Performed 0 200 3 3, L_Progress 5 3 3, L_Write True 0 [7, 8, 9],
     L_Init True, L_Open True, L_Finish 0 0, L_Begin ''http://h/f'' ''f'' True True]"

definition run_steps :: "dl_label list \<Rightarrow> http_downloader option" where
  "run_steps ls = foldr (\<lambda>l s. Option.bind s (dl_step (\<lambda>_. ''error'') l)) ls
     (Some (downloader_init []))"

lemma run_steps_reach: "run_steps ls = Some d \<Longrightarrow> dl_reach (\<lambda>_. ''error'') [] ls d"
  by (induction ls arbitrary: d)
    (auto simp: run_steps_def intro: reach_init reach_step split: Option.bind_splits)




text \<open>A run in which the close loses all three bytes, and the completion reports success.\<close>

lemma truncated_download_succeeds:
  "map_option (\<lambda>d. (last (hd_log d))) (run_steps (L_Tail # L_Tail # L_Tail # L_Performed 0 200 3 0 #
     drop 3 sample_steps)) = Some (Completed ''f'' True [] (Some []))"
  by code_simp

text \<open>C27: In every interleaving the flag is set exactly while a start has claimed the downloader or its
  thread has not cleared it, never both, and when every start asks for its completion, the
  completions are the downloads started less the one whose thread still runs. The flag may be clear
  while that one is due.\<close>

theorem download_flag_and_completions:
  assumes "dl_reach strerror files ls d"
  shows "is_downloading d = (hd_starting d \<noteq> None \<or> thread_busy d) \<and>
    \<not> (hd_starting d \<noteq> None \<and> thread_busy d) \<and>
    (list_all asks_completion ls \<longrightarrow> completions d + completion_due d = downloads_started ls)"
  using download_ok_reach [OF assms]
  by (auto simp: download_ok_def flag_ok_def count_ok_def is_downloading_def)

theorem download_flag_and_completions_witness:
  "let d = the (run_steps sample_steps) in
     \<not> is_downloading d \<and> hd_starting d = None \<and> \<not> thread_busy d \<and>
     completion_due d = 1 \<and> completions d = 0 \<and> downloads_started sample_steps = 1"
proof -
  define d where "d = the (run_steps sample_steps)"
  have "run_steps sample_steps \<noteq> None" by code_simp
  then have reach: "dl_reach (\<lambda>_. ''error'') [] sample_steps d"
    unfolding d_def by (intro run_steps_reach) auto
  have "\<not> is_downloading d" "completion_due d = 1" unfolding d_def by code_simp+
  moreover have "list_all asks_completion sample_steps" "downloads_started sample_steps = 1" by code_simp+
  ultimately show ?thesis
    using download_flag_and_completions [OF reach] by (auto simp: Let_def simp flip: d_def)
qed

end
