(* ===== verification/Objects.thy ===== *)
theory Objects
  imports Resources
begin

text \<open>
  \<open>include/lwm2m/object.hpp\<close> and \<open>src/object.cpp\<close>: the base class \<open>Object\<close> (the
  default operations and the table of registered resources), the helper
  \<open>SingleInstanceObject\<close>, and the interface \<open>Object\<close> itself as a locale: the virtual
  functions the client calls, with the laws every object of the repository obeys. The theory of
  each object interprets the locale on its own operations.
\<close>

section \<open>The base class\<close>

record 's object_base =
  base_resources :: "(u16, 's resource) umap"

definition object_init :: "'s object_base" where
  "object_init = \<lparr>base_resources = []\<rparr>"

definition object_create_instance :: "instance_id option \<Rightarrow> instance_id result" where
  "object_create_instance suggested =
     err E_MethodNotAllowed ''Object does not support instance creation''"

definition object_delete_instance :: "instance_id \<Rightarrow> unit result" where
  "object_delete_instance iid =
     err E_MethodNotAllowed ''Object does not support instance deletion''"

definition object_execute_resource :: "instance_id \<Rightarrow> resource_id \<Rightarrow> string \<Rightarrow> unit result" where
  "object_execute_resource iid rid args =
     err E_MethodNotAllowed ''Resource is not executable''"

definition object_begin_transaction :: "unit result" where
  "object_begin_transaction = ok ()"

definition object_commit_transaction :: "unit result" where
  "object_commit_transaction = ok ()"

definition object_rollback_transaction :: "unit result" where
  "object_rollback_transaction = ok ()"

definition register_resource :: "'s resource \<Rightarrow> 's object_base \<Rightarrow> 's object_base" where
  "register_resource r b =
     b\<lparr>base_resources := umap_emplace (base_resources b) (strong_value (def_id (res_def r))) r\<rparr>"

definition find_resource :: "'s object_base \<Rightarrow> resource_id \<Rightarrow> 's resource option" where
  "find_resource b rid = umap_find (base_resources b) (strong_value rid)"

definition object_get_resource_type ::
  "'s object_base \<Rightarrow> instance_id \<Rightarrow> resource_id \<Rightarrow> resource_type option" where
  "object_get_resource_type b iid rid =
     (case find_resource b rid of None \<Rightarrow> None | Some r \<Rightarrow> Some (def_type (res_def r)))"

text \<open>\<open>emplace\<close> keeps the first registration of an id.\<close>

lemma find_registered:
  "find_resource (register_resource r b) rid =
     (if rid = def_id (res_def r) \<and> find_resource b rid = None then Some r else find_resource b rid)"
  by (auto simp: find_resource_def register_resource_def strong_type.expand)

lemma register_resource_idem:
  "find_resource b (def_id (res_def r)) = Some r' \<Longrightarrow> register_resource r b = b"
  by (simp add: find_resource_def register_resource_def umap_emplace_def)

lemma object_get_resource_type_init [simp]: "object_get_resource_type object_init iid rid = None"
  by (simp add: object_get_resource_type_def find_resource_def object_init_def)

section \<open>Single-instance objects\<close>

definition single_list_instances :: "instance_id list" where
  "single_list_instances = [Strong 0]"

definition single_has_instance :: "instance_id \<Rightarrow> bool" where
  "single_has_instance iid \<longleftrightarrow> strong_value iid = 0"

definition single_create_instance :: "instance_id option \<Rightarrow> instance_id result" where
  "single_create_instance suggested = err E_MethodNotAllowed ''Single instance object''"

definition single_delete_instance :: "instance_id \<Rightarrow> unit result" where
  "single_delete_instance iid = err E_MethodNotAllowed ''Single instance object''"

lemma single_has_instance_iff: "single_has_instance iid \<longleftrightarrow> iid = Strong 0"
  by (cases iid) (simp add: single_has_instance_def)

section \<open>Reading a resource with several instances\<close>

text \<open>
  The block that the Device, Connectivity and Firmware objects repeat for each multiple resource:
  with a resource instance id, the element at that index or NotFound; without one, the first
  element or the resource's own answer for an empty list.
\<close>

definition read_multiple ::
  "('a \<Rightarrow> resource_value) \<Rightarrow> 'a list \<Rightarrow> resource_instance_id option \<Rightarrow> resource_value result \<Rightarrow>
   resource_value result" where
  "read_multiple wrap xs riid on_empty =
     (case riid of
        Some r \<Rightarrow>
          (if unat (strong_value r) < length xs then ok (wrap (xs ! unat (strong_value r)))
           else err E_NotFound ''Resource instance not found'')
      | None \<Rightarrow> (case xs of x # _ \<Rightarrow> ok (wrap x) | [] \<Rightarrow> on_empty))"

lemma read_multiple_type:
  assumes "read_multiple wrap xs riid on_empty = ok v" "\<And>x. get_resource_type (wrap x) = t"
    "\<And>v. on_empty = ok v \<Longrightarrow> get_resource_type v = t"
  shows "get_resource_type v = t"
  using assms by (auto simp: read_multiple_def split: option.splits if_splits list.splits)

section \<open>The interface\<close>

text \<open>
  The virtual functions of \<open>Object\<close> that the client's request handlers call. Reading takes and
  returns the state because \<open>LocationObject\<close> refreshes its position while reading. The laws:
  the listed instances are those that exist, without repetition; an operation on an instance that
  does not exist answers NotFound and changes nothing; reading and writing keep the instances;
  creating and deleting change exactly one instance, or nothing on an error; a value that is read
  has the resource's declared type where the object declares one.
\<close>

locale lwm2m_object =
  fixes invar :: "'s \<Rightarrow> bool"
    and list_instances :: "'s \<Rightarrow> instance_id list"
    and has_instance :: "'s \<Rightarrow> instance_id \<Rightarrow> bool"
    and create_instance :: "instance_id option \<Rightarrow> 's \<Rightarrow> instance_id result \<times> 's"
    and delete_instance :: "instance_id \<Rightarrow> 's \<Rightarrow> unit result \<times> 's"
    and resource_type_of :: "'s \<Rightarrow> instance_id \<Rightarrow> resource_id \<Rightarrow> resource_type option"
    and read_resource ::
      "instance_id \<Rightarrow> resource_id \<Rightarrow> resource_instance_id option \<Rightarrow> 's \<Rightarrow> resource_value result \<times> 's"
    and write_resource ::
      "instance_id \<Rightarrow> resource_id \<Rightarrow> resource_instance_id option \<Rightarrow> resource_value \<Rightarrow> 's \<Rightarrow>
       unit result \<times> 's"
  assumes instances_distinct: "invar s \<Longrightarrow> distinct (list_instances s)"
    and instances_listed: "invar s \<Longrightarrow> iid \<in> set (list_instances s) \<longleftrightarrow> has_instance s iid"
    and read_absent: "invar s \<Longrightarrow> \<not> has_instance s iid \<Longrightarrow>
      read_resource iid rid riid s = (err E_NotFound ''Instance not found'', s)"
    and write_absent: "invar s \<Longrightarrow> \<not> has_instance s iid \<Longrightarrow>
      write_resource iid rid riid v s = (err E_NotFound ''Instance not found'', s)"
    and read_keeps: "invar s \<Longrightarrow> read_resource iid rid riid s = (r, s') \<Longrightarrow>
      invar s' \<and> has_instance s' = has_instance s"
    and write_keeps: "invar s \<Longrightarrow> write_resource iid rid riid v s = (w, s') \<Longrightarrow>
      invar s' \<and> has_instance s' = has_instance s"
    and create_ok: "invar s \<Longrightarrow> create_instance suggested s = (ok iid, s') \<Longrightarrow>
      invar s' \<and> \<not> has_instance s iid \<and> has_instance s' = (has_instance s)(iid := True)"
    and create_err: "invar s \<Longrightarrow> create_instance suggested s = (Inl e, s') \<Longrightarrow> s' = s"
    and delete_ok: "invar s \<Longrightarrow> delete_instance iid s = (ok u, s') \<Longrightarrow>
      invar s' \<and> has_instance s iid \<and> has_instance s' = (has_instance s)(iid := False)"
    and delete_err: "invar s \<Longrightarrow> delete_instance iid s = (Inl e, s') \<Longrightarrow> s' = s"
    and read_typed: "invar s \<Longrightarrow> read_resource iid rid riid s = (ok v, s') \<Longrightarrow>
      resource_type_of s iid rid = Some t \<Longrightarrow> get_resource_type v = t"
begin

lemma create_keeps_invar: "invar s \<Longrightarrow> invar (snd (create_instance suggested s))"
  by (cases "create_instance suggested s"; cases "fst (create_instance suggested s)")
    (auto dest: create_ok create_err)

lemma delete_keeps_invar: "invar s \<Longrightarrow> invar (snd (delete_instance iid s))"
  by (cases "delete_instance iid s"; cases "fst (delete_instance iid s)")
    (auto dest: delete_ok delete_err)

text \<open>A created instance can be deleted again, and the object then has the instances it had.\<close>

lemma delete_after_create:
  assumes "invar s" "create_instance suggested s = (ok iid, s')"
    "delete_instance iid s' = (ok u, s'')"
  shows "has_instance s'' = has_instance s"
proof -
  note c = create_ok [OF assms(1,2)]
  then have "has_instance s'' = (has_instance s')(iid := False)"
    using delete_ok [OF _ assms(3)] by blast
  with c show ?thesis by (simp add: fun_upd_idem)
qed

lemma deleted_is_gone:
  assumes "invar s" "delete_instance iid s = (ok u, s')"
  shows "read_resource iid rid riid s' = (err E_NotFound ''Instance not found'', s')"
    "write_resource iid rid riid v s' = (err E_NotFound ''Instance not found'', s')"
  using delete_ok [OF assms] by (simp_all add: read_absent write_absent)

lemma create_counts:
  assumes "invar s" "create_instance suggested s = (ok iid, s')"
  shows "length (list_instances s') = Suc (length (list_instances s))"
proof -
  note c = create_ok [OF assms]
  have "set (list_instances s') = insert iid (set (list_instances s))"
    by (rule set_eqI) (use c assms(1) in \<open>simp add: instances_listed\<close>)
  moreover have "iid \<notin> set (list_instances s)" using c assms(1) by (simp add: instances_listed)
  ultimately show ?thesis
    using c assms(1) instances_distinct by (metis List.finite_set card_insert_disjoint distinct_card)
qed

end

section \<open>The interface of a single-instance object\<close>

text \<open>
  What the four classes derived from \<open>SingleInstanceObject\<close> add to it: reading and writing an
  instance other than zero answers NotFound, and a value that is read has the declared type.
\<close>

locale single_object =
  fixes resource_type_of :: "'s \<Rightarrow> instance_id \<Rightarrow> resource_id \<Rightarrow> resource_type option"
    and read_resource ::
      "instance_id \<Rightarrow> resource_id \<Rightarrow> resource_instance_id option \<Rightarrow> 's \<Rightarrow> resource_value result \<times> 's"
    and write_resource ::
      "instance_id \<Rightarrow> resource_id \<Rightarrow> resource_instance_id option \<Rightarrow> resource_value \<Rightarrow> 's \<Rightarrow>
       unit result \<times> 's"
  assumes read_other: "strong_value iid \<noteq> 0 \<Longrightarrow>
      read_resource iid rid riid s = (err E_NotFound ''Instance not found'', s)"
    and write_other: "strong_value iid \<noteq> 0 \<Longrightarrow>
      write_resource iid rid riid v s = (err E_NotFound ''Instance not found'', s)"
    and value_typed: "read_resource iid rid riid s = (ok v, s') \<Longrightarrow>
      resource_type_of s iid rid = Some t \<Longrightarrow> get_resource_type v = t"

sublocale single_object \<subseteq> object: lwm2m_object "\<lambda>_. True" "\<lambda>_. single_list_instances"
  "\<lambda>_. single_has_instance" "\<lambda>suggested s. (single_create_instance suggested, s)"
  "\<lambda>iid s. (single_delete_instance iid, s)" resource_type_of read_resource write_resource
  by unfold_locales
    (auto simp: single_list_instances_def single_has_instance_def single_create_instance_def
      single_delete_instance_def read_other write_other value_typed strong_type.expand)

end
