(* ===== verification/Instance_Table.thy ===== *)
theory Instance_Table
  imports Objects
begin

text \<open>
  The instance management that \<open>SecurityObject\<close> and \<open>ServerObject\<close> share: a table of
  instances and the next id to hand out. The locale states the contract of the two operations and
  proves its consequences once: which id a creation gets, when creations succeed, and the state
  in which they no longer do.
\<close>

locale instance_table =
  fixes insts :: "'s \<Rightarrow> (u16, 'i) umap"
    and next_id :: "'s \<Rightarrow> u16"
    and default :: 'i
    and create_instance :: "instance_id option \<Rightarrow> 's \<Rightarrow> instance_id result \<times> 's"
    and delete_instance :: "instance_id \<Rightarrow> 's \<Rightarrow> unit result \<times> 's"
  assumes create_taken: "strong_value (case suggested of None \<Rightarrow> Strong (next_id s) | Some i \<Rightarrow> i) = k \<Longrightarrow>
      umap_find (insts s) k \<noteq> None \<Longrightarrow>
      create_instance suggested s = (err E_BadRequest ''Instance already exists'', s)"
    and create_free: "strong_value (case suggested of None \<Rightarrow> Strong (next_id s) | Some i \<Rightarrow> i) = k \<Longrightarrow>
      umap_find (insts s) k = None \<Longrightarrow>
      \<exists>s'. create_instance suggested s = (ok (Strong k), s') \<and>
        insts s' = umap_set (insts s) k default \<and>
        next_id s' = (if k \<ge> next_id s then k + 1 else next_id s)"
    and delete_found: "umap_find (insts s) (strong_value iid) \<noteq> None \<Longrightarrow>
      \<exists>s'. delete_instance iid s = (ok (), s') \<and>
        insts s' = umap_erase (insts s) (strong_value iid) \<and> next_id s' = next_id s"
    and delete_missing: "umap_find (insts s) (strong_value iid) = None \<Longrightarrow>
      delete_instance iid s = (err E_NotFound ''Instance not found'', s)"
begin

text \<open>All ids in use are below the next one: true until the counter wraps around.\<close>

definition ids_below :: "'s \<Rightarrow> bool" where
  "ids_below s \<longleftrightarrow> (\<forall>k. umap_find (insts s) k \<noteq> None \<longrightarrow> k < next_id s)"

lemma ids_belowD: "ids_below s \<Longrightarrow> next_id s \<le> k \<Longrightarrow> umap_find (insts s) k = None"
  by (auto simp: ids_below_def not_le[symmetric])

lemma create_fresh:
  assumes "ids_below s"
  shows "\<exists>s'. create_instance None s = (ok (Strong (next_id s)), s') \<and>
    insts s' = umap_set (insts s) (next_id s) default \<and> next_id s' = next_id s + 1"
  using create_free [where suggested = None and s = s and k = "next_id s"]
    ids_belowD [OF assms order.refl] by simp

lemma create_ids_below:
  assumes "ids_below s" "next_id s \<noteq> - 1" "create_instance None s = (r, s')"
  shows "ids_below s'"
proof -
  obtain t where t: "create_instance None s = (ok (Strong (next_id s)), t)"
    "insts t = umap_set (insts s) (next_id s) default" "next_id t = next_id s + 1"
    using create_fresh [OF assms(1)] by blast
  have "1 + next_id s \<noteq> 0"
    using assms(2) by (metis add.commute max_word_wrap)
  then have less: "next_id s < next_id s + 1"
    by (simp add: word_less_nat_alt unatSuc add.commute)
  with t assms(1,3) show ?thesis
    by (fastforce simp: ids_below_def split: if_splits)
qed

lemma delete_ids_below:
  assumes "ids_below s" "delete_instance iid s = (r, s')"
  shows "ids_below s'"
proof (cases "umap_find (insts s) (strong_value iid) = None")
  case True
  with assms show ?thesis by (simp add: delete_missing)
next
  case False
  with delete_found [of s iid] obtain t where "delete_instance iid s = (ok (), t)"
    "insts t = umap_erase (insts s) (strong_value iid)" "next_id t = next_id s"
    by blast
  with assms show ?thesis by (simp add: ids_below_def)
qed

text \<open>
  With the highest id taken the counter has wrapped to zero; once zero is taken as well, no
  creation without a suggested id ever succeeds again, however many ids are free.
\<close>

lemma create_stuck:
  assumes "umap_find (insts s) (next_id s) \<noteq> None"
  shows "create_instance None s = (err E_BadRequest ''Instance already exists'', s)"
  using create_taken [where suggested = None and s = s and k = "next_id s"] assms by simp

lemma create_highest_wraps:
  assumes "umap_find (insts s) (- 1) = None"
  shows "\<exists>s'. create_instance (Some (Strong (- 1))) s = (ok (Strong (- 1)), s') \<and>
    insts s' = umap_set (insts s) (- 1) default \<and> next_id s' = 0"
  using create_free [where suggested = "Some (Strong (- 1))" and s = s and k = "- 1"] assms
  by simp

text \<open>So an object whose instance zero is in use refuses every creation after the highest one.\<close>

lemma create_after_wrap:
  assumes "umap_find (insts s) (- 1) = None" "umap_find (insts s) 0 \<noteq> None"
  shows "\<exists>s'. create_instance (Some (Strong (- 1))) s = (ok (Strong (- 1)), s') \<and>
    create_instance None s' = (err E_BadRequest ''Instance already exists'', s')"
proof -
  obtain s' where "create_instance (Some (Strong (- 1))) s = (ok (Strong (- 1)), s')"
    "insts s' = umap_set (insts s) (- 1) default" "next_id s' = 0"
    using create_highest_wraps [OF assms(1)] by blast
  with create_stuck [of s'] assms(2) show ?thesis by simp
qed

end


lemma strong_value_eq: "strong_value a = strong_value b \<longleftrightarrow> a = b"
  by (cases a; cases b) simp

section \<open>Objects with a table of instances\<close>

text \<open>
  The rest of what the two objects share: an operation looks the instance up, answers NotFound
  when it is not there, and otherwise reads or stores one member of it. The contract gives the
  interface of all objects.
\<close>

locale table_object =
  instance_table insts next_id default create_instance delete_instance
  for insts :: "'s \<Rightarrow> (u16, 'i) umap"
    and next_id :: "'s \<Rightarrow> u16"
    and default :: 'i
    and create_instance :: "instance_id option \<Rightarrow> 's \<Rightarrow> instance_id result \<times> 's"
    and delete_instance :: "instance_id \<Rightarrow> 's \<Rightarrow> unit result \<times> 's" +
  fixes list_instances :: "'s \<Rightarrow> instance_id list"
    and has_instance :: "'s \<Rightarrow> instance_id \<Rightarrow> bool"
    and resource_type_at :: "resource_id \<Rightarrow> resource_type option"
    and read_resource ::
      "'s \<Rightarrow> instance_id \<Rightarrow> resource_id \<Rightarrow> resource_instance_id option \<Rightarrow> resource_value result"
    and write_resource ::
      "instance_id \<Rightarrow> resource_id \<Rightarrow> resource_instance_id option \<Rightarrow> resource_value \<Rightarrow> 's \<Rightarrow>
       unit result \<times> 's"
    and load :: "resource_id \<Rightarrow> 'i \<Rightarrow> resource_value result"
    and store :: "resource_id \<Rightarrow> resource_value \<Rightarrow> 'i \<Rightarrow> 'i result"
  assumes list_eq: "list_instances s = map Strong (umap_keys (insts s))"
    and has_eq: "has_instance s iid \<longleftrightarrow> umap_find (insts s) (strong_value iid) \<noteq> None"
    and read_missing: "umap_find (insts s) (strong_value iid) = None \<Longrightarrow>
      read_resource s iid rid riid = err E_NotFound ''Instance not found''"
    and read_found: "umap_find (insts s) (strong_value iid) = Some i \<Longrightarrow>
      read_resource s iid rid riid = load rid i"
    and write_missing: "umap_find (insts s) (strong_value iid) = None \<Longrightarrow>
      write_resource iid rid riid v s = (err E_NotFound ''Instance not found'', s)"
    and write_refused: "umap_find (insts s) (strong_value iid) = Some i \<Longrightarrow>
      store rid v i = Inl e \<Longrightarrow> write_resource iid rid riid v s = (Inl e, s)"
    and write_stored: "umap_find (insts s) (strong_value iid) = Some i \<Longrightarrow>
      store rid v i = ok i' \<Longrightarrow>
      \<exists>s'. write_resource iid rid riid v s = (ok (), s') \<and>
        insts s' = umap_set (insts s) (strong_value iid) i' \<and> next_id s' = next_id s"
    and load_typed: "load rid i = ok x \<Longrightarrow> resource_type_at rid = Some t \<Longrightarrow>
      get_resource_type x = t"
    and store_other: "store rid v i = ok i' \<Longrightarrow> rid' \<noteq> rid \<Longrightarrow> load rid' i' = load rid' i"
begin

text \<open>A write changes the one resource it names: every other one reads as before.\<close>

lemma write_frame:
  assumes "write_resource iid rid riid v s = (w, s')" "(iid', rid') \<noteq> (iid, rid)"
  shows "read_resource s' iid' rid' riid' = read_resource s iid' rid' riid'"
proof (cases "umap_find (insts s) (strong_value iid)")
  case None
  with assms(1) show ?thesis by (simp add: write_missing)
next
  case (Some i)
  show ?thesis
  proof (cases "store rid v i")
    case (Inl e)
    with Some assms(1) show ?thesis by (simp add: write_refused)
  next
    case (Inr i')
    with Some assms(1) have s': "insts s' = umap_set (insts s) (strong_value iid) i'"
      using write_stored [of s iid i rid v i' riid] by auto
    show ?thesis
    proof (cases "iid' = iid")
      case True
      with assms(2) have "load rid' i' = load rid' i" using store_other [OF Inr] by auto
      with True s' Some show ?thesis by (simp add: read_found)
    next
      case False
      then have "strong_value iid' \<noteq> strong_value iid" by (auto simp: strong_type.expand)
      with s' show ?thesis
        by (cases "umap_find (insts s) (strong_value iid')") (simp_all add: read_missing read_found)
    qed
  qed
qed

lemma write_keeps_table:
  assumes "umap_wf (insts s)" "write_resource iid rid riid v s = (w, s')"
  shows "umap_wf (insts s') \<and> has_instance s' = has_instance s \<and> next_id s' = next_id s"
proof (cases "umap_find (insts s) (strong_value iid)")
  case None
  with assms show ?thesis by (simp add: write_missing)
next
  case (Some i)
  show ?thesis
  proof (cases "store rid v i")
    case (Inl e)
    with Some assms show ?thesis by (simp add: write_refused)
  next
    case (Inr i')
    with Some assms(2) have s': "insts s' = umap_set (insts s) (strong_value iid) i'"
      "next_id s' = next_id s"
      using write_stored [of s iid i rid v i' riid] by auto
    have "has_instance s' x = has_instance s x" for x
      using Some by (simp add: has_eq s'(1))
    with s' assms(1) show ?thesis by (simp add: fun_eq_iff)
  qed
qed

lemma create_table:
  assumes "umap_wf (insts s)" "create_instance suggested s = (ok iid, s')"
  shows "umap_wf (insts s') \<and> \<not> has_instance s iid \<and> has_instance s' = (has_instance s)(iid := True)"
proof -
  define k where "k = strong_value (case suggested of None \<Rightarrow> Strong (next_id s) | Some i \<Rightarrow> i)"
  have free: "umap_find (insts s) k = None"
    using assms(2) create_taken [OF k_def [symmetric]] by (cases "umap_find (insts s) k") auto
  from create_free [OF k_def [symmetric] free] assms(2)
  have s': "iid = Strong k" "insts s' = umap_set (insts s) k default" by auto
  have "has_instance s' x = ((has_instance s)(iid := True)) x" for x
    by (cases x) (simp add: has_eq s')
  with assms(1) free s' show ?thesis by (simp add: fun_eq_iff has_eq)
qed

lemma create_refused:
  assumes "create_instance suggested s = (Inl e, s')"
  shows "s' = s"
proof -
  define k where "k = strong_value (case suggested of None \<Rightarrow> Strong (next_id s) | Some i \<Rightarrow> i)"
  show ?thesis
    using assms create_taken [OF k_def [symmetric]] create_free [OF k_def [symmetric]]
    by (cases "umap_find (insts s) k") auto
qed

lemma delete_table:
  assumes "umap_wf (insts s)" "delete_instance iid s = (ok u, s')"
  shows "umap_wf (insts s') \<and> has_instance s iid \<and> has_instance s' = (has_instance s)(iid := False)"
proof -
  have found: "umap_find (insts s) (strong_value iid) \<noteq> None"
    using assms(2) delete_missing [of s iid] by auto
  from delete_found [OF found] assms(2)
  have s': "insts s' = umap_erase (insts s) (strong_value iid)" by auto
  have "has_instance s' x = ((has_instance s)(iid := False)) x" for x
    by (simp add: has_eq s' strong_value_eq)
  with assms(1) found s' show ?thesis by (simp add: fun_eq_iff has_eq)
qed

lemma delete_refused:
  assumes "delete_instance iid s = (Inl e, s')"
  shows "s' = s"
  using assms delete_found [of s iid] delete_missing [of s iid]
  by (cases "umap_find (insts s) (strong_value iid)") auto

end

sublocale table_object \<subseteq> object: lwm2m_object "\<lambda>s. umap_wf (insts s)" list_instances has_instance
  create_instance delete_instance "\<lambda>s iid rid. resource_type_at rid"
  "\<lambda>iid rid riid s. (read_resource s iid rid riid, s)" write_resource
proof
  fix s iid
  assume wf: "umap_wf (insts s)"
  then show "distinct (list_instances s)"
    by (simp add: list_eq distinct_map inj_on_def)
  show "iid \<in> set (list_instances s) \<longleftrightarrow> has_instance s iid"
    using umap_find_None_iff [of "insts s" "strong_value iid"]
    by (cases iid) (auto simp: list_eq has_eq)
next
  fix s iid rid riid
  assume "\<not> has_instance s iid"
  then have "umap_find (insts s) (strong_value iid) = None" by (simp add: has_eq)
  then show "(read_resource s iid rid riid, s) = (err E_NotFound ''Instance not found'', s)"
    "write_resource iid rid riid v s = (err E_NotFound ''Instance not found'', s)" for v
    by (simp_all add: read_missing write_missing)
next
  fix s iid rid riid v s' t
  assume "(read_resource s iid rid riid, s) = (ok v, s')" "resource_type_at rid = Some t"
  then show "get_resource_type v = t"
    by (cases "umap_find (insts s) (strong_value iid)")
      (auto simp: read_missing read_found dest: load_typed)
next
  fix s iid rid riid v w s'
  assume "umap_wf (insts s)" "write_resource iid rid riid v s = (w, s')"
  then show "umap_wf (insts s') \<and> has_instance s' = has_instance s"
    using write_keeps_table by blast
next
  fix s iid rid riid r s'
  assume "umap_wf (insts s)" "(read_resource s iid rid riid, s) = (r, s')"
  then show "umap_wf (insts s') \<and> has_instance s' = has_instance s" by simp
qed (erule (1) create_table, erule create_refused, erule (1) delete_table, erule delete_refused)

end
