(* ===== verification/Coap_Types.thy ===== *)
theory Coap_Types
  imports Results
begin

text \<open>
  The types of \<open>include/lwm2m/transport/coap_client.hpp\<close>: methods, response codes, content
  formats, requests and responses with their observers, and the connection configuration; and the
  two name functions of \<open>src/transport/coap_client.cpp\<close>.
\<close>

section \<open>Enumerations\<close>

datatype coap_method = Get | Post | Put | Delete

text \<open>
  \<open>CoapCode\<close> is an \<open>enum class : uint8_t\<close> that the transport fills with
  \<open>static_cast\<close> from the code on the wire, so that any byte can occur: it is the byte.
\<close>

datatype coap_code = CoapCode (code_byte: u8)

definition C_Created :: coap_code where "C_Created = CoapCode 65"
definition C_Deleted :: coap_code where "C_Deleted = CoapCode 66"
definition C_Valid :: coap_code where "C_Valid = CoapCode 67"
definition C_Changed :: coap_code where "C_Changed = CoapCode 68"
definition C_Content :: coap_code where "C_Content = CoapCode 69"
definition C_BadRequest :: coap_code where "C_BadRequest = CoapCode 128"
definition C_Unauthorized :: coap_code where "C_Unauthorized = CoapCode 129"
definition C_BadOption :: coap_code where "C_BadOption = CoapCode 130"
definition C_Forbidden :: coap_code where "C_Forbidden = CoapCode 131"
definition C_NotFound :: coap_code where "C_NotFound = CoapCode 132"
definition C_MethodNotAllowed :: coap_code where "C_MethodNotAllowed = CoapCode 133"
definition C_NotAcceptable :: coap_code where "C_NotAcceptable = CoapCode 134"
definition C_InternalServerError :: coap_code where "C_InternalServerError = CoapCode 160"
definition C_NotImplemented :: coap_code where "C_NotImplemented = CoapCode 161"
definition C_BadGateway :: coap_code where "C_BadGateway = CoapCode 162"
definition C_ServiceUnavailable :: coap_code where "C_ServiceUnavailable = CoapCode 163"
definition C_GatewayTimeout :: coap_code where "C_GatewayTimeout = CoapCode 164"

lemmas coap_code_defs = C_Created_def C_Deleted_def C_Valid_def C_Changed_def C_Content_def
  C_BadRequest_def C_Unauthorized_def C_BadOption_def C_Forbidden_def C_NotFound_def
  C_MethodNotAllowed_def C_NotAcceptable_def C_InternalServerError_def C_NotImplemented_def
  C_BadGateway_def C_ServiceUnavailable_def C_GatewayTimeout_def

text \<open>\<open>ContentFormat\<close> is an \<open>enum class : uint16_t\<close>, also filled from the wire.\<close>

datatype content_format = ContentFormat (format_number: u16)

definition F_TextPlain :: content_format where "F_TextPlain = ContentFormat 0"
definition F_LinkFormat :: content_format where "F_LinkFormat = ContentFormat 40"
definition F_Xml :: content_format where "F_Xml = ContentFormat 41"
definition F_OctetStream :: content_format where "F_OctetStream = ContentFormat 42"
definition F_Json :: content_format where "F_Json = ContentFormat 50"
definition F_Cbor :: content_format where "F_Cbor = ContentFormat 60"
definition F_TlvLwm2m :: content_format where "F_TlvLwm2m = ContentFormat 11542"
definition F_JsonLwm2m :: content_format where "F_JsonLwm2m = ContentFormat 11543"
definition F_SenmlJson :: content_format where "F_SenmlJson = ContentFormat 110"
definition F_SenmlCbor :: content_format where "F_SenmlCbor = ContentFormat 112"

section \<open>Requests and responses\<close>

type_synonym coap_options = "(u16 \<times> bytes) list"

record coap_request =
  req_method :: coap_method
  req_uri_path :: string
  req_options :: coap_options
  req_payload :: bytes
  req_content_format :: content_format

text \<open>
  \<open>CoapResponse response;\<close> leaves \<open>code\<close> uninitialised: the member has no initialiser.
  \<open>None\<close> is that indeterminate value.
\<close>

record coap_response =
  resp_code :: "coap_code option"
  resp_content_format :: content_format
  resp_options :: coap_options
  resp_payload :: bytes

definition default_response :: coap_response where
  "default_response = \<lparr>resp_code = None, resp_content_format = F_TlvLwm2m, resp_options = [],
     resp_payload = []\<rparr>"

definition respond :: "coap_code \<Rightarrow> coap_response" where
  "respond c = default_response\<lparr>resp_code := Some c\<rparr>"

lemma respond_sel [simp]: "resp_code (respond c) = Some c" "resp_payload (respond c) = []"
  by (simp_all add: respond_def default_response_def)

definition code_is_success :: "coap_code \<Rightarrow> bool" where
  "code_is_success c \<longleftrightarrow> code_byte c \<ge> 64 \<and> code_byte c < 128"

text \<open>\<open>is_success\<close> on a response whose code is set, as every response from the network is.\<close>

definition is_success :: "coap_response \<Rightarrow> bool" where
  "is_success r = (case resp_code r of None \<Rightarrow> False | Some c \<Rightarrow> code_is_success c)"

text \<open>The loop over the options, joining the Location-Path values (option 8) with slashes.\<close>

fun location_loop :: "coap_options \<Rightarrow> string \<Rightarrow> string" where
  "location_loop [] location = location"
| "location_loop ((num, v) # opts) location =
     (if num = 8 then
        location_loop opts ((if location \<noteq> [] then location @ ''/'' else location) @ string_of_bytes v)
      else location_loop opts location)"

definition get_location_path :: "coap_response \<Rightarrow> string" where
  "get_location_path r =
     (let location = location_loop (resp_options r) []
      in if location = [] then location else ''/'' @ location)"

section \<open>Connection configuration\<close>

record psk_credentials =
  psk_identity :: string
  psk_key :: bytes

record rpk_credentials =
  rpk_public_key :: bytes
  rpk_private_key :: bytes
  rpk_server_public_key :: bytes

datatype security_mode = NoSec | Psk | Rpk | Certificate

record connection_config =
  cfg_server_uri :: string
  cfg_port :: u16
  cfg_security_mode :: security_mode
  cfg_psk :: "psk_credentials option"
  cfg_rpk :: "rpk_credentials option"
  cfg_ack_timeout :: int
  cfg_exchange_lifetime :: int
  cfg_max_retransmit :: u8

definition default_connection_config :: connection_config where
  "default_connection_config = \<lparr>cfg_server_uri = [], cfg_port = 5683, cfg_security_mode = NoSec,
     cfg_psk = None, cfg_rpk = None, cfg_ack_timeout = 2, cfg_exchange_lifetime = 247,
     cfg_max_retransmit = 4\<rparr>"

section \<open>Names\<close>

fun coap_method_to_string :: "coap_method \<Rightarrow> string" where
  "coap_method_to_string Get = ''GET''"
| "coap_method_to_string Post = ''POST''"
| "coap_method_to_string Put = ''PUT''"
| "coap_method_to_string Delete = ''DELETE''"

definition coap_code_to_string :: "coap_code \<Rightarrow> string" where
  "coap_code_to_string c =
     (if c = C_Created then ''2.01 Created''
      else if c = C_Deleted then ''2.02 Deleted''
      else if c = C_Valid then ''2.03 Valid''
      else if c = C_Changed then ''2.04 Changed''
      else if c = C_Content then ''2.05 Content''
      else if c = C_BadRequest then ''4.00 Bad Request''
      else if c = C_Unauthorized then ''4.01 Unauthorized''
      else if c = C_BadOption then ''4.02 Bad Option''
      else if c = C_Forbidden then ''4.03 Forbidden''
      else if c = C_NotFound then ''4.04 Not Found''
      else if c = C_MethodNotAllowed then ''4.05 Method Not Allowed''
      else if c = C_NotAcceptable then ''4.06 Not Acceptable''
      else if c = C_InternalServerError then ''5.00 Internal Server Error''
      else if c = C_NotImplemented then ''5.01 Not Implemented''
      else if c = C_BadGateway then ''5.02 Bad Gateway''
      else if c = C_ServiceUnavailable then ''5.03 Service Unavailable''
      else if c = C_GatewayTimeout then ''5.04 Gateway Timeout''
      else ''Unknown'')"

text \<open>
  The location path is the Location-Path segments joined with slashes after a leading slash, and
  empty when there is none; only a leading run of empty segments leaves no trace.
\<close>

definition location_segments :: "coap_options \<Rightarrow> string list" where
  "location_segments opts = map (\<lambda>(_, v). string_of_bytes v) (filter (\<lambda>(n, _). n = 8) opts)"

fun join_with :: "string \<Rightarrow> string list \<Rightarrow> string" where
  "join_with sep [] = []"
| "join_with sep [s] = s"
| "join_with sep (s # ss) = s @ sep @ join_with sep ss"

lemma location_loop_started:
  "location \<noteq> [] \<Longrightarrow> location_loop opts location = join_with ''/'' (location # location_segments opts)"
proof (induction opts location rule: location_loop.induct)
  case (1 location)
  then show ?case by (simp add: location_segments_def)
next
  case (2 num v opts location)
  then show ?case
    by (cases "location_segments opts") (simp_all add: location_segments_def)
qed

lemma get_location_path_segments:
  assumes "location_segments (resp_options r) = s # ss" "s \<noteq> []"
  shows "get_location_path r = ''/'' @ join_with ''/'' (s # ss)"
proof -
  have "location_segments opts = s # ss \<Longrightarrow> location_loop opts [] = join_with ''/'' (s # ss)" for opts
  proof (induction opts)
    case (Cons x opts)
    obtain n v where x: "x = (n, v)" by (cases x)
    show ?case
    proof (cases "n = 8")
      case True
      with Cons.prems x have s: "s = string_of_bytes v" "ss = location_segments opts"
        by (simp_all add: location_segments_def)
      with assms(2) True x show ?thesis by (simp add: location_loop_started)
    next
      case False
      with Cons x show ?thesis by (simp add: location_segments_def)
    qed
  qed (simp add: location_segments_def)
  moreover have "join_with ''/'' (s # ss) \<noteq> []" using assms(2) by (cases ss) simp_all
  ultimately show ?thesis using assms(1) by (simp add: get_location_path_def)
qed

end
