(* ===== verification/Security_Object.thy ===== *)
theory Security_Object
  imports Instance_Table Coap_Types
begin

text \<open>
  \<open>include/lwm2m/objects/security.hpp\<close> and \<open>src/objects/security.cpp\<close>: the Security
  object (ID 0), its table of instances, the typed access to their resources, and the conversion
  of an instance to the configuration of a connection.
\<close>

section \<open>State\<close>

text \<open>
  \<open>SecurityModeValue\<close> is an \<open>enum class : uint8_t\<close> into which the write handler casts
  any integer: it is the byte.
\<close>

datatype security_mode_value = SecurityModeValue (mode_byte: u8)

definition SM_PreSharedKey :: security_mode_value where "SM_PreSharedKey = SecurityModeValue 0"
definition SM_RawPublicKey :: security_mode_value where "SM_RawPublicKey = SecurityModeValue 1"
definition SM_Certificate :: security_mode_value where "SM_Certificate = SecurityModeValue 2"
definition SM_NoSec :: security_mode_value where "SM_NoSec = SecurityModeValue 3"
definition SM_CertificateWithEst :: security_mode_value where
  "SM_CertificateWithEst = SecurityModeValue 4"

lemmas security_mode_defs = SM_PreSharedKey_def SM_RawPublicKey_def SM_Certificate_def SM_NoSec_def
  SM_CertificateWithEst_def

record security_instance =
  sec_server_uri :: string
  sec_bootstrap_server :: bool
  sec_security_mode :: security_mode_value
  sec_public_key_identity :: bytes
  sec_server_public_key :: bytes
  sec_secret_key :: bytes
  sec_sms_security_mode :: u8
  sec_sms_key_parameters :: bytes
  sec_sms_secret_key :: bytes
  sec_sms_server_number :: string
  sec_short_server_id :: u16
  sec_client_hold_off_time :: u32
  sec_bootstrap_timeout :: u32

definition default_security_instance :: security_instance where
  "default_security_instance = \<lparr>sec_server_uri = [], sec_bootstrap_server = False,
     sec_security_mode = SM_NoSec, sec_public_key_identity = [], sec_server_public_key = [],
     sec_secret_key = [], sec_sms_security_mode = 255, sec_sms_key_parameters = [],
     sec_sms_secret_key = [], sec_sms_server_number = [], sec_short_server_id = 0,
     sec_client_hold_off_time = 0, sec_bootstrap_timeout = 0\<rparr>"

record security_object =
  sec_instances :: "(u16, security_instance) umap"
  sec_next_instance_id :: u16

definition security_init :: security_object where
  "security_init = \<lparr>sec_instances = [], sec_next_instance_id = 0\<rparr>"

section \<open>Instances\<close>

definition security_list_instances :: "security_object \<Rightarrow> instance_id list" where
  "security_list_instances s = map (\<lambda>(k, _). Strong k) (sec_instances s)"

definition security_has_instance :: "security_object \<Rightarrow> instance_id \<Rightarrow> bool" where
  "security_has_instance s iid \<longleftrightarrow> umap_find (sec_instances s) (strong_value iid) \<noteq> None"

definition security_create_instance ::
  "instance_id option \<Rightarrow> security_object \<Rightarrow> instance_id result \<times> security_object" where
  "security_create_instance suggested s =
     (let new_id = strong_value (case suggested of None \<Rightarrow> Strong (sec_next_instance_id s) | Some i \<Rightarrow> i)
      in if umap_find (sec_instances s) new_id \<noteq> None
         then (err E_BadRequest ''Instance already exists'', s)
         else
           let s1 = s\<lparr>sec_instances := umap_set (sec_instances s) new_id default_security_instance\<rparr>;
               s2 = (if new_id \<ge> sec_next_instance_id s1
                     then s1\<lparr>sec_next_instance_id := new_id + 1\<rparr> else s1)
           in (ok (Strong new_id), s2))"

definition security_delete_instance ::
  "instance_id \<Rightarrow> security_object \<Rightarrow> unit result \<times> security_object" where
  "security_delete_instance iid s =
     (case umap_find (sec_instances s) (strong_value iid) of
        None \<Rightarrow> (err E_NotFound ''Instance not found'', s)
      | Some _ \<Rightarrow> (ok (), s\<lparr>sec_instances := umap_erase (sec_instances s) (strong_value iid)\<rparr>))"

section \<open>Resources\<close>

definition security_list_resources :: "instance_id \<Rightarrow> resource_id list" where
  "security_list_resources iid = map Strong [0, 1, 2, 3, 4, 5, 10, 11, 12]"

definition security_resource_type :: "resource_id \<Rightarrow> resource_type option" where
  "security_resource_type rid =
     (let n = strong_value rid
      in if n = 0 \<or> n = 9 then Some T_String
         else if n = 1 then Some T_Boolean
         else if n = 2 \<or> n = 6 \<or> n = 10 \<or> n = 11 \<or> n = 12 then Some T_Integer
         else if n = 3 \<or> n = 4 \<or> n = 5 \<or> n = 7 \<or> n = 8 then Some T_Opaque
         else None)"

text \<open>The two switches over the resource id, on the instance that was found.\<close>

definition security_load :: "resource_id \<Rightarrow> security_instance \<Rightarrow> resource_value result" where
  "security_load rid i =
     (let n = strong_value rid
      in if n = 0 then ok (V_String (sec_server_uri i))
         else if n = 1 then ok (V_Bool (sec_bootstrap_server i))
         else if n = 2 then ok (V_Int (ucast (mode_byte (sec_security_mode i))))
         else if n = 3 then ok (V_Opaque (sec_public_key_identity i))
         else if n = 4 then ok (V_Opaque (sec_server_public_key i))
         else if n = 5 then ok (V_Opaque (sec_secret_key i))
         else if n = 10 then ok (V_Int (ucast (sec_short_server_id i)))
         else if n = 11 then ok (V_Int (ucast (sec_client_hold_off_time i)))
         else if n = 12 then ok (V_Int (ucast (sec_bootstrap_timeout i)))
         else err E_NotFound ''Resource not found'')"

text \<open>
  The switch of \<open>write_resource\<close>: the instance with the member assigned, NotFound in the
  default case, and BadRequest where \<open>std::get_if\<close> finds another alternative of the variant.
\<close>

definition security_store ::
  "resource_id \<Rightarrow> resource_value \<Rightarrow> security_instance \<Rightarrow> security_instance result" where
  "security_store rid v i =
     (let n = strong_value rid; bad = err E_BadRequest ''Invalid value type''
      in if n = 0 then (case v of V_String x \<Rightarrow> ok (i\<lparr>sec_server_uri := x\<rparr>) | _ \<Rightarrow> bad)
         else if n = 1 then (case v of V_Bool b \<Rightarrow> ok (i\<lparr>sec_bootstrap_server := b\<rparr>) | _ \<Rightarrow> bad)
         else if n = 2 then
           (case v of V_Int x \<Rightarrow> ok (i\<lparr>sec_security_mode := SecurityModeValue (ucast x)\<rparr>) | _ \<Rightarrow> bad)
         else if n = 3 then
           (case v of V_Opaque x \<Rightarrow> ok (i\<lparr>sec_public_key_identity := x\<rparr>) | _ \<Rightarrow> bad)
         else if n = 4 then
           (case v of V_Opaque x \<Rightarrow> ok (i\<lparr>sec_server_public_key := x\<rparr>) | _ \<Rightarrow> bad)
         else if n = 5 then (case v of V_Opaque x \<Rightarrow> ok (i\<lparr>sec_secret_key := x\<rparr>) | _ \<Rightarrow> bad)
         else if n = 10 then
           (case v of V_Int x \<Rightarrow> ok (i\<lparr>sec_short_server_id := ucast x\<rparr>) | _ \<Rightarrow> bad)
         else if n = 11 then
           (case v of V_Int x \<Rightarrow> ok (i\<lparr>sec_client_hold_off_time := ucast x\<rparr>) | _ \<Rightarrow> bad)
         else if n = 12 then
           (case v of V_Int x \<Rightarrow> ok (i\<lparr>sec_bootstrap_timeout := ucast x\<rparr>) | _ \<Rightarrow> bad)
         else err E_NotFound ''Resource not found'')"

definition security_read_resource ::
  "security_object \<Rightarrow> instance_id \<Rightarrow> resource_id \<Rightarrow> resource_instance_id option \<Rightarrow>
   resource_value result" where
  "security_read_resource s iid rid riid =
     (case umap_find (sec_instances s) (strong_value iid) of
        None \<Rightarrow> err E_NotFound ''Instance not found''
      | Some i \<Rightarrow> security_load rid i)"

definition security_write_resource ::
  "instance_id \<Rightarrow> resource_id \<Rightarrow> resource_instance_id option \<Rightarrow> resource_value \<Rightarrow> security_object \<Rightarrow>
   unit result \<times> security_object" where
  "security_write_resource iid rid riid v s =
     (case umap_find (sec_instances s) (strong_value iid) of
        None \<Rightarrow> (err E_NotFound ''Instance not found'', s)
      | Some i \<Rightarrow>
          (case security_store rid v i of
             Inl e \<Rightarrow> (Inl e, s)
           | Inr i' \<Rightarrow> (ok (), s\<lparr>sec_instances := umap_set (sec_instances s) (strong_value iid) i'\<rparr>)))"

section \<open>High-level interface\<close>

definition security_add_server ::
  "security_instance \<Rightarrow> security_object \<Rightarrow> instance_id result \<times> security_object" where
  "security_add_server config s =
     (case security_create_instance None s of
        (Inl e, s1) \<Rightarrow> (Inl e, s1)
      | (Inr iid, s1) \<Rightarrow>
          (Inr iid, s1\<lparr>sec_instances := umap_set (sec_instances s1) (strong_value iid) config\<rparr>))"

definition security_get_instance :: "security_object \<Rightarrow> instance_id \<Rightarrow> security_instance option" where
  "security_get_instance s iid = umap_find (sec_instances s) (strong_value iid)"

fun find_security_by_ssid :: "(u16, security_instance) umap \<Rightarrow> u16 \<Rightarrow> security_instance option" where
  "find_security_by_ssid [] ssid = None"
| "find_security_by_ssid ((_, i) # rest) ssid =
     (if sec_short_server_id i = ssid then Some i else find_security_by_ssid rest ssid)"

definition security_find_by_short_server_id :: "security_object \<Rightarrow> u16 \<Rightarrow> security_instance option" where
  "security_find_by_short_server_id s ssid = find_security_by_ssid (sec_instances s) ssid"

text \<open>A mode outside the enumeration leaves the default, as the switch has no default case.\<close>

definition to_connection_config :: "security_object \<Rightarrow> instance_id \<Rightarrow> connection_config" where
  "to_connection_config s iid =
     (let config = default_connection_config
      in case umap_find (sec_instances s) (strong_value iid) of
           None \<Rightarrow> config
         | Some i \<Rightarrow>
             let config = config\<lparr>cfg_server_uri := sec_server_uri i\<rparr>
             in if sec_security_mode i = SM_NoSec then config\<lparr>cfg_security_mode := NoSec\<rparr>
                else if sec_security_mode i = SM_PreSharedKey then
                  config\<lparr>cfg_security_mode := Psk,
                    cfg_psk := Some \<lparr>psk_identity = string_of_bytes (sec_public_key_identity i),
                      psk_key = sec_secret_key i\<rparr>\<rparr>
                else if sec_security_mode i = SM_RawPublicKey then
                  config\<lparr>cfg_security_mode := Rpk,
                    cfg_rpk := Some \<lparr>rpk_public_key = sec_public_key_identity i,
                      rpk_private_key = sec_secret_key i,
                      rpk_server_public_key = sec_server_public_key i\<rparr>\<rparr>
                else if sec_security_mode i = SM_Certificate \<or> sec_security_mode i = SM_CertificateWithEst
                  then config\<lparr>cfg_security_mode := Certificate\<rparr>
                else config)"

section \<open>The contracts\<close>

lemmas security_spec_defs [spec_defs] = security_create_instance_def security_delete_instance_def
  security_list_instances_def security_has_instance_def security_read_resource_def
  security_write_resource_def

lemma security_load_typed:
  "security_load rid i = ok x \<Longrightarrow> security_resource_type rid = Some t \<Longrightarrow> get_resource_type x = t"
  by (auto simp: security_load_def security_resource_type_def Let_def split: if_splits)

lemma security_store_other:
  assumes "security_store rid v i = ok i'" "rid' \<noteq> rid"
  shows "security_load rid' i' = security_load rid' i"
proof -
  have "strong_value rid' \<noteq> strong_value rid" using assms(2) by (simp add: strong_value_eq)
  with assms(1) show ?thesis
    by (auto simp: security_store_def security_load_def Let_def
        split: if_splits resource_value.splits)
qed

interpretation security: table_object sec_instances sec_next_instance_id default_security_instance
  security_create_instance security_delete_instance security_list_instances security_has_instance
  security_resource_type security_read_resource security_write_resource security_load security_store
  by unfold_locales
    (auto simp: spec_defs Let_def security_load_typed security_store_other case_prod_beta
      split: option.splits if_splits)

text \<open>
  A value of the right alternative is stored as it is, except that an integer is cut to the width
  of the member: it reads back unchanged exactly when it fits.
\<close>

lemma security_load_store:
  assumes "security_store rid v i = ok i'"
  shows "security_load rid i' = ok (case v of
      V_Int x \<Rightarrow> V_Int (take_bit (if strong_value rid = 2 then 8 else if strong_value rid = 10 then 16 else 32) x)
    | _ \<Rightarrow> v)"
  using assms
  by (auto simp: security_store_def security_load_def Let_def ucast_cut
      split: if_splits resource_value.splits)

section \<open>Properties\<close>

text \<open>a write of the server changes the one resource of the one instance it names: every other
  resource of every instance reads as before, also after a refused write.\<close>

theorem security_write_isolated:
  assumes "security_write_resource iid rid riid v s = (w, s')" "(iid', rid') \<noteq> (iid, rid)"
  shows "security_read_resource s' iid' rid' riid' = security_read_resource s iid' rid' riid'"
  by (rule security.write_frame [OF assms])

theorem security_write_isolated_witness:
  "security_read_resource
     (snd (security_write_resource (Strong 0) (Strong 0) None (V_String ''coap://a'')
        (snd (security_create_instance None security_init)))) (Strong 0) (Strong 1) None = ok (V_Bool False)"
proof -
  define s where "s = snd (security_create_instance None security_init)"
  obtain w s' where w: "security_write_resource (Strong 0) (Strong 0) None (V_String ''coap://a'') s = (w, s')"
    by (cases "security_write_resource (Strong 0) (Strong 0) None (V_String ''coap://a'') s")
  have "security_read_resource s (Strong 0) (Strong 1) None = ok (V_Bool False)"
    by (simp add: s_def security_create_instance_def security_init_def security_read_resource_def
        security_load_def default_security_instance_def)
  with security_write_isolated [OF w, of "Strong 0" "Strong 1" None] w show ?thesis
    by (simp add: s_def)
qed

text \<open>An accepted write reads back as the value written, an integer cut to the low bits its
  member holds (8 for the security mode, 16 for the short server id, 32 for the times).\<close>

theorem security_write_read:
  assumes "security_write_resource iid rid riid v s = (ok (), s')"
  shows "security_read_resource s' iid rid riid' = ok (case v of
      V_Int x \<Rightarrow> V_Int (take_bit (if strong_value rid = 2 then 8 else if strong_value rid = 10 then 16 else 32) x)
    | _ \<Rightarrow> v)"
proof -
  obtain i where i: "umap_find (sec_instances s) (strong_value iid) = Some i"
    using assms by (cases "umap_find (sec_instances s) (strong_value iid)")
      (simp_all add: security_write_resource_def)
  obtain i' where i': "security_store rid v i = ok i'"
    using assms i by (cases "security_store rid v i") (simp_all add: security_write_resource_def)
  with assms i have "s' = s\<lparr>sec_instances := umap_set (sec_instances s) (strong_value iid) i'\<rparr>"
    by (simp add: security_write_resource_def)
  then show ?thesis by (simp add: security_read_resource_def security_load_store [OF i'])
qed

theorem security_write_read_witness:
  "security_read_resource
     (snd (security_write_resource (Strong 0) (Strong 10) None (V_Int 65637)
        (snd (security_create_instance None security_init)))) (Strong 0) (Strong 10) None = ok (V_Int 101)"
proof -
  define s where "s = snd (security_create_instance None security_init)"
  have "security_write_resource (Strong 0) (Strong 10) None (V_Int 65637) s =
      (ok (), snd (security_write_resource (Strong 0) (Strong 10) None (V_Int 65637) s))"
    by (simp add: s_def security_create_instance_def security_init_def security_write_resource_def
        security_store_def)
  from security_write_read [OF this] show ?thesis
    by (simp add: s_def take_bit_eq_mod)
qed

text \<open>Once the highest instance id has been given out, the counter has wrapped to zero, and
  with instance zero in use every later creation without a suggested id is refused, however many
  ids are free.\<close>

theorem security_creation_exhausted:
  assumes "umap_find (sec_instances s) (- 1) = None" "umap_find (sec_instances s) 0 \<noteq> None"
  shows "\<exists>s'. security_create_instance (Some (Strong (- 1))) s = (ok (Strong (- 1)), s') \<and>
    security_create_instance None s' = (err E_BadRequest ''Instance already exists'', s')"
  by (rule security.create_after_wrap [OF assms])

theorem security_creation_exhausted_witness:
  "\<exists>s'. security_create_instance (Some (Strong (- 1))) (snd (security_create_instance None security_init)) =
      (ok (Strong (- 1)), s') \<and>
    security_create_instance None s' = (err E_BadRequest ''Instance already exists'', s')"
  by (rule security_creation_exhausted)
    (simp_all add: security_create_instance_def security_init_def)

text \<open>The configuration of a connection carries PSK credentials exactly when the instance is in
  pre-shared-key mode, and they are the stored identity and key; a mode byte outside the
  enumeration gives an unsecured configuration.\<close>

theorem connection_config_modes:
  assumes "umap_find (sec_instances s) (strong_value iid) = Some i"
  shows "cfg_server_uri (to_connection_config s iid) = sec_server_uri i \<and>
    cfg_psk (to_connection_config s iid) =
      (if mode_byte (sec_security_mode i) = 0
       then Some \<lparr>psk_identity = string_of_bytes (sec_public_key_identity i), psk_key = sec_secret_key i\<rparr>
       else None) \<and>
    cfg_security_mode (to_connection_config s iid) =
      (let m = mode_byte (sec_security_mode i)
       in if m = 0 then Psk else if m = 1 then Rpk else if m = 2 \<or> m = 4 then Certificate else NoSec)"
  using assms
  by (auto simp: to_connection_config_def default_connection_config_def security_mode_defs Let_def
      security_mode_value.expand)

theorem connection_config_modes_witness:
  "cfg_security_mode (to_connection_config
     \<lparr>sec_instances = [(7, default_security_instance\<lparr>sec_security_mode := SecurityModeValue 0\<rparr>)],
      sec_next_instance_id = 8\<rparr> (Strong 7)) = Psk"
  using connection_config_modes [of "\<lparr>sec_instances = [(7, default_security_instance\<lparr>sec_security_mode := SecurityModeValue 0\<rparr>)],
      sec_next_instance_id = 8\<rparr>" "Strong 7"]
  by (simp add: default_security_instance_def)

end
