(* ===== verification/Server_Object.thy ===== *)
theory Server_Object
  imports Instance_Table
begin

text \<open>
  \<open>include/lwm2m/objects/server.hpp\<close> and \<open>src/objects/server.cpp\<close>: the Server object
  (ID 1), its table of instances, the typed access to their resources, and the executable
  resources, of which the registration update trigger calls back the application.
\<close>

section \<open>State\<close>

record server_instance =
  srv_short_server_id :: u16
  srv_lifetime :: u32
  srv_default_min_period :: u32
  srv_default_max_period :: u32
  srv_disable_timeout_present :: bool
  srv_disable_timeout :: u32
  srv_notification_storing :: bool
  srv_binding :: string

definition default_server_instance :: server_instance where
  "default_server_instance = \<lparr>srv_short_server_id = 0, srv_lifetime = 86400,
     srv_default_min_period = 0, srv_default_max_period = 0, srv_disable_timeout_present = False,
     srv_disable_timeout = 86400, srv_notification_storing = False, srv_binding = ''U''\<rparr>"

text \<open>
  The registration update callback returns nothing and lies outside the library: the state holds
  whether one is set, and executing a resource returns the argument of the call it makes.
\<close>

record server_object =
  srv_instances :: "(u16, server_instance) umap"
  srv_next_instance_id :: u16
  srv_update_callback_set :: bool

definition server_init :: server_object where
  "server_init = \<lparr>srv_instances = [], srv_next_instance_id = 0, srv_update_callback_set = False\<rparr>"

definition set_registration_update_callback :: "bool \<Rightarrow> server_object \<Rightarrow> server_object" where
  "set_registration_update_callback callback s = s\<lparr>srv_update_callback_set := callback\<rparr>"

section \<open>Instances\<close>

definition server_list_instances :: "server_object \<Rightarrow> instance_id list" where
  "server_list_instances s = map (\<lambda>(k, _). Strong k) (srv_instances s)"

definition server_has_instance :: "server_object \<Rightarrow> instance_id \<Rightarrow> bool" where
  "server_has_instance s iid \<longleftrightarrow> umap_find (srv_instances s) (strong_value iid) \<noteq> None"

definition server_create_instance ::
  "instance_id option \<Rightarrow> server_object \<Rightarrow> instance_id result \<times> server_object" where
  "server_create_instance suggested s =
     (let new_id = strong_value (case suggested of None \<Rightarrow> Strong (srv_next_instance_id s) | Some i \<Rightarrow> i)
      in if umap_find (srv_instances s) new_id \<noteq> None
         then (err E_BadRequest ''Instance already exists'', s)
         else
           let s1 = s\<lparr>srv_instances := umap_set (srv_instances s) new_id default_server_instance\<rparr>;
               s2 = (if new_id \<ge> srv_next_instance_id s1
                     then s1\<lparr>srv_next_instance_id := new_id + 1\<rparr> else s1)
           in (ok (Strong new_id), s2))"

definition server_delete_instance ::
  "instance_id \<Rightarrow> server_object \<Rightarrow> unit result \<times> server_object" where
  "server_delete_instance iid s =
     (case umap_find (srv_instances s) (strong_value iid) of
        None \<Rightarrow> (err E_NotFound ''Instance not found'', s)
      | Some _ \<Rightarrow> (ok (), s\<lparr>srv_instances := umap_erase (srv_instances s) (strong_value iid)\<rparr>))"

section \<open>Resources\<close>

definition server_list_resources :: "instance_id \<Rightarrow> resource_id list" where
  "server_list_resources iid = map Strong [0, 1, 2, 3, 4, 5, 6, 7, 8]"

definition server_resource_type :: "resource_id \<Rightarrow> resource_type option" where
  "server_resource_type rid =
     (let n = strong_value rid
      in if n = 0 \<or> n = 1 \<or> n = 2 \<or> n = 3 \<or> n = 5 then Some T_Integer
         else if n = 6 then Some T_Boolean
         else if n = 7 then Some T_String
         else None)"

definition server_load :: "resource_id \<Rightarrow> server_instance \<Rightarrow> resource_value result" where
  "server_load rid i =
     (let n = strong_value rid
      in if n = 0 then ok (V_Int (ucast (srv_short_server_id i)))
         else if n = 1 then ok (V_Int (ucast (srv_lifetime i)))
         else if n = 2 then ok (V_Int (ucast (srv_default_min_period i)))
         else if n = 3 then ok (V_Int (ucast (srv_default_max_period i)))
         else if n = 5 then ok (V_Int (ucast (srv_disable_timeout i)))
         else if n = 6 then ok (V_Bool (srv_notification_storing i))
         else if n = 7 then ok (V_String (srv_binding i))
         else err E_NotFound ''Resource not found'')"

definition server_store ::
  "resource_id \<Rightarrow> resource_value \<Rightarrow> server_instance \<Rightarrow> server_instance result" where
  "server_store rid v i =
     (let n = strong_value rid; bad = err E_BadRequest ''Invalid value type''
      in if n = 0 then (case v of V_Int x \<Rightarrow> ok (i\<lparr>srv_short_server_id := ucast x\<rparr>) | _ \<Rightarrow> bad)
         else if n = 1 then (case v of V_Int x \<Rightarrow> ok (i\<lparr>srv_lifetime := ucast x\<rparr>) | _ \<Rightarrow> bad)
         else if n = 2 then
           (case v of V_Int x \<Rightarrow> ok (i\<lparr>srv_default_min_period := ucast x\<rparr>) | _ \<Rightarrow> bad)
         else if n = 3 then
           (case v of V_Int x \<Rightarrow> ok (i\<lparr>srv_default_max_period := ucast x\<rparr>) | _ \<Rightarrow> bad)
         else if n = 5 then (case v of V_Int x \<Rightarrow> ok (i\<lparr>srv_disable_timeout := ucast x\<rparr>) | _ \<Rightarrow> bad)
         else if n = 6 then
           (case v of V_Bool b \<Rightarrow> ok (i\<lparr>srv_notification_storing := b\<rparr>) | _ \<Rightarrow> bad)
         else if n = 7 then (case v of V_String x \<Rightarrow> ok (i\<lparr>srv_binding := x\<rparr>) | _ \<Rightarrow> bad)
         else err E_NotFound ''Resource not found'')"

definition server_read_resource ::
  "server_object \<Rightarrow> instance_id \<Rightarrow> resource_id \<Rightarrow> resource_instance_id option \<Rightarrow>
   resource_value result" where
  "server_read_resource s iid rid riid =
     (case umap_find (srv_instances s) (strong_value iid) of
        None \<Rightarrow> err E_NotFound ''Instance not found''
      | Some i \<Rightarrow> server_load rid i)"

definition server_write_resource ::
  "instance_id \<Rightarrow> resource_id \<Rightarrow> resource_instance_id option \<Rightarrow> resource_value \<Rightarrow> server_object \<Rightarrow>
   unit result \<times> server_object" where
  "server_write_resource iid rid riid v s =
     (case umap_find (srv_instances s) (strong_value iid) of
        None \<Rightarrow> (err E_NotFound ''Instance not found'', s)
      | Some i \<Rightarrow>
          (case server_store rid v i of
             Inl e \<Rightarrow> (Inl e, s)
           | Inr i' \<Rightarrow> (ok (), s\<lparr>srv_instances := umap_set (srv_instances s) (strong_value iid) i'\<rparr>)))"

text \<open>The second component is the short server id the callback is called with, if it is called.\<close>

definition server_execute_resource ::
  "server_object \<Rightarrow> instance_id \<Rightarrow> resource_id \<Rightarrow> string \<Rightarrow> unit result \<times> u16 option" where
  "server_execute_resource s iid rid args =
     (case umap_find (srv_instances s) (strong_value iid) of
        None \<Rightarrow> (err E_NotFound ''Instance not found'', None)
      | Some i \<Rightarrow>
          let n = strong_value rid
          in if n = 4 then (ok (), None)
             else if n = 8 then
               (ok (), if srv_update_callback_set s then Some (srv_short_server_id i) else None)
             else if n = 9 then (ok (), None)
             else (err E_MethodNotAllowed ''Resource is not executable'', None))"

section \<open>High-level interface\<close>

definition server_add_server ::
  "server_instance \<Rightarrow> server_object \<Rightarrow> instance_id result \<times> server_object" where
  "server_add_server config s =
     (case server_create_instance None s of
        (Inl e, s1) \<Rightarrow> (Inl e, s1)
      | (Inr iid, s1) \<Rightarrow>
          (Inr iid, s1\<lparr>srv_instances := umap_set (srv_instances s1) (strong_value iid) config\<rparr>))"

definition server_get_instance :: "server_object \<Rightarrow> instance_id \<Rightarrow> server_instance option" where
  "server_get_instance s iid = umap_find (srv_instances s) (strong_value iid)"

fun find_server_by_ssid :: "(u16, server_instance) umap \<Rightarrow> u16 \<Rightarrow> server_instance option" where
  "find_server_by_ssid [] ssid = None"
| "find_server_by_ssid ((_, i) # rest) ssid =
     (if srv_short_server_id i = ssid then Some i else find_server_by_ssid rest ssid)"

definition server_find_by_short_server_id :: "server_object \<Rightarrow> u16 \<Rightarrow> server_instance option" where
  "server_find_by_short_server_id s ssid = find_server_by_ssid (srv_instances s) ssid"

section \<open>The contracts\<close>

lemmas server_spec_defs [spec_defs] = server_create_instance_def server_delete_instance_def
  server_list_instances_def server_has_instance_def server_read_resource_def
  server_write_resource_def

lemma server_load_typed:
  "server_load rid i = ok x \<Longrightarrow> server_resource_type rid = Some t \<Longrightarrow> get_resource_type x = t"
  by (auto simp: server_load_def server_resource_type_def Let_def split: if_splits)

lemma server_store_other:
  assumes "server_store rid v i = ok i'" "rid' \<noteq> rid"
  shows "server_load rid' i' = server_load rid' i"
proof -
  have "strong_value rid' \<noteq> strong_value rid" using assms(2) by (simp add: strong_value_eq)
  with assms(1) show ?thesis
    by (auto simp: server_store_def server_load_def Let_def split: if_splits resource_value.splits)
qed

interpretation server: table_object srv_instances srv_next_instance_id default_server_instance
  server_create_instance server_delete_instance server_list_instances server_has_instance
  server_resource_type server_read_resource server_write_resource server_load server_store
  by unfold_locales
    (auto simp: spec_defs Let_def server_load_typed server_store_other case_prod_beta
      split: option.splits if_splits)

lemma server_load_store:
  assumes "server_store rid v i = ok i'"
  shows "server_load rid i' = ok (case v of
      V_Int x \<Rightarrow> V_Int (take_bit (if strong_value rid = 0 then 16 else 32) x)
    | _ \<Rightarrow> v)"
  using assms
  by (auto simp: server_store_def server_load_def Let_def ucast_cut
      split: if_splits resource_value.splits)

text \<open>
  Writing minus one to the lifetime is accepted and becomes the largest 32-bit lifetime.
\<close>

lemma server_lifetime_minus_one:
  "server_store (Strong 1) (V_Int (- 1)) i = ok (i\<lparr>srv_lifetime := 4294967295\<rparr>)"
  by (simp add: server_store_def unsigned_minus_1_eq_mask mask_eq_exp_minus_1)

lemma find_server_by_ssid_Some:
  "find_server_by_ssid m ssid = Some i \<Longrightarrow>
     \<exists>k. (k, i) \<in> set m \<and> srv_short_server_id i = ssid"
  by (induction m ssid rule: find_server_by_ssid.induct) (auto split: if_splits)

lemma find_server_by_ssid_None:
  "find_server_by_ssid m ssid = None \<longleftrightarrow> (\<forall>(k, i) \<in> set m. srv_short_server_id i \<noteq> ssid)"
  by (induction m ssid rule: find_server_by_ssid.induct) auto

lemma server_execute_callback_ok:
  "server_execute_resource s iid rid args = (r, Some ssid) \<Longrightarrow> r = ok ()"
  by (auto simp: server_execute_resource_def Let_def split: option.splits if_splits)

section \<open>Properties\<close>

text \<open>C36: as long as every id in use is below the counter, a creation without a suggested id
  succeeds with a fresh id, adds exactly that instance with the default members, and keeps the
  ids below the counter unless the counter was at its maximum.\<close>

theorem server_create_fresh:
  assumes "\<forall>k. umap_find (srv_instances s) k \<noteq> None \<longrightarrow> k < srv_next_instance_id s"
  shows "\<exists>s'. server_create_instance None s = (ok (Strong (srv_next_instance_id s)), s') \<and>
    umap_find (srv_instances s) (srv_next_instance_id s) = None \<and>
    srv_instances s' = umap_set (srv_instances s) (srv_next_instance_id s) default_server_instance \<and>
    (srv_next_instance_id s \<noteq> - 1 \<longrightarrow>
       (\<forall>k. umap_find (srv_instances s') k \<noteq> None \<longrightarrow> k < srv_next_instance_id s'))"
proof -
  have below: "server.ids_below s" using assms by (simp add: server.ids_below_def)
  obtain s' where s': "server_create_instance None s = (ok (Strong (srv_next_instance_id s)), s')"
    "srv_instances s' = umap_set (srv_instances s) (srv_next_instance_id s) default_server_instance"
    using server.create_fresh [OF below] by blast
  show ?thesis
    using s' server.create_ids_below [OF below _ s'(1)] server.ids_belowD [OF below order.refl]
    by (auto simp: server.ids_below_def)
qed

theorem server_create_fresh_witness:
  "\<exists>s'. server_create_instance None server_init = (ok (Strong 0), s') \<and>
     srv_instances s' = [(0, default_server_instance)]"
  using server_create_fresh [of server_init] by (auto simp: server_init_def)

text \<open>An executed resource calls the registration update callback only for resource 8 of an
  existing instance, with the short server id stored there.\<close>

theorem server_execute_callback:
  "server_execute_resource s iid rid args = (r, Some ssid) \<longleftrightarrow>
     r = ok () \<and> strong_value rid = 8 \<and> srv_update_callback_set s \<and>
     (\<exists>i. umap_find (srv_instances s) (strong_value iid) = Some i \<and> srv_short_server_id i = ssid)"
  by (auto simp: server_execute_resource_def Let_def split: option.splits if_splits)

end
