(* ===== verification/Device_Object.thy ===== *)
theory Device_Object
  imports Objects
begin

text \<open>
  \<open>include/lwm2m/objects/device.hpp\<close> and \<open>src/objects/device.cpp\<close>: the Device object
  (ID 3): its configuration, the list of error codes, reads of every resource, the two writable
  resources and the three executable ones.
\<close>

section \<open>State\<close>

datatype device_error_code =
    DE_NoError | DE_LowBatteryPower | DE_ExternalPowerSupplyOff | DE_GpsModuleFailure
  | DE_LowReceivedSignalStrength | DE_OutOfMemory | DE_SmsFailure | DE_IpConnectivityFailure
  | DE_PeripheralMalfunction

fun device_error_value :: "device_error_code \<Rightarrow> u8" where
  "device_error_value DE_NoError = 0"
| "device_error_value DE_LowBatteryPower = 1"
| "device_error_value DE_ExternalPowerSupplyOff = 2"
| "device_error_value DE_GpsModuleFailure = 3"
| "device_error_value DE_LowReceivedSignalStrength = 4"
| "device_error_value DE_OutOfMemory = 5"
| "device_error_value DE_SmsFailure = 6"
| "device_error_value DE_IpConnectivityFailure = 7"
| "device_error_value DE_PeripheralMalfunction = 8"

datatype battery_status =
    BS_Normal | BS_Charging | BS_ChargeComplete | BS_Damaged | BS_LowBattery | BS_NotInstalled
  | BS_Unknown

fun battery_status_value :: "battery_status \<Rightarrow> u8" where
  "battery_status_value BS_Normal = 0"
| "battery_status_value BS_Charging = 1"
| "battery_status_value BS_ChargeComplete = 2"
| "battery_status_value BS_Damaged = 3"
| "battery_status_value BS_LowBattery = 4"
| "battery_status_value BS_NotInstalled = 5"
| "battery_status_value BS_Unknown = 6"

record device_config =
  dcfg_manufacturer :: string
  dcfg_model_number :: string
  dcfg_serial_number :: string
  dcfg_firmware_version :: string
  dcfg_software_version :: string
  dcfg_hardware_version :: string
  dcfg_device_type :: string
  dcfg_available_power_sources :: "u8 list"
  dcfg_power_source_voltages :: "i32 list"
  dcfg_power_source_currents :: "i32 list"
  dcfg_battery_level :: u8
  dcfg_battery_status :: battery_status
  dcfg_memory_free :: i32
  dcfg_memory_total :: i32
  dcfg_timezone :: string
  dcfg_utc_offset :: string
  dcfg_supported_bindings :: string

definition default_device_config :: device_config where
  "default_device_config = \<lparr>dcfg_manufacturer = ''Ferriot'', dcfg_model_number = ''Ferriot'',
     dcfg_serial_number = [], dcfg_firmware_version = ''1.0.0'', dcfg_software_version = ''1.0.0'',
     dcfg_hardware_version = ''1.0'', dcfg_device_type = ''TCU'',
     dcfg_available_power_sources = [0], dcfg_power_source_voltages = [12000],
     dcfg_power_source_currents = [0], dcfg_battery_level = 100, dcfg_battery_status = BS_Normal,
     dcfg_memory_free = 0, dcfg_memory_total = 0, dcfg_timezone = [], dcfg_utc_offset = [],
     dcfg_supported_bindings = ''U''\<rparr>"

text \<open>The two callbacks take and return nothing: the state holds whether each is set.\<close>

record device_object =
  dev_config :: device_config
  dev_error_codes :: "device_error_code list"
  dev_reboot_callback_set :: bool
  dev_factory_reset_callback_set :: bool

datatype device_call = Call_Reboot | Call_Factory_Reset

definition device_init :: "device_config \<Rightarrow> device_object" where
  "device_init config = \<lparr>dev_config = config, dev_error_codes = [DE_NoError],
     dev_reboot_callback_set = False, dev_factory_reset_callback_set = False\<rparr>"

section \<open>High-level interface\<close>

definition set_battery_level :: "u8 \<Rightarrow> device_object \<Rightarrow> device_object" where
  "set_battery_level level s = s\<lparr>dev_config := (dev_config s)\<lparr>dcfg_battery_level := level\<rparr>\<rparr>"

definition set_battery_status :: "battery_status \<Rightarrow> device_object \<Rightarrow> device_object" where
  "set_battery_status status s = s\<lparr>dev_config := (dev_config s)\<lparr>dcfg_battery_status := status\<rparr>\<rparr>"

definition set_memory_free :: "i32 \<Rightarrow> device_object \<Rightarrow> device_object" where
  "set_memory_free kb s = s\<lparr>dev_config := (dev_config s)\<lparr>dcfg_memory_free := kb\<rparr>\<rparr>"

definition add_error_code :: "device_error_code \<Rightarrow> device_object \<Rightarrow> device_object" where
  "add_error_code code s =
     (let codes = dev_error_codes s;
          codes = (if code \<noteq> DE_NoError \<and> codes \<noteq> [] \<and> codes ! 0 = DE_NoError then [] else codes)
      in s\<lparr>dev_error_codes := codes @ [code]\<rparr>)"

definition clear_error_codes :: "device_object \<Rightarrow> device_object" where
  "clear_error_codes s = s\<lparr>dev_error_codes := [DE_NoError]\<rparr>"

definition set_reboot_callback :: "bool \<Rightarrow> device_object \<Rightarrow> device_object" where
  "set_reboot_callback callback s = s\<lparr>dev_reboot_callback_set := callback\<rparr>"

definition set_factory_reset_callback :: "bool \<Rightarrow> device_object \<Rightarrow> device_object" where
  "set_factory_reset_callback callback s = s\<lparr>dev_factory_reset_callback_set := callback\<rparr>"

section \<open>Resources\<close>

definition device_list_resources :: "instance_id \<Rightarrow> resource_id list" where
  "device_list_resources iid = map Strong
     [0, 1, 2, 3, 4, 5, 6, 7, 8, 9, 10, 11, 12, 13, 14, 15, 16, 17, 18, 19, 20, 21]"

text \<open>\<open>now\<close> is the system clock at the call.\<close>

definition device_read_resource ::
  "time_point \<Rightarrow> device_object \<Rightarrow> instance_id \<Rightarrow> resource_id \<Rightarrow> resource_instance_id option \<Rightarrow>
   resource_value result" where
  "device_read_resource now s iid rid riid =
     (if strong_value iid \<noteq> 0 then err E_NotFound ''Instance not found''
      else
        let c = dev_config s; n = strong_value rid
        in if n = 0 then ok (V_String (dcfg_manufacturer c))
           else if n = 1 then ok (V_String (dcfg_model_number c))
           else if n = 2 then ok (V_String (dcfg_serial_number c))
           else if n = 3 then ok (V_String (dcfg_firmware_version c))
           else if n = 6 then
             read_multiple (\<lambda>x. V_Int (ucast x)) (dcfg_available_power_sources c) riid
               (err E_NotFound ''No power sources'')
           else if n = 7 then
             read_multiple (\<lambda>x. V_Int (scast x)) (dcfg_power_source_voltages c) riid
               (err E_NotFound ''No voltage data'')
           else if n = 8 then
             read_multiple (\<lambda>x. V_Int (scast x)) (dcfg_power_source_currents c) riid
               (err E_NotFound ''No current data'')
           else if n = 9 then ok (V_Int (ucast (dcfg_battery_level c)))
           else if n = 10 then ok (V_Int (scast (dcfg_memory_free c)))
           else if n = 11 then
             read_multiple (\<lambda>x. V_Int (ucast (device_error_value x))) (dev_error_codes s) riid
               (ok (V_Int (ucast (device_error_value DE_NoError))))
           else if n = 13 then ok (V_Time now)
           else if n = 14 then ok (V_String (dcfg_utc_offset c))
           else if n = 15 then ok (V_String (dcfg_timezone c))
           else if n = 16 then ok (V_String (dcfg_supported_bindings c))
           else if n = 17 then ok (V_String (dcfg_device_type c))
           else if n = 18 then ok (V_String (dcfg_hardware_version c))
           else if n = 19 then ok (V_String (dcfg_software_version c))
           else if n = 20 then ok (V_Int (ucast (battery_status_value (dcfg_battery_status c))))
           else if n = 21 then ok (V_Int (scast (dcfg_memory_total c)))
           else err E_NotFound ''Resource not found'')"

definition device_write_resource ::
  "instance_id \<Rightarrow> resource_id \<Rightarrow> resource_instance_id option \<Rightarrow> resource_value \<Rightarrow> device_object \<Rightarrow>
   unit result \<times> device_object" where
  "device_write_resource iid rid riid v s =
     (if strong_value iid \<noteq> 0 then (err E_NotFound ''Instance not found'', s)
      else
        let n = strong_value rid
        in if n = 13 then (err E_MethodNotAllowed ''Current Time is read-only'', s)
           else if n = 14 then
             (case v of
                V_String x \<Rightarrow> (ok (), s\<lparr>dev_config := (dev_config s)\<lparr>dcfg_utc_offset := x\<rparr>\<rparr>)
              | _ \<Rightarrow> (err E_BadRequest ''Invalid value type'', s))
           else if n = 15 then
             (case v of
                V_String x \<Rightarrow> (ok (), s\<lparr>dev_config := (dev_config s)\<lparr>dcfg_timezone := x\<rparr>\<rparr>)
              | _ \<Rightarrow> (err E_BadRequest ''Invalid value type'', s))
           else (err E_MethodNotAllowed ''Resource is read-only'', s))"

text \<open>The third component is the callback that is called, if one is.\<close>

definition device_execute_resource ::
  "instance_id \<Rightarrow> resource_id \<Rightarrow> string \<Rightarrow> device_object \<Rightarrow>
   unit result \<times> device_object \<times> device_call option" where
  "device_execute_resource iid rid args s =
     (if strong_value iid \<noteq> 0 then (err E_NotFound ''Instance not found'', s, None)
      else
        let n = strong_value rid
        in if n = 4 then (ok (), s, if dev_reboot_callback_set s then Some Call_Reboot else None)
           else if n = 5 then
             (ok (), s, if dev_factory_reset_callback_set s then Some Call_Factory_Reset else None)
           else if n = 12 then (ok (), clear_error_codes s, None)
           else (err E_MethodNotAllowed ''Resource is not executable'', s, None))"

section \<open>The contract\<close>

text \<open>The class registers no resource, so that the type of every resource is unknown.\<close>

definition device_get_resource_type ::
  "device_object \<Rightarrow> instance_id \<Rightarrow> resource_id \<Rightarrow> resource_type option" where
  "device_get_resource_type s iid rid =
     object_get_resource_type (object_init :: device_object object_base) iid rid"

lemma device_write_other:
  "strong_value iid \<noteq> 0 \<Longrightarrow>
   device_write_resource iid rid riid v s = (err E_NotFound ''Instance not found'', s)"
  by (simp add: device_write_resource_def)

interpretation device: single_object device_get_resource_type
  "\<lambda>iid rid riid s. (device_read_resource now s iid rid riid, s)" device_write_resource
  for now
  by unfold_locales
    (simp_all add: device_read_resource_def device_write_other device_get_resource_type_def)

section \<open>Error codes\<close>

text \<open>
  The list of error codes is never empty, and \<open>NoError\<close> occurs at its head only when no real
  error is recorded after it.
\<close>

definition error_codes_ok :: "device_object \<Rightarrow> bool" where
  "error_codes_ok s \<longleftrightarrow> dev_error_codes s \<noteq> [] \<and>
     (hd (dev_error_codes s) = DE_NoError \<longrightarrow> set (dev_error_codes s) = {DE_NoError})"

lemma error_codes_ok_init: "error_codes_ok (device_init c)"
  by (simp add: error_codes_ok_def device_init_def)

lemma error_codes_ok_clear: "error_codes_ok (clear_error_codes s)"
  by (simp add: error_codes_ok_def clear_error_codes_def)

lemma error_codes_ok_add:
  assumes "error_codes_ok s"
  shows "error_codes_ok (add_error_code code s)"
proof (cases "dev_error_codes s")
  case Nil
  with assms show ?thesis by (simp add: error_codes_ok_def)
next
  case (Cons c cs)
  with assms show ?thesis
    by (auto simp: error_codes_ok_def add_error_code_def)
qed

lemma error_codes_ok_execute:
  "error_codes_ok s \<Longrightarrow> device_execute_resource iid rid args s = (r, s', call) \<Longrightarrow> error_codes_ok s'"
  by (auto simp: device_execute_resource_def Let_def error_codes_ok_clear split: if_splits)

lemma error_codes_ok_write:
  assumes "error_codes_ok s"
  shows "error_codes_ok (snd (device_write_resource iid rid riid v s))"
proof -
  have "dev_error_codes (snd (device_write_resource iid rid riid v s)) = dev_error_codes s"
    by (simp add: device_write_resource_def Let_def split: resource_value.split)
  with assms show ?thesis by (simp add: error_codes_ok_def)
qed

text \<open>Only the UTC offset and the time zone are writable, and only with a string.\<close>

lemma device_write_ok_iff:
  "fst (device_write_resource iid rid riid v s) = ok () \<longleftrightarrow>
     strong_value iid = 0 \<and> (strong_value rid = 14 \<or> strong_value rid = 15) \<and>
     get_resource_type v = T_String"
  by (cases v) (simp_all add: device_write_resource_def Let_def)

section \<open>Properties\<close>

text \<open>Through every operation of the server and of the application the list of error codes is
  never empty, and \<open>NoError\<close> heads it only when it holds nothing else.\<close>

theorem device_error_codes_invariant:
  assumes "error_codes_ok s"
  shows "error_codes_ok (add_error_code code s) \<and> error_codes_ok (clear_error_codes s) \<and>
    error_codes_ok (snd (device_write_resource iid rid riid v s)) \<and>
    error_codes_ok (fst (snd (device_execute_resource iid rid args s)))"
  using error_codes_ok_add [OF assms] error_codes_ok_clear error_codes_ok_write [OF assms]
    error_codes_ok_execute [OF assms] prod.collapse
  by metis

theorem device_error_codes_invariant_witness:
  "error_codes_ok (add_error_code DE_OutOfMemory (device_init default_device_config))"
  using device_error_codes_invariant [OF error_codes_ok_init] by blast

end
