(* ===== verification/Connectivity_Object.thy ===== *)
theory Connectivity_Object
  imports Objects
begin

text \<open>
  \<open>include/lwm2m/objects/connectivity.hpp\<close> and \<open>src/objects/connectivity.cpp\<close>: the
  Connectivity Monitoring object (ID 4), whose resources the server can only read and the
  application sets.
\<close>

section \<open>State\<close>

datatype network_bearer =
    NB_GSM | NB_TDSCDMA | NB_WCDMA | NB_CDMA2000 | NB_WiMAX | NB_LTE | NB_NR5G | NB_Reserved7
  | NB_Reserved8 | NB_Reserved9 | NB_Reserved10 | NB_Reserved11 | NB_Reserved12 | NB_Reserved13
  | NB_Reserved14 | NB_Reserved15 | NB_Reserved16 | NB_Reserved17 | NB_Reserved18 | NB_Reserved19
  | NB_Reserved20 | NB_WiFi | NB_Bluetooth | NB_IEEE802p15p4 | NB_Reserved24 | NB_Reserved25
  | NB_Reserved26 | NB_Reserved27 | NB_Reserved28 | NB_Reserved29 | NB_Reserved30 | NB_Reserved31
  | NB_Reserved32 | NB_Reserved33 | NB_Reserved34 | NB_Reserved35 | NB_Reserved36 | NB_Reserved37
  | NB_Reserved38 | NB_Reserved39 | NB_Reserved40 | NB_Ethernet | NB_DSL | NB_PLC | NB_CV2X
  | NB_CV2X_DSRC

fun network_bearer_value :: "network_bearer \<Rightarrow> u8" where
  "network_bearer_value NB_GSM = 0"
| "network_bearer_value NB_TDSCDMA = 1"
| "network_bearer_value NB_WCDMA = 2"
| "network_bearer_value NB_CDMA2000 = 3"
| "network_bearer_value NB_WiMAX = 4"
| "network_bearer_value NB_LTE = 5"
| "network_bearer_value NB_NR5G = 6"
| "network_bearer_value NB_Reserved7 = 7"
| "network_bearer_value NB_Reserved8 = 8"
| "network_bearer_value NB_Reserved9 = 9"
| "network_bearer_value NB_Reserved10 = 10"
| "network_bearer_value NB_Reserved11 = 11"
| "network_bearer_value NB_Reserved12 = 12"
| "network_bearer_value NB_Reserved13 = 13"
| "network_bearer_value NB_Reserved14 = 14"
| "network_bearer_value NB_Reserved15 = 15"
| "network_bearer_value NB_Reserved16 = 16"
| "network_bearer_value NB_Reserved17 = 17"
| "network_bearer_value NB_Reserved18 = 18"
| "network_bearer_value NB_Reserved19 = 19"
| "network_bearer_value NB_Reserved20 = 20"
| "network_bearer_value NB_WiFi = 21"
| "network_bearer_value NB_Bluetooth = 22"
| "network_bearer_value NB_IEEE802p15p4 = 23"
| "network_bearer_value NB_Reserved24 = 24"
| "network_bearer_value NB_Reserved25 = 25"
| "network_bearer_value NB_Reserved26 = 26"
| "network_bearer_value NB_Reserved27 = 27"
| "network_bearer_value NB_Reserved28 = 28"
| "network_bearer_value NB_Reserved29 = 29"
| "network_bearer_value NB_Reserved30 = 30"
| "network_bearer_value NB_Reserved31 = 31"
| "network_bearer_value NB_Reserved32 = 32"
| "network_bearer_value NB_Reserved33 = 33"
| "network_bearer_value NB_Reserved34 = 34"
| "network_bearer_value NB_Reserved35 = 35"
| "network_bearer_value NB_Reserved36 = 36"
| "network_bearer_value NB_Reserved37 = 37"
| "network_bearer_value NB_Reserved38 = 38"
| "network_bearer_value NB_Reserved39 = 39"
| "network_bearer_value NB_Reserved40 = 40"
| "network_bearer_value NB_Ethernet = 41"
| "network_bearer_value NB_DSL = 42"
| "network_bearer_value NB_PLC = 43"
| "network_bearer_value NB_CV2X = 44"
| "network_bearer_value NB_CV2X_DSRC = 45"

record connectivity_config =
  ccfg_network_bearer :: network_bearer
  ccfg_available_bearers :: "network_bearer list"
  ccfg_radio_signal_strength :: i32
  ccfg_link_quality :: u8
  ccfg_ip_addresses :: "string list"
  ccfg_router_ip_addresses :: "string list"
  ccfg_link_utilization :: u8
  ccfg_apn_list :: "string list"
  ccfg_cell_id :: u32
  ccfg_smnc :: u16
  ccfg_smcc :: u16

definition default_connectivity_config :: connectivity_config where
  "default_connectivity_config = \<lparr>ccfg_network_bearer = NB_Ethernet,
     ccfg_available_bearers = [NB_Ethernet], ccfg_radio_signal_strength = - 70,
     ccfg_link_quality = 100, ccfg_ip_addresses = [], ccfg_router_ip_addresses = [],
     ccfg_link_utilization = 0, ccfg_apn_list = [], ccfg_cell_id = 0, ccfg_smnc = 0,
     ccfg_smcc = 0\<rparr>"

record connectivity_object =
  conn_config :: connectivity_config

definition connectivity_init :: "connectivity_config \<Rightarrow> connectivity_object" where
  "connectivity_init config = \<lparr>conn_config = config\<rparr>"

section \<open>Resources\<close>

definition connectivity_list_resources :: "instance_id \<Rightarrow> resource_id list" where
  "connectivity_list_resources iid = map Strong [0, 1, 2, 3, 4, 5, 6, 7, 8, 9, 10]"

definition connectivity_get_resource_type ::
  "connectivity_object \<Rightarrow> instance_id \<Rightarrow> resource_id \<Rightarrow> resource_type option" where
  "connectivity_get_resource_type s iid rid =
     (let n = strong_value rid
      in if n = 0 \<or> n = 1 \<or> n = 2 \<or> n = 3 \<or> n = 6 \<or> n = 8 \<or> n = 9 \<or> n = 10 then Some T_Integer
         else if n = 4 \<or> n = 5 \<or> n = 7 then Some T_String
         else None)"

definition connectivity_read_resource ::
  "connectivity_object \<Rightarrow> instance_id \<Rightarrow> resource_id \<Rightarrow> resource_instance_id option \<Rightarrow>
   resource_value result" where
  "connectivity_read_resource s iid rid riid =
     (if strong_value iid \<noteq> 0 then err E_NotFound ''Instance not found''
      else
        let c = conn_config s; n = strong_value rid
        in if n = 0 then ok (V_Int (ucast (network_bearer_value (ccfg_network_bearer c))))
           else if n = 1 then
             read_multiple (\<lambda>b. V_Int (ucast (network_bearer_value b))) (ccfg_available_bearers c) riid
               (err E_NotFound ''No bearers available'')
           else if n = 2 then ok (V_Int (scast (ccfg_radio_signal_strength c)))
           else if n = 3 then ok (V_Int (ucast (ccfg_link_quality c)))
           else if n = 4 then
             read_multiple V_String (ccfg_ip_addresses c) riid (err E_NotFound ''No IP addresses'')
           else if n = 5 then
             read_multiple V_String (ccfg_router_ip_addresses c) riid
               (err E_NotFound ''No router IP addresses'')
           else if n = 6 then ok (V_Int (ucast (ccfg_link_utilization c)))
           else if n = 7 then
             read_multiple V_String (ccfg_apn_list c) riid (err E_NotFound ''No APNs configured'')
           else if n = 8 then ok (V_Int (ucast (ccfg_cell_id c)))
           else if n = 9 then ok (V_Int (ucast (ccfg_smnc c)))
           else if n = 10 then ok (V_Int (ucast (ccfg_smcc c)))
           else err E_NotFound ''Resource not found'')"

definition connectivity_write_resource ::
  "instance_id \<Rightarrow> resource_id \<Rightarrow> resource_instance_id option \<Rightarrow> resource_value \<Rightarrow>
   connectivity_object \<Rightarrow> unit result \<times> connectivity_object" where
  "connectivity_write_resource iid rid riid v s =
     (if strong_value iid \<noteq> 0 then (err E_NotFound ''Instance not found'', s)
      else (err E_MethodNotAllowed ''Connectivity resources are read-only'', s))"

definition connectivity_execute_resource ::
  "connectivity_object \<Rightarrow> instance_id \<Rightarrow> resource_id \<Rightarrow> string \<Rightarrow> unit result" where
  "connectivity_execute_resource s iid rid args =
     (if strong_value iid \<noteq> 0 then err E_NotFound ''Instance not found''
      else err E_MethodNotAllowed ''Resource is not executable'')"

section \<open>High-level interface\<close>

definition set_network_bearer :: "network_bearer \<Rightarrow> connectivity_object \<Rightarrow> connectivity_object" where
  "set_network_bearer bearer s =
     s\<lparr>conn_config := (conn_config s)\<lparr>ccfg_network_bearer := bearer\<rparr>\<rparr>"

definition set_available_bearers ::
  "network_bearer list \<Rightarrow> connectivity_object \<Rightarrow> connectivity_object" where
  "set_available_bearers bearers s =
     s\<lparr>conn_config := (conn_config s)\<lparr>ccfg_available_bearers := bearers\<rparr>\<rparr>"

definition set_signal_strength :: "i32 \<Rightarrow> connectivity_object \<Rightarrow> connectivity_object" where
  "set_signal_strength dbm s =
     s\<lparr>conn_config := (conn_config s)\<lparr>ccfg_radio_signal_strength := dbm\<rparr>\<rparr>"

definition set_link_quality :: "u8 \<Rightarrow> connectivity_object \<Rightarrow> connectivity_object" where
  "set_link_quality percent s =
     s\<lparr>conn_config := (conn_config s)\<lparr>ccfg_link_quality := (if percent > 100 then 100 else percent)\<rparr>\<rparr>"

definition set_ip_addresses :: "string list \<Rightarrow> connectivity_object \<Rightarrow> connectivity_object" where
  "set_ip_addresses addresses s =
     s\<lparr>conn_config := (conn_config s)\<lparr>ccfg_ip_addresses := addresses\<rparr>\<rparr>"

definition set_router_ip_addresses ::
  "string list \<Rightarrow> connectivity_object \<Rightarrow> connectivity_object" where
  "set_router_ip_addresses addresses s =
     s\<lparr>conn_config := (conn_config s)\<lparr>ccfg_router_ip_addresses := addresses\<rparr>\<rparr>"

definition set_link_utilization :: "u8 \<Rightarrow> connectivity_object \<Rightarrow> connectivity_object" where
  "set_link_utilization percent s =
     s\<lparr>conn_config := (conn_config s)\<lparr>ccfg_link_utilization := (if percent > 100 then 100 else percent)\<rparr>\<rparr>"

definition set_cellular_info ::
  "u32 \<Rightarrow> u16 \<Rightarrow> u16 \<Rightarrow> connectivity_object \<Rightarrow> connectivity_object" where
  "set_cellular_info cell_id mcc mnc s =
     s\<lparr>conn_config := (conn_config s)\<lparr>ccfg_cell_id := cell_id, ccfg_smcc := mcc, ccfg_smnc := mnc\<rparr>\<rparr>"

definition set_apn_list :: "string list \<Rightarrow> connectivity_object \<Rightarrow> connectivity_object" where
  "set_apn_list apns s = s\<lparr>conn_config := (conn_config s)\<lparr>ccfg_apn_list := apns\<rparr>\<rparr>"

section \<open>The contract\<close>

lemma connectivity_read_typed:
  "connectivity_read_resource s iid rid riid = ok v \<Longrightarrow>
   connectivity_get_resource_type s iid rid = Some t \<Longrightarrow> get_resource_type v = t"
  by (auto simp: connectivity_read_resource_def connectivity_get_resource_type_def Let_def
      split: if_splits dest: read_multiple_type)

interpretation connectivity: single_object connectivity_get_resource_type
  "\<lambda>iid rid riid s. (connectivity_read_resource s iid rid riid, s)" connectivity_write_resource
  by unfold_locales
    (simp add: connectivity_read_resource_def, simp add: connectivity_write_resource_def,
      auto dest: connectivity_read_typed)

text \<open>
  Both percentages stay percentages through every setter, and the server's requests change
  nothing at all.
\<close>

definition percentages_ok :: "connectivity_object \<Rightarrow> bool" where
  "percentages_ok s \<longleftrightarrow>
     ccfg_link_quality (conn_config s) \<le> 100 \<and> ccfg_link_utilization (conn_config s) \<le> 100"

lemmas connectivity_setter_defs = set_network_bearer_def set_available_bearers_def
  set_signal_strength_def set_link_quality_def set_ip_addresses_def set_router_ip_addresses_def
  set_link_utilization_def set_cellular_info_def set_apn_list_def

lemma percentages_ok_setters:
  assumes "percentages_ok s"
  shows "percentages_ok (set_network_bearer b s)" "percentages_ok (set_available_bearers bs s)"
    "percentages_ok (set_signal_strength d s)" "percentages_ok (set_link_quality p s)"
    "percentages_ok (set_ip_addresses xs s)" "percentages_ok (set_router_ip_addresses xs s)"
    "percentages_ok (set_link_utilization p s)" "percentages_ok (set_cellular_info ci mcc mnc s)"
    "percentages_ok (set_apn_list xs s)"
  using assms by (auto simp: percentages_ok_def connectivity_setter_defs not_less)

lemma connectivity_server_read_only:
  "snd (connectivity_write_resource iid rid riid v s) = s \<and>
   is_err (fst (connectivity_write_resource iid rid riid v s)) \<and>
   is_err (connectivity_execute_resource s iid rid args)"
  by (simp add: connectivity_write_resource_def connectivity_execute_resource_def)

section \<open>Properties\<close>

text \<open>The server cannot change the object: every write and every execute is an error and leaves
  the state as it was.\<close>

theorem connectivity_read_only:
  "(\<exists>e. connectivity_write_resource iid rid riid v s = (Inl e, s)) \<and>
   (\<exists>e. connectivity_execute_resource s iid rid args = Inl e)"
  by (simp add: connectivity_write_resource_def connectivity_execute_resource_def err_def)

text \<open>Link quality and link utilisation stay percentages through every setter.\<close>

theorem connectivity_percentages:
  assumes "percentages_ok s"
  shows "percentages_ok (set_link_quality p s) \<and> percentages_ok (set_link_utilization p s) \<and>
    percentages_ok (set_network_bearer b s) \<and> percentages_ok (set_cellular_info ci mcc mnc s)"
  by (simp add: percentages_ok_setters [OF assms])

theorem connectivity_percentages_witness:
  "percentages_ok (set_link_quality 250 (connectivity_init default_connectivity_config))"
proof -
  have "percentages_ok (connectivity_init default_connectivity_config)"
    by (simp add: percentages_ok_def connectivity_init_def default_connectivity_config_def)
  from connectivity_percentages [OF this] show ?thesis by blast
qed

end
