(* ===== verification/Firmware_Object.thy ===== *)
theory Firmware_Object
  imports Objects
begin

text \<open>
  \<open>include/lwm2m/objects/firmware_update.hpp\<close> and \<open>src/objects/firmware_update.cpp\<close>: the
  Firmware Update object (ID 5): the update state machine, driven by the server's writes and
  executes and by the application's notifications, with the application's callbacks.
\<close>

section \<open>State\<close>

datatype firmware_state = FS_Idle | FS_Downloading | FS_Downloaded | FS_Updating

fun firmware_state_value :: "firmware_state \<Rightarrow> u8" where
  "firmware_state_value FS_Idle = 0"
| "firmware_state_value FS_Downloading = 1"
| "firmware_state_value FS_Downloaded = 2"
| "firmware_state_value FS_Updating = 3"

datatype firmware_update_result =
    FR_Initial | FR_Success | FR_NotEnoughFlashMemory | FR_OutOfRam
  | FR_ConnectionLostDuringDownload | FR_IntegrityCheckFailure | FR_UnsupportedPackageType
  | FR_InvalidUri | FR_UpdateFailed | FR_UnsupportedProtocol

fun firmware_result_value :: "firmware_update_result \<Rightarrow> u8" where
  "firmware_result_value FR_Initial = 0"
| "firmware_result_value FR_Success = 1"
| "firmware_result_value FR_NotEnoughFlashMemory = 2"
| "firmware_result_value FR_OutOfRam = 3"
| "firmware_result_value FR_ConnectionLostDuringDownload = 4"
| "firmware_result_value FR_IntegrityCheckFailure = 5"
| "firmware_result_value FR_UnsupportedPackageType = 6"
| "firmware_result_value FR_InvalidUri = 7"
| "firmware_result_value FR_UpdateFailed = 8"
| "firmware_result_value FR_UnsupportedProtocol = 9"

datatype firmware_protocol = FP_CoAP | FP_CoAPS | FP_HTTP | FP_HTTPS | FP_CoAPTCP | FP_CoAPSTCP

fun firmware_protocol_value :: "firmware_protocol \<Rightarrow> u8" where
  "firmware_protocol_value FP_CoAP = 0"
| "firmware_protocol_value FP_CoAPS = 1"
| "firmware_protocol_value FP_HTTP = 2"
| "firmware_protocol_value FP_HTTPS = 3"
| "firmware_protocol_value FP_CoAPTCP = 4"
| "firmware_protocol_value FP_CoAPSTCP = 5"

datatype firmware_delivery_method = FD_Pull | FD_Push | FD_Both

fun firmware_delivery_value :: "firmware_delivery_method \<Rightarrow> u8" where
  "firmware_delivery_value FD_Pull = 0"
| "firmware_delivery_value FD_Push = 1"
| "firmware_delivery_value FD_Both = 2"

record firmware_object =
  fw_state :: firmware_state
  fw_update_result :: firmware_update_result
  fw_package_uri :: string
  fw_package_data :: bytes
  fw_package_name :: string
  fw_package_version :: string
  fw_supported_protocols :: "firmware_protocol list"
  fw_delivery_method :: firmware_delivery_method

definition firmware_init :: firmware_object where
  "firmware_init = \<lparr>fw_state = FS_Idle, fw_update_result = FR_Initial, fw_package_uri = [],
     fw_package_data = [], fw_package_name = [], fw_package_version = [],
     fw_supported_protocols = [FP_CoAP, FP_CoAPS, FP_HTTP, FP_HTTPS],
     fw_delivery_method = FD_Both\<rparr>"

text \<open>
  The callbacks of \<open>FirmwareUpdateCallbacks\<close>, \<open>None\<close> where the \<open>std::function\<close> is empty. A
  callback runs application code, which may call the object again: it takes the object and
  returns it. \<open>on_cancel\<close> is called nowhere in the source and has no counterpart here.
\<close>

record firmware_callbacks =
  cb_start_download :: "(string \<Rightarrow> firmware_object \<Rightarrow> unit result \<times> firmware_object) option"
  cb_verify_package :: "(bytes \<Rightarrow> firmware_object \<Rightarrow> unit result \<times> firmware_object) option"
  cb_apply_update :: "(firmware_object \<Rightarrow> unit result \<times> firmware_object) option"

section \<open>The application's operations\<close>

definition set_firmware_state :: "firmware_state \<Rightarrow> firmware_object \<Rightarrow> firmware_object" where
  "set_firmware_state st s = s\<lparr>fw_state := st\<rparr>"

definition set_update_result :: "firmware_update_result \<Rightarrow> firmware_object \<Rightarrow> firmware_object" where
  "set_update_result r s = s\<lparr>fw_update_result := r\<rparr>"

definition set_package_info :: "string \<Rightarrow> string \<Rightarrow> firmware_object \<Rightarrow> firmware_object" where
  "set_package_info n v s = s\<lparr>fw_package_name := n, fw_package_version := v\<rparr>"

definition set_supported_protocols ::
  "firmware_protocol list \<Rightarrow> firmware_object \<Rightarrow> firmware_object" where
  "set_supported_protocols ps s = s\<lparr>fw_supported_protocols := ps\<rparr>"

definition set_delivery_method ::
  "firmware_delivery_method \<Rightarrow> firmware_object \<Rightarrow> firmware_object" where
  "set_delivery_method m s = s\<lparr>fw_delivery_method := m\<rparr>"

definition push_package ::
  "firmware_callbacks \<Rightarrow> bytes \<Rightarrow> firmware_object \<Rightarrow> unit result \<times> firmware_object" where
  "push_package cbs data s =
     (if fw_state s \<noteq> FS_Idle \<and> fw_state s \<noteq> FS_Downloaded
      then (err E_MethodNotAllowed ''Cannot push package in current state'', s)
      else
        let s1 = s\<lparr>fw_package_data := data, fw_update_result := FR_Initial\<rparr>
        in case cb_verify_package cbs of
             None \<Rightarrow> (ok (), s1\<lparr>fw_state := FS_Downloaded\<rparr>)
           | Some verify \<Rightarrow>
               (case verify data s1 of
                  (Inl e, s2) \<Rightarrow>
                    (Inl e, s2\<lparr>fw_package_data := [], fw_update_result := FR_IntegrityCheckFailure\<rparr>)
                | (Inr _, s2) \<Rightarrow> (ok (), s2\<lparr>fw_state := FS_Downloaded\<rparr>)))"

definition download_complete :: "bool \<Rightarrow> firmware_object \<Rightarrow> firmware_object" where
  "download_complete success s =
     (if fw_state s \<noteq> FS_Downloading then s
      else if success then s\<lparr>fw_state := FS_Downloaded\<rparr>
      else s\<lparr>fw_state := FS_Idle, fw_update_result := FR_ConnectionLostDuringDownload\<rparr>)"

definition update_complete :: "firmware_update_result \<Rightarrow> firmware_object \<Rightarrow> firmware_object" where
  "update_complete r s =
     (let s1 = s\<lparr>fw_state := FS_Idle, fw_update_result := r, fw_package_data := []\<rparr>
      in if r = FR_Success then s1\<lparr>fw_package_name := [], fw_package_version := []\<rparr> else s1)"

section \<open>Resources\<close>

definition firmware_list_resources :: "instance_id \<Rightarrow> resource_id list" where
  "firmware_list_resources iid = map Strong [0, 1, 2, 3, 5, 6, 7, 8, 9]"

definition firmware_get_resource_type ::
  "firmware_object \<Rightarrow> instance_id \<Rightarrow> resource_id \<Rightarrow> resource_type option" where
  "firmware_get_resource_type s iid rid =
     (let n = strong_value rid
      in if n = 0 then Some T_Opaque
         else if n = 1 \<or> n = 6 \<or> n = 7 then Some T_String
         else if n = 3 \<or> n = 5 \<or> n = 8 \<or> n = 9 then Some T_Integer
         else None)"

definition firmware_read_resource ::
  "firmware_object \<Rightarrow> instance_id \<Rightarrow> resource_id \<Rightarrow> resource_instance_id option \<Rightarrow>
   resource_value result" where
  "firmware_read_resource s iid rid riid =
     (if strong_value iid \<noteq> 0 then err E_NotFound ''Instance not found''
      else
        let n = strong_value rid
        in if n = 0 then err E_MethodNotAllowed ''Package is write-only''
           else if n = 1 then err E_MethodNotAllowed ''Package URI is write-only''
           else if n = 3 then ok (V_Int (ucast (firmware_state_value (fw_state s))))
           else if n = 5 then ok (V_Int (ucast (firmware_result_value (fw_update_result s))))
           else if n = 6 then ok (V_String (fw_package_name s))
           else if n = 7 then ok (V_String (fw_package_version s))
           else if n = 8 then
             read_multiple (\<lambda>p. V_Int (ucast (firmware_protocol_value p)))
               (fw_supported_protocols s) riid (err E_NotFound ''No protocols defined'')
           else if n = 9 then ok (V_Int (ucast (firmware_delivery_value (fw_delivery_method s))))
           else err E_NotFound ''Resource not found'')"

definition write_package_uri ::
  "firmware_callbacks \<Rightarrow> string \<Rightarrow> firmware_object \<Rightarrow> unit result \<times> firmware_object" where
  "write_package_uri cbs uri s =
     (let s1 = s\<lparr>fw_package_uri := uri, fw_update_result := FR_Initial\<rparr>
      in case cb_start_download cbs of
           None \<Rightarrow> (ok (), s1)
         | Some start \<Rightarrow>
             (case start uri s1 of
                (Inr _, s2) \<Rightarrow> (ok (), s2\<lparr>fw_state := FS_Downloading\<rparr>)
              | (Inl e, s2) \<Rightarrow> (Inl e, s2\<lparr>fw_update_result := FR_InvalidUri\<rparr>)))"

definition firmware_write_resource ::
  "firmware_callbacks \<Rightarrow> instance_id \<Rightarrow> resource_id \<Rightarrow> resource_instance_id option \<Rightarrow>
   resource_value \<Rightarrow> firmware_object \<Rightarrow> unit result \<times> firmware_object" where
  "firmware_write_resource cbs iid rid riid v s =
     (if strong_value iid \<noteq> 0 then (err E_NotFound ''Instance not found'', s)
      else
        let n = strong_value rid
        in if n = 0 then
             (if fw_state s \<noteq> FS_Idle \<and> fw_state s \<noteq> FS_Downloaded
              then (err E_MethodNotAllowed ''Cannot write package in current state'', s)
              else case v of
                  V_Opaque data \<Rightarrow> push_package cbs data s
                | _ \<Rightarrow> (err E_BadRequest ''Invalid value type'', s))
           else if n = 1 then
             (if fw_state s \<noteq> FS_Idle
              then (err E_MethodNotAllowed ''Cannot write URI in current state'', s)
              else case v of
                  V_String uri \<Rightarrow> write_package_uri cbs uri s
                | _ \<Rightarrow> (err E_BadRequest ''Invalid value type'', s))
           else (err E_MethodNotAllowed ''Resource is read-only'', s))"

definition firmware_execute_resource ::
  "firmware_callbacks \<Rightarrow> instance_id \<Rightarrow> resource_id \<Rightarrow> string \<Rightarrow> firmware_object \<Rightarrow>
   unit result \<times> firmware_object" where
  "firmware_execute_resource cbs iid rid args s =
     (if strong_value iid \<noteq> 0 then (err E_NotFound ''Instance not found'', s)
      else if strong_value rid = 2 then
        (if fw_state s \<noteq> FS_Downloaded
         then (err E_MethodNotAllowed ''Cannot update: not in Downloaded state'', s)
         else case cb_apply_update cbs of
             None \<Rightarrow> (ok (), s)
           | Some apply_update \<Rightarrow>
               (case apply_update (s\<lparr>fw_state := FS_Updating\<rparr>) of
                  (Inl e, s1) \<Rightarrow>
                    (Inl e, s1\<lparr>fw_state := FS_Idle, fw_update_result := FR_UpdateFailed\<rparr>)
                | (Inr _, s1) \<Rightarrow> (ok (), s1)))
      else (err E_MethodNotAllowed ''Resource is not executable'', s))"

section \<open>The contract\<close>

lemma firmware_read_typed:
  "firmware_read_resource s iid rid riid = ok v \<Longrightarrow>
   firmware_get_resource_type s iid rid = Some t \<Longrightarrow> get_resource_type v = t"
  by (auto simp: firmware_read_resource_def firmware_get_resource_type_def Let_def
      split: if_splits dest: read_multiple_type)

interpretation firmware: single_object firmware_get_resource_type
  "\<lambda>iid rid riid s. (firmware_read_resource s iid rid riid, s)" "firmware_write_resource cbs"
  for cbs
  by unfold_locales
    (simp add: firmware_read_resource_def, simp add: firmware_write_resource_def,
      auto dest: firmware_read_typed)

section \<open>The state machine\<close>

text \<open>
  The callbacks the theorems below assume: they answer, and leave the object alone, as the
  repository's own do (they start a thread that later calls \<open>download_complete\<close>).
\<close>

definition detached :: "firmware_callbacks \<Rightarrow> bool" where
  "detached cbs \<longleftrightarrow>
     (\<forall>f. cb_start_download cbs = Some f \<longrightarrow> (\<forall>uri s. snd (f uri s) = s)) \<and>
     (\<forall>f. cb_verify_package cbs = Some f \<longrightarrow> (\<forall>data s. snd (f data s) = s)) \<and>
     (\<forall>f. cb_apply_update cbs = Some f \<longrightarrow> (\<forall>s. snd (f s) = s))"

lemma detachedD:
  assumes "detached cbs"
  shows "cb_start_download cbs = Some f1 \<Longrightarrow> snd (f1 uri s) = s"
    "cb_verify_package cbs = Some f2 \<Longrightarrow> snd (f2 data s) = s"
    "cb_apply_update cbs = Some f3 \<Longrightarrow> snd (f3 s) = s"
  using assms by (simp_all add: detached_def)

text \<open>
  One request of the server, or one notification of the application. The setters of state and result,
  by which an application can put the object into any state, are not among them.
\<close>

inductive firmware_step :: "firmware_callbacks \<Rightarrow> firmware_object \<Rightarrow> firmware_object \<Rightarrow> bool"
  for cbs where
  server_write: "firmware_write_resource cbs iid rid riid v s = (r, s') \<Longrightarrow> firmware_step cbs s s'"
| server_execute: "firmware_execute_resource cbs iid rid args s = (r, s') \<Longrightarrow> firmware_step cbs s s'"
| app_push: "push_package cbs data s = (r, s') \<Longrightarrow> firmware_step cbs s s'"
| app_downloaded: "firmware_step cbs s (download_complete success s)"
| app_updated: "firmware_step cbs s (update_complete r s)"
| app_info: "firmware_step cbs s (set_package_info n v s)"

inductive_cases firmware_stepE: "firmware_step cbs s s'"

text \<open>The edges of the state machine.\<close>

fun firmware_edge :: "firmware_state \<Rightarrow> firmware_state \<Rightarrow> bool" where
  "firmware_edge FS_Idle t = (t = FS_Downloading \<or> t = FS_Downloaded)"
| "firmware_edge FS_Downloading t = (t = FS_Downloaded \<or> t = FS_Idle)"
| "firmware_edge FS_Downloaded t = (t = FS_Updating \<or> t = FS_Idle)"
| "firmware_edge FS_Updating t = (t = FS_Idle)"

text \<open>
  The result that goes with each state: while nothing has failed or finished it is
  \<open>Initial\<close>; outside \<open>Idle\<close> the one other result is that of a package refused
  while an earlier one was in place.
\<close>

definition firmware_result_ok :: "firmware_object \<Rightarrow> bool" where
  "firmware_result_ok s \<longleftrightarrow>
     (fw_state s = FS_Downloading \<longrightarrow> fw_update_result s = FR_Initial) \<and>
     (fw_state s \<in> {FS_Downloaded, FS_Updating} \<longrightarrow>
        fw_update_result s = FR_Initial \<or>
        fw_update_result s = FR_IntegrityCheckFailure \<and> fw_package_data s = [])"

lemma push_package_cases:
  assumes "detached cbs" "push_package cbs data s = (r, s')"
  obtains (refused) "fw_state s \<in> {FS_Downloading, FS_Updating}" "s' = s" "is_err r"
  | (stored) "fw_state s \<in> {FS_Idle, FS_Downloaded}" "r = ok ()"
      "s' = s\<lparr>fw_package_data := data, fw_update_result := FR_Initial, fw_state := FS_Downloaded\<rparr>"
  | (invalid) "fw_state s \<in> {FS_Idle, FS_Downloaded}" "is_err r"
      "s' = s\<lparr>fw_package_data := [], fw_update_result := FR_IntegrityCheckFailure\<rparr>"
proof (cases "fw_state s \<in> {FS_Downloading, FS_Updating}")
  case True
  then show ?thesis using assms(2) by (intro that(1)) (auto simp: push_package_def)
next
  case False
  then have st: "fw_state s \<in> {FS_Idle, FS_Downloaded}" by (cases "fw_state s") simp_all
  show ?thesis
  proof (cases "cb_verify_package cbs")
    case None
    then show ?thesis using assms(2) st by (intro that(2)) (auto simp: push_package_def)
  next
    case (Some f)
    define s1 where "s1 = s\<lparr>fw_package_data := data, fw_update_result := FR_Initial\<rparr>"
    obtain w where f: "f data s1 = (w, s1)"
      using detachedD(2) [OF assms(1) Some, of data s1] by (cases "f data s1") simp
    show ?thesis
    proof (cases w)
      case (Inl e)
      then show ?thesis using assms(2) st Some f
        by (intro that(3)) (auto simp: push_package_def s1_def Let_def)
    next
      case (Inr u)
      then show ?thesis using assms(2) st Some f
        by (intro that(2)) (auto simp: push_package_def s1_def Let_def)
    qed
  qed
qed

lemma write_uri_cases:
  assumes "detached cbs" "write_package_uri cbs uri s = (r, s')"
  obtains (no_callback) "cb_start_download cbs = None" "r = ok ()"
      "s' = s\<lparr>fw_package_uri := uri, fw_update_result := FR_Initial\<rparr>"
  | (started) "r = ok ()"
      "s' = s\<lparr>fw_package_uri := uri, fw_update_result := FR_Initial, fw_state := FS_Downloading\<rparr>"
  | (failed) "is_err r"
      "s' = s\<lparr>fw_package_uri := uri, fw_update_result := FR_InvalidUri\<rparr>"
proof (cases "cb_start_download cbs")
  case None
  then show ?thesis using assms(2) by (intro that(1)) (auto simp: write_package_uri_def)
next
  case (Some f)
  define s1 where "s1 = s\<lparr>fw_package_uri := uri, fw_update_result := FR_Initial\<rparr>"
  obtain w where f: "f uri s1 = (w, s1)"
    using detachedD(1) [OF assms(1) Some, of uri s1] by (cases "f uri s1") simp
  show ?thesis
  proof (cases w)
    case (Inl e)
    then show ?thesis using assms(2) Some f
      by (intro that(3)) (auto simp: write_package_uri_def s1_def Let_def)
  next
    case (Inr u)
    then show ?thesis using assms(2) Some f
      by (intro that(2)) (auto simp: write_package_uri_def s1_def Let_def)
  qed
qed

lemma firmware_write_cases:
  assumes "firmware_write_resource cbs iid rid riid v s = (r, s')"
  obtains (refused) "s' = s" "is_err r"
  | (pushed) data where "v = V_Opaque data" "push_package cbs data s = (r, s')"
  | (uri) uri where "v = V_String uri" "fw_state s = FS_Idle" "write_package_uri cbs uri s = (r, s')"
proof -
  consider "strong_value iid \<noteq> 0 \<or> (strong_value rid \<noteq> 0 \<and> strong_value rid \<noteq> 1)"
    | "strong_value iid = 0" "strong_value rid = 0" | "strong_value iid = 0" "strong_value rid = 1"
    by blast
  then show ?thesis
  proof cases
    case 1
    then show ?thesis using assms by (intro that(1)) (auto simp: firmware_write_resource_def split: if_splits)
  next
    case 2
    then show ?thesis using assms that(1,2)
      by (cases v) (auto simp: firmware_write_resource_def split: if_splits)
  next
    case 3
    then show ?thesis using assms that(1,3)
      by (cases v) (auto simp: firmware_write_resource_def split: if_splits)
  qed
qed

lemma firmware_execute_cases:
  assumes "detached cbs" "firmware_execute_resource cbs iid rid args s = (r, s')"
  obtains (refused) "s' = s" "is_err r"
  | (no_callback) "fw_state s = FS_Downloaded" "cb_apply_update cbs = None" "s' = s" "r = ok ()"
  | (updating) "fw_state s = FS_Downloaded" "s' = s\<lparr>fw_state := FS_Updating\<rparr>" "r = ok ()"
  | (failed) "fw_state s = FS_Downloaded" "is_err r"
      "s' = s\<lparr>fw_state := FS_Idle, fw_update_result := FR_UpdateFailed\<rparr>"
proof (cases "strong_value iid = 0 \<and> strong_value rid = 2 \<and> fw_state s = FS_Downloaded")
  case False
  then show ?thesis using assms(2)
    by (intro that(1)) (auto simp: firmware_execute_resource_def split: if_splits)
next
  case True
  show ?thesis
  proof (cases "cb_apply_update cbs")
    case None
    then show ?thesis using assms(2) True
      by (intro that(2)) (auto simp: firmware_execute_resource_def)
  next
    case (Some f)
    obtain w where f: "f (s\<lparr>fw_state := FS_Updating\<rparr>) = (w, s\<lparr>fw_state := FS_Updating\<rparr>)"
      using detachedD(3) [OF assms(1) Some, of "s\<lparr>fw_state := FS_Updating\<rparr>"]
      by (cases "f (s\<lparr>fw_state := FS_Updating\<rparr>)") simp
    show ?thesis
    proof (cases w)
      case (Inl e)
      then show ?thesis using assms(2) True Some f
        by (intro that(4)) (auto simp: firmware_execute_resource_def)
    next
      case (Inr u)
      then show ?thesis using assms(2) True Some f
        by (intro that(3)) (auto simp: firmware_execute_resource_def)
    qed
  qed
qed

lemmas firmware_app_defs = download_complete_def update_complete_def set_package_info_def
  set_supported_protocols_def set_delivery_method_def set_firmware_state_def set_update_result_def Let_def

text \<open>Every step follows an edge of the state machine, or stays where it is.\<close>

lemma push_package_edge:
  assumes "detached cbs" "push_package cbs data s = (r, s')"
  shows "fw_state s' = fw_state s \<or> firmware_edge (fw_state s) (fw_state s')"
  by (rule push_package_cases [OF assms]) auto

lemma firmware_step_edge:
  assumes "detached cbs" "firmware_step cbs s s'"
  shows "fw_state s' = fw_state s \<or> firmware_edge (fw_state s) (fw_state s')"
  using assms(2)
proof cases
  case (server_write iid rid riid v r)
  then show ?thesis
  proof (cases rule: firmware_write_cases)
    case (pushed data)
    from assms(1) pushed(2) show ?thesis by (rule push_package_edge)
  next
    case (uri uri)
    from assms(1) uri(3) show ?thesis by (rule write_uri_cases) (simp_all add: uri(2))
  qed simp
next
  case (server_execute iid rid args r)
  with assms(1) show ?thesis by (rule firmware_execute_cases) simp_all
next
  case (app_push data r)
  with assms(1) show ?thesis by (simp add: push_package_edge)
next
  case (app_updated r)
  then show ?thesis by (cases "fw_state s") (simp_all add: firmware_app_defs)
qed (auto simp: firmware_app_defs)

lemma push_package_result_ok:
  assumes "detached cbs" "firmware_result_ok s" "push_package cbs data s = (r, s')"
  shows "firmware_result_ok s'"
  by (rule push_package_cases [OF assms(1,3)])
    (use assms(2) in \<open>auto simp: firmware_result_ok_def\<close>)

lemma firmware_step_result_ok:
  assumes "detached cbs" "firmware_step cbs s s'" "firmware_result_ok s"
  shows "firmware_result_ok s'"
  using assms(2)
proof cases
  case (server_write iid rid riid v r)
  then show ?thesis
  proof (cases rule: firmware_write_cases)
    case (pushed data)
    with assms(1,3) show ?thesis by (blast intro: push_package_result_ok)
  next
    case (uri uri)
    from assms(1) uri(3) show ?thesis
      by (rule write_uri_cases) (simp_all add: uri(2) firmware_result_ok_def)
  qed (use assms(3) in simp)
next
  case (server_execute iid rid args r)
  with assms(1) show ?thesis
    by (rule firmware_execute_cases) (use assms(3) in \<open>auto simp: firmware_result_ok_def\<close>)
next
  case (app_push data r)
  with assms(1,3) show ?thesis by (blast intro: push_package_result_ok)
qed (use assms(3) in \<open>auto simp: firmware_app_defs firmware_result_ok_def\<close>)

text \<open>
  Any use of the object: the steps above, with callbacks that the application may replace in
  between but that do not call the object themselves, the other configuration, and the setters of
  state and result as far as they reset.
\<close>

inductive firmware_used :: "firmware_object \<Rightarrow> bool" where
  used_init: "firmware_used firmware_init"
| used_step: "firmware_used s \<Longrightarrow> detached cbs \<Longrightarrow> firmware_step cbs s s' \<Longrightarrow> firmware_used s'"
| used_protocols: "firmware_used s \<Longrightarrow> firmware_used (set_supported_protocols ps s)"
| used_delivery: "firmware_used s \<Longrightarrow> firmware_used (set_delivery_method m s)"
| used_set_state: "firmware_used s \<Longrightarrow> t = FS_Idle \<or> fw_update_result s = FR_Initial \<Longrightarrow>
    firmware_used (set_firmware_state t s)"
| used_set_result: "firmware_used s \<Longrightarrow> fw_state s = FS_Idle \<or> r = FR_Initial \<Longrightarrow>
    firmware_used (set_update_result r s)"

lemma firmware_used_result_ok: "firmware_used s \<Longrightarrow> firmware_result_ok s"
proof (induction rule: firmware_used.induct)
  case (used_step s cbs s')
  then show ?case by (blast intro: firmware_step_result_ok)
qed (auto simp: firmware_init_def firmware_result_ok_def firmware_app_defs)

section \<open>Properties\<close>

text \<open>C32: every request of the server and every notification of the application follows an edge of
  the update state machine (Idle to Downloading or Downloaded, Downloading to Downloaded or Idle,
  Downloaded to Updating or Idle, Updating to Idle) or leaves the state as it is.\<close>

theorem firmware_follows_edges:
  assumes "detached cbs" "firmware_step cbs s s'"
  shows "fw_state s' = fw_state s \<or> firmware_edge (fw_state s) (fw_state s')"
  by (rule firmware_step_edge [OF assms])

theorem firmware_follows_edges_witness:
  "fw_state (download_complete True (firmware_init\<lparr>fw_state := FS_Downloading\<rparr>)) = FS_Downloading \<or>
   firmware_edge FS_Downloading
     (fw_state (download_complete True (firmware_init\<lparr>fw_state := FS_Downloading\<rparr>)))"
proof -
  have "detached \<lparr>cb_start_download = None, cb_verify_package = None, cb_apply_update = None\<rparr>"
    by (simp add: detached_def)
  from firmware_follows_edges [OF this app_downloaded [of _ "firmware_init\<lparr>fw_state := FS_Downloading\<rparr>" True]]
  show ?thesis by simp
qed

text \<open>C33: in every state that the object reaches with callbacks that do not call it back, the update
  result fits the state: \<open>Initial\<close> while downloading, and, once a package is in place or being
  applied, \<open>Initial\<close> or the integrity failure of a package whose data is gone. Of the
  application's setters of state and result this allows the uses that reset: the state \<open>Idle\<close> at
  any time and any state while the result is \<open>Initial\<close>, the result \<open>Initial\<close> at any time
  and any result in \<open>Idle\<close>. Other uses can break it: set to a state other than \<open>Idle\<close>
  and to any other failure, the object never fits.\<close>

theorem firmware_reachable_results:
  assumes "firmware_used s"
  shows "firmware_result_ok s \<and>
    (t \<noteq> FS_Idle \<and> r \<notin> {FR_Initial, FR_IntegrityCheckFailure} \<longrightarrow>
     \<not> firmware_result_ok (set_update_result r (set_firmware_state t s)))"
  using firmware_used_result_ok [OF assms]
  by (cases t) (auto simp: firmware_result_ok_def firmware_app_defs)

theorem firmware_reachable_results_witness:
  "\<exists>s. firmware_write_resource \<lparr>cb_start_download = Some (\<lambda>_. Pair (ok ())), cb_verify_package = None,
        cb_apply_update = None\<rparr> (Strong 0) (Strong 1) None (V_String ''http://h/f'')
      (set_update_result FR_UpdateFailed firmware_init) = (ok (), s) \<and>
    fw_state s = FS_Downloading \<and> fw_update_result s = FR_Initial"
proof -
  let ?cbs = "\<lparr>cb_start_download = Some (\<lambda>_. Pair (ok ())), cb_verify_package = None,
    cb_apply_update = None\<rparr> :: firmware_callbacks"
  let ?s0 = "set_update_result FR_UpdateFailed firmware_init"
  obtain r s where w: "firmware_write_resource ?cbs (Strong 0) (Strong 1) None (V_String ''http://h/f'') ?s0 =
      (r, s)" by fastforce
  then have s: "r = ok ()" "fw_state s = FS_Downloading"
    by (auto simp: firmware_write_resource_def write_package_uri_def set_update_result_def
        firmware_init_def Let_def)
  have "detached ?cbs" by (simp add: detached_def)
  moreover have "firmware_used ?s0"
    by (rule used_set_result [OF used_init]) (simp add: firmware_init_def)
  ultimately have "firmware_used s" using used_step server_write [OF w] by blast
  from firmware_reachable_results [OF this] w s show ?thesis by (auto simp: firmware_result_ok_def)
qed

text \<open>while a download or an update is running, no write and no execute of the server has any
  effect or success, whatever the callbacks are.\<close>

theorem firmware_busy_refuses:
  assumes "fw_state s \<in> {FS_Downloading, FS_Updating}"
  shows "(\<exists>e. firmware_write_resource cbs iid rid riid v s = (Inl e, s)) \<and>
    (\<exists>e. firmware_execute_resource cbs iid rid args s = (Inl e, s))"
  using assms
  by (auto simp: firmware_write_resource_def firmware_execute_resource_def err_def Let_def)

theorem firmware_busy_refuses_witness:
  "\<exists>e. firmware_execute_resource
     \<lparr>cb_start_download = None, cb_verify_package = None, cb_apply_update = Some (Pair (ok ()))\<rparr>
     (Strong 0) (Strong 2) [] (firmware_init\<lparr>fw_state := FS_Updating\<rparr>) =
     (Inl e, firmware_init\<lparr>fw_state := FS_Updating\<rparr>)"
  using firmware_busy_refuses [of "firmware_init\<lparr>fw_state := FS_Updating\<rparr>"] by fastforce

text \<open>C34: a package that fails verification while an earlier one is in place is refused, and its
  data is dropped, but the object stays in \<open>Downloaded\<close>: the Update that follows is accepted and
  runs the apply callback with no package stored.\<close>

theorem firmware_rejected_package_still_updates:
  assumes "fw_state s = FS_Downloaded" "cb_verify_package cbs = Some verify"
    "\<And>st. verify bad st = (Inl e, st)" "cb_apply_update cbs = Some apply_update"
    "\<And>st. apply_update st = (ok (), st)"
  shows "\<exists>s1 s2. firmware_write_resource cbs (Strong 0) (Strong 0) riid (V_Opaque bad) s = (Inl e, s1) \<and>
    fw_package_data s1 = [] \<and> fw_update_result s1 = FR_IntegrityCheckFailure \<and>
    firmware_execute_resource cbs (Strong 0) (Strong 2) args s1 = (ok (), s2) \<and>
    fw_state s2 = FS_Updating"
  using assms
  by (simp add: firmware_write_resource_def push_package_def firmware_execute_resource_def)

theorem firmware_rejected_package_still_updates_witness:
  "\<exists>s1 s2. firmware_write_resource
      \<lparr>cb_start_download = None, cb_verify_package = Some (\<lambda>_ st. (err E_BadRequest ''bad'', st)),
       cb_apply_update = Some (Pair (ok ()))\<rparr>
      (Strong 0) (Strong 0) None (V_Opaque [1]) (firmware_init\<lparr>fw_state := FS_Downloaded, fw_package_data := [9]\<rparr>) =
      (err E_BadRequest ''bad'', s1) \<and>
    fw_package_data s1 = [] \<and> fw_update_result s1 = FR_IntegrityCheckFailure \<and>
    firmware_execute_resource
      \<lparr>cb_start_download = None, cb_verify_package = Some (\<lambda>_ st. (err E_BadRequest ''bad'', st)),
       cb_apply_update = Some (Pair (ok ()))\<rparr> (Strong 0) (Strong 2) [] s1 = (ok (), s2) \<and>
    fw_state s2 = FS_Updating"
  unfolding err_def
  by (rule firmware_rejected_package_still_updates) (simp_all add: err_def)

end
