(* ===== verification/Location_Object.thy ===== *)
theory Location_Object
  imports Objects Floats
begin

text \<open>
  \<open>include/lwm2m/objects/location.hpp\<close> and \<open>src/objects/location.cpp\<close>: the Location object
  (ID 6), which refreshes its position from the application's provider on every read.
\<close>

section \<open>State\<close>

record gps_position =
  gps_latitude :: double
  gps_longitude :: double
  gps_altitude :: double
  gps_speed :: double
  gps_radius :: double
  gps_timestamp :: time_point

text \<open>The constants are the bit patterns of 90.0, -90.0, 180.0 and -180.0.\<close>

definition is_valid :: "gps_position \<Rightarrow> bool" where
  "is_valid p \<longleftrightarrow>
     double_le 0xC056800000000000 (gps_latitude p) \<and> double_le (gps_latitude p) 0x4056800000000000 \<and>
     double_le 0xC066800000000000 (gps_longitude p) \<and> double_le (gps_longitude p) 0x4066800000000000"

record location_object =
  loc_position :: gps_position
  loc_has_position :: bool

definition location_init :: "time_point \<Rightarrow> location_object" where
  "location_init now = \<lparr>loc_position = \<lparr>gps_latitude = 0, gps_longitude = 0, gps_altitude = 0,
     gps_speed = 0, gps_radius = 0, gps_timestamp = now\<rparr>, loc_has_position = False\<rparr>"

section \<open>Positions\<close>

definition update_position :: "gps_position \<Rightarrow> location_object \<Rightarrow> location_object" where
  "update_position p s = s\<lparr>loc_position := p, loc_has_position := is_valid p\<rparr>"

text \<open>
  \<open>provided\<close> is what the GPS provider answers at this call: \<open>None\<close> when no provider is
  set, \<open>Some None\<close> when the one set has no position.
\<close>

definition refresh_position :: "gps_position option option \<Rightarrow> location_object \<Rightarrow> location_object" where
  "refresh_position provided s =
     (case provided of
        None \<Rightarrow> s
      | Some None \<Rightarrow> s
      | Some (Some p) \<Rightarrow> s\<lparr>loc_position := p, loc_has_position := is_valid p\<rparr>)"

section \<open>Resources\<close>

definition location_list_resources :: "instance_id \<Rightarrow> resource_id list" where
  "location_list_resources iid = map Strong [0, 1, 2, 3, 5, 6]"

definition location_read_resource ::
  "gps_position option option \<Rightarrow> instance_id \<Rightarrow> resource_id \<Rightarrow> resource_instance_id option \<Rightarrow>
   location_object \<Rightarrow> resource_value result \<times> location_object" where
  "location_read_resource provided iid rid riid s =
     (if strong_value iid \<noteq> 0 then (err E_NotFound ''Instance not found'', s)
      else
        let s1 = refresh_position provided s; p = loc_position s1; n = strong_value rid
        in if \<not> loc_has_position s1 then (err E_NotFound ''Position not available'', s1)
           else if n = 0 then (ok (V_Float (gps_latitude p)), s1)
           else if n = 1 then (ok (V_Float (gps_longitude p)), s1)
           else if n = 2 then (ok (V_Float (gps_altitude p)), s1)
           else if n = 3 then (ok (V_Float (gps_radius p)), s1)
           else if n = 4 then (err E_NotFound ''Velocity not implemented'', s1)
           else if n = 5 then (ok (V_Time (gps_timestamp p)), s1)
           else if n = 6 then (ok (V_Float (gps_speed p)), s1)
           else (err E_NotFound ''Resource not found'', s1))"

definition location_write_resource ::
  "instance_id \<Rightarrow> resource_id \<Rightarrow> resource_instance_id option \<Rightarrow> resource_value \<Rightarrow> location_object \<Rightarrow>
   unit result \<times> location_object" where
  "location_write_resource iid rid riid v s =
     (if strong_value iid \<noteq> 0 then (err E_NotFound ''Instance not found'', s)
      else (err E_MethodNotAllowed ''Location resources are read-only'', s))"

definition location_execute_resource ::
  "location_object \<Rightarrow> instance_id \<Rightarrow> resource_id \<Rightarrow> string \<Rightarrow> unit result" where
  "location_execute_resource s iid rid args =
     (if strong_value iid \<noteq> 0 then err E_NotFound ''Instance not found''
      else err E_MethodNotAllowed ''Resource is not executable'')"

section \<open>The contract\<close>

text \<open>The class registers no resource, so that the type of every resource is unknown.\<close>

definition location_get_resource_type ::
  "location_object \<Rightarrow> instance_id \<Rightarrow> resource_id \<Rightarrow> resource_type option" where
  "location_get_resource_type s iid rid =
     object_get_resource_type (object_init :: location_object object_base) iid rid"

interpretation location: single_object location_get_resource_type
  "location_read_resource provided" location_write_resource
  for provided
  by unfold_locales
    (simp_all add: location_read_resource_def location_write_resource_def
      location_get_resource_type_def)

section \<open>A position is offered only when it is valid\<close>

definition position_ok :: "location_object \<Rightarrow> bool" where
  "position_ok s \<longleftrightarrow> (loc_has_position s \<longrightarrow> is_valid (loc_position s))"

lemma position_ok_init: "position_ok (location_init now)"
  by (simp add: position_ok_def location_init_def)

lemma position_ok_update: "position_ok (update_position p s)"
  by (simp add: position_ok_def update_position_def)

lemma position_ok_refresh: "position_ok s \<Longrightarrow> position_ok (refresh_position provided s)"
  by (simp add: position_ok_def refresh_position_def split: option.split)

lemma location_read_state:
  "snd (location_read_resource provided iid rid riid s) =
     (if strong_value iid \<noteq> 0 then s else refresh_position provided s)"
  by (simp add: location_read_resource_def Let_def)

lemma location_read_ok:
  assumes "location_read_resource provided iid rid riid s = (ok v, s')"
  shows "strong_value iid = 0" "s' = refresh_position provided s" "loc_has_position s'"
proof -
  show iid: "strong_value iid = 0"
    using assms by (simp add: location_read_resource_def split: if_splits)
  show s': "s' = refresh_position provided s"
    using location_read_state [of provided iid rid riid s] assms iid by simp
  show "loc_has_position s'"
    using assms iid s' by (auto simp: location_read_resource_def Let_def split: if_splits)
qed

section \<open>Properties\<close>

text \<open>C38: starting from a state whose offered position is valid, a read hands out a value only from a
  position that is valid after the refresh, and keeps the invariant.\<close>

theorem location_reads_valid_position:
  assumes "position_ok s" "location_read_resource provided iid rid riid s = (r, s')"
  shows "position_ok s' \<and> (is_ok r \<longrightarrow> is_valid (loc_position s'))"
proof -
  have "position_ok s'"
    using assms(1) location_read_state [of provided iid rid riid s] assms(2)
    by (simp add: position_ok_refresh split: if_splits)
  moreover have "is_ok r \<Longrightarrow> loc_has_position s'"
    using location_read_ok(3) assms(2) by (cases r) auto
  ultimately show ?thesis by (simp add: position_ok_def)
qed

theorem location_reads_valid_position_witness:
  "position_ok (snd (location_read_resource None (Strong 0) (Strong 0) None (location_init 0)))"
  using location_reads_valid_position [OF position_ok_init [of 0] prod.collapse [symmetric],
      of None "Strong 0" "Strong 0" None]
  by simp

text \<open>A position with a coordinate that is not a number is never valid.\<close>

theorem location_nan_invalid:
  "double_is_nan (gps_latitude p) \<or> double_is_nan (gps_longitude p) \<Longrightarrow> \<not> is_valid p"
  by (auto simp: is_valid_def dest: double_le_nan)

theorem location_nan_invalid_witness:
  "\<not> is_valid \<lparr>gps_latitude = 0x7FF8000000000000, gps_longitude = 0, gps_altitude = 0, gps_speed = 0,
     gps_radius = 0, gps_timestamp = 0\<rparr>"
  by (rule location_nan_invalid) (simp add: double_is_nan_def)

end
