(* ===== verification/Client_Objects.thy ===== *)
theory Client_Objects
  imports Tlv_Codec Security_Object Server_Object Device_Object Connectivity_Object Firmware_Object
    Location_Object
begin

text \<open>
  The state of \<open>Client\<close> (\<open>include/lwm2m/client.hpp\<close>) and its access to the objects: the
  table from object ids to objects, and the virtual calls through it. The interface of all objects
  is interpreted once more, on these calls.
\<close>

section \<open>Types\<close>

datatype client_state =
    CS_Idle | CS_Registering | CS_Registered | CS_Updating | CS_Deregistering
  | CS_BootstrapPending | CS_Bootstrapping | CS_Error

record registration =
  reg_location :: string
  reg_short_server_id :: u16
  reg_registered_at :: time_point
  reg_expires_at :: time_point

text \<open>Durations are the counts of their unit: milliseconds for the poll interval.\<close>

record client_config =
  ccf_endpoint_name :: string
  ccf_lifetime :: string
  ccf_binding_mode :: string
  ccf_queue_mode :: bool
  ccf_poll_interval :: i64
  ccf_update_trigger_threshold :: double

text \<open>The threshold's default is the bit pattern of 0.8.\<close>

definition default_client_config :: "string \<Rightarrow> client_config" where
  "default_client_config endpoint = \<lparr>ccf_endpoint_name = endpoint, ccf_lifetime = ''86400'',
     ccf_binding_mode = ''U'', ccf_queue_mode = False, ccf_poll_interval = 100,
     ccf_update_trigger_threshold = 0x3FE999999999999A\<rparr>"

record reconnection_config =
  rcf_enabled :: bool
  rcf_max_retries :: u16
  rcf_initial_backoff :: i64
  rcf_max_backoff :: i64
  rcf_backoff_multiplier :: double

text \<open>The multiplier's default is the bit pattern of 2.0.\<close>

definition default_reconnection_config :: reconnection_config where
  "default_reconnection_config = \<lparr>rcf_enabled = True, rcf_max_retries = 0, rcf_initial_backoff = 2,
     rcf_max_backoff = 300, rcf_backoff_multiplier = 0x4000000000000000\<rparr>"

text \<open>Which callbacks are set; they return nothing, and their calls are recorded in the log.\<close>

record client_callbacks =
  on_state_change :: bool
  on_registered :: bool
  on_deregistered :: bool
  on_error :: bool
  on_connection_lost :: bool
  on_reconnecting :: bool
  on_reconnected :: bool

definition no_callbacks :: client_callbacks where
  "no_callbacks = \<lparr>on_state_change = False, on_registered = False, on_deregistered = False,
     on_error = False, on_connection_lost = False, on_reconnecting = False, on_reconnected = False\<rparr>"

text \<open>What the client does to the outside: callbacks, requests sent, responses given.\<close>

datatype client_event =
    Ev_State_Change client_state client_state
  | Ev_Registered u16 registration
  | Ev_Deregistered u16
  | Ev_Error error_code string
  | Ev_Connection_Lost u16
  | Ev_Reconnecting u16 u16
  | Ev_Reconnected u16
  | Ev_Device device_call
  | Ev_Sent u16 coap_request
  | Ev_Answered coap_response
  | Ev_Disconnected u16

text \<open>
  A connection as the client sees it: the configuration it was opened with and
  \<open>is_connected()\<close>.
\<close>

record connection =
  con_config :: connection_config
  con_connected :: bool

text \<open>
  The object table refers to objects by pointer: the five mandatory objects are members of the
  client, and the one optional object of the repository is \<open>LocationObject\<close>.
\<close>

datatype object_ref =
    Ref_Security | Ref_Server | Ref_Device | Ref_Connectivity | Ref_Firmware | Ref_Location

record client =
  cl_config :: client_config
  cl_callbacks :: client_callbacks
  cl_log :: "client_event list"
  cl_objects :: "(u16, object_ref) umap"
  cl_connections :: "(u16, connection) umap"
  cl_registrations :: "(u16, registration) umap"
  cl_security :: security_object
  cl_server :: server_object
  cl_device :: device_object
  cl_connectivity :: connectivity_object
  cl_firmware :: firmware_object
  cl_firmware_callbacks :: firmware_callbacks
  cl_location :: location_object
  cl_state :: client_state
  cl_running :: bool
  cl_event_thread :: bool
  cl_reconnect_config :: reconnection_config
  cl_reconnecting :: bool
  cl_reconnect_attempts :: u16
  cl_reconnect_ssid :: u16
  cl_next_reconnect_time :: i64

fun object_ref_id :: "object_ref \<Rightarrow> object_id" where
  "object_ref_id Ref_Security = oid_Security"
| "object_ref_id Ref_Server = oid_Server"
| "object_ref_id Ref_Device = oid_Device"
| "object_ref_id Ref_Connectivity = oid_ConnectivityMonitoring"
| "object_ref_id Ref_Firmware = oid_FirmwareUpdate"
| "object_ref_id Ref_Location = oid_Location"

definition add_object :: "object_ref \<Rightarrow> client \<Rightarrow> client" where
  "add_object r c = c\<lparr>cl_objects := umap_set (cl_objects c) (strong_value (object_ref_id r)) r\<rparr>"

definition get_object :: "client \<Rightarrow> object_id \<Rightarrow> object_ref option" where
  "get_object c oid = umap_find (cl_objects c) (strong_value oid)"

text \<open>The accessors of the objects that the client itself owns.\<close>

definition security_accessor :: "client \<Rightarrow> object_ref" where
  "security_accessor c = Ref_Security"

definition server_accessor :: "client \<Rightarrow> object_ref" where
  "server_accessor c = Ref_Server"

definition device_accessor :: "client \<Rightarrow> object_ref" where
  "device_accessor c = Ref_Device"

definition connectivity_accessor :: "client \<Rightarrow> object_ref" where
  "connectivity_accessor c = Ref_Connectivity"

definition firmware_update_accessor :: "client \<Rightarrow> object_ref" where
  "firmware_update_accessor c = Ref_Firmware"

text \<open>
  The constructor; \<open>now\<close> is the time at which the application's Location object was made.
\<close>

definition client_init :: "client_config \<Rightarrow> time_point \<Rightarrow> client" where
  "client_init config now =
     (let c = \<lparr>cl_config = config, cl_callbacks = no_callbacks, cl_log = [], cl_objects = [],
            cl_connections = [], cl_registrations = [], cl_security = security_init,
            cl_server = server_init, cl_device = device_init default_device_config,
            cl_connectivity = connectivity_init default_connectivity_config,
            cl_firmware = firmware_init,
            cl_firmware_callbacks = \<lparr>cb_start_download = None, cb_verify_package = None,
              cb_apply_update = None\<rparr>,
            cl_location = location_init now, cl_state = CS_Idle, cl_running = False,
            cl_event_thread = False, cl_reconnect_config = default_reconnection_config,
            cl_reconnecting = False, cl_reconnect_attempts = 0, cl_reconnect_ssid = 0,
            cl_next_reconnect_time = 0\<rparr>;
          c = add_object Ref_Security c;
          c = add_object Ref_Server c;
          c = add_object Ref_Device c;
          c = add_object Ref_Connectivity c;
          c = add_object Ref_Firmware c
      in c\<lparr>cl_server := set_registration_update_callback True (cl_server c)\<rparr>)"

section \<open>Virtual calls\<close>

text \<open>
  What the code called reads from the outside while one request is handled: the system clock and,
  per resource, the answer of the GPS provider (a request reads each resource at most once).
\<close>

record request_env =
  env_now :: time_point
  env_gps :: "resource_id \<Rightarrow> gps_position option option"

fun obj_list_instances :: "object_ref \<Rightarrow> client \<Rightarrow> instance_id list" where
  "obj_list_instances Ref_Security c = security_list_instances (cl_security c)"
| "obj_list_instances Ref_Server c = server_list_instances (cl_server c)"
| "obj_list_instances _ c = single_list_instances"

fun obj_has_instance :: "object_ref \<Rightarrow> client \<Rightarrow> instance_id \<Rightarrow> bool" where
  "obj_has_instance Ref_Security c iid = security_has_instance (cl_security c) iid"
| "obj_has_instance Ref_Server c iid = server_has_instance (cl_server c) iid"
| "obj_has_instance _ c iid = single_has_instance iid"

fun obj_create_instance ::
  "object_ref \<Rightarrow> instance_id option \<Rightarrow> client \<Rightarrow> instance_id result \<times> client" where
  "obj_create_instance Ref_Security suggested c =
     (let (r, s) = security_create_instance suggested (cl_security c) in (r, c\<lparr>cl_security := s\<rparr>))"
| "obj_create_instance Ref_Server suggested c =
     (let (r, s) = server_create_instance suggested (cl_server c) in (r, c\<lparr>cl_server := s\<rparr>))"
| "obj_create_instance _ suggested c = (single_create_instance suggested, c)"

fun obj_delete_instance :: "object_ref \<Rightarrow> instance_id \<Rightarrow> client \<Rightarrow> unit result \<times> client" where
  "obj_delete_instance Ref_Security iid c =
     (let (r, s) = security_delete_instance iid (cl_security c) in (r, c\<lparr>cl_security := s\<rparr>))"
| "obj_delete_instance Ref_Server iid c =
     (let (r, s) = server_delete_instance iid (cl_server c) in (r, c\<lparr>cl_server := s\<rparr>))"
| "obj_delete_instance _ iid c = (single_delete_instance iid, c)"

fun obj_list_resources :: "object_ref \<Rightarrow> instance_id \<Rightarrow> resource_id list" where
  "obj_list_resources Ref_Security iid = security_list_resources iid"
| "obj_list_resources Ref_Server iid = server_list_resources iid"
| "obj_list_resources Ref_Device iid = device_list_resources iid"
| "obj_list_resources Ref_Connectivity iid = connectivity_list_resources iid"
| "obj_list_resources Ref_Firmware iid = firmware_list_resources iid"
| "obj_list_resources Ref_Location iid = location_list_resources iid"

fun obj_get_resource_type ::
  "object_ref \<Rightarrow> client \<Rightarrow> instance_id \<Rightarrow> resource_id \<Rightarrow> resource_type option" where
  "obj_get_resource_type Ref_Security c iid rid = security_resource_type rid"
| "obj_get_resource_type Ref_Server c iid rid = server_resource_type rid"
| "obj_get_resource_type Ref_Device c iid rid = device_get_resource_type (cl_device c) iid rid"
| "obj_get_resource_type Ref_Connectivity c iid rid =
     connectivity_get_resource_type (cl_connectivity c) iid rid"
| "obj_get_resource_type Ref_Firmware c iid rid = firmware_get_resource_type (cl_firmware c) iid rid"
| "obj_get_resource_type Ref_Location c iid rid = location_get_resource_type (cl_location c) iid rid"

fun obj_read_resource ::
  "request_env \<Rightarrow> object_ref \<Rightarrow> instance_id \<Rightarrow> resource_id \<Rightarrow> resource_instance_id option \<Rightarrow> client \<Rightarrow>
   resource_value result \<times> client" where
  "obj_read_resource env Ref_Security iid rid riid c =
     (security_read_resource (cl_security c) iid rid riid, c)"
| "obj_read_resource env Ref_Server iid rid riid c =
     (server_read_resource (cl_server c) iid rid riid, c)"
| "obj_read_resource env Ref_Device iid rid riid c =
     (device_read_resource (env_now env) (cl_device c) iid rid riid, c)"
| "obj_read_resource env Ref_Connectivity iid rid riid c =
     (connectivity_read_resource (cl_connectivity c) iid rid riid, c)"
| "obj_read_resource env Ref_Firmware iid rid riid c =
     (firmware_read_resource (cl_firmware c) iid rid riid, c)"
| "obj_read_resource env Ref_Location iid rid riid c =
     (let (r, s) = location_read_resource (env_gps env rid) iid rid riid (cl_location c)
      in (r, c\<lparr>cl_location := s\<rparr>))"

fun obj_write_resource ::
  "object_ref \<Rightarrow> instance_id \<Rightarrow> resource_id \<Rightarrow> resource_instance_id option \<Rightarrow> resource_value \<Rightarrow> client \<Rightarrow>
   unit result \<times> client" where
  "obj_write_resource Ref_Security iid rid riid v c =
     (let (r, s) = security_write_resource iid rid riid v (cl_security c) in (r, c\<lparr>cl_security := s\<rparr>))"
| "obj_write_resource Ref_Server iid rid riid v c =
     (let (r, s) = server_write_resource iid rid riid v (cl_server c) in (r, c\<lparr>cl_server := s\<rparr>))"
| "obj_write_resource Ref_Device iid rid riid v c =
     (let (r, s) = device_write_resource iid rid riid v (cl_device c) in (r, c\<lparr>cl_device := s\<rparr>))"
| "obj_write_resource Ref_Connectivity iid rid riid v c =
     (let (r, s) = connectivity_write_resource iid rid riid v (cl_connectivity c)
      in (r, c\<lparr>cl_connectivity := s\<rparr>))"
| "obj_write_resource Ref_Firmware iid rid riid v c =
     (let (r, s) = firmware_write_resource (cl_firmware_callbacks c) iid rid riid v (cl_firmware c)
      in (r, c\<lparr>cl_firmware := s\<rparr>))"
| "obj_write_resource Ref_Location iid rid riid v c =
     (let (r, s) = location_write_resource iid rid riid v (cl_location c) in (r, c\<lparr>cl_location := s\<rparr>))"

text \<open>
  \<open>update\<close> is the callback that the client's constructor registers with the Server object.
\<close>

fun obj_execute_resource ::
  "(u16 \<Rightarrow> client \<Rightarrow> client) \<Rightarrow> object_ref \<Rightarrow> instance_id \<Rightarrow> resource_id \<Rightarrow> string \<Rightarrow> client \<Rightarrow>
   unit result \<times> client" where
  "obj_execute_resource update Ref_Security iid rid args c = (object_execute_resource iid rid args, c)"
| "obj_execute_resource update Ref_Server iid rid args c =
     (case server_execute_resource (cl_server c) iid rid args of
        (r, None) \<Rightarrow> (r, c)
      | (r, Some ssid) \<Rightarrow> (r, update ssid c))"
| "obj_execute_resource update Ref_Device iid rid args c =
     (case device_execute_resource iid rid args (cl_device c) of
        (r, s, None) \<Rightarrow> (r, c\<lparr>cl_device := s\<rparr>)
      | (r, s, Some call) \<Rightarrow> (r, c\<lparr>cl_device := s, cl_log := cl_log c @ [Ev_Device call]\<rparr>))"
| "obj_execute_resource update Ref_Connectivity iid rid args c =
     (connectivity_execute_resource (cl_connectivity c) iid rid args, c)"
| "obj_execute_resource update Ref_Firmware iid rid args c =
     (let (r, s) = firmware_execute_resource (cl_firmware_callbacks c) iid rid args (cl_firmware c)
      in (r, c\<lparr>cl_firmware := s\<rparr>))"
| "obj_execute_resource update Ref_Location iid rid args c =
     (location_execute_resource (cl_location c) iid rid args, c)"

section \<open>The contract, through the table\<close>

definition tables_wf :: "client \<Rightarrow> bool" where
  "tables_wf c \<longleftrightarrow> umap_wf (sec_instances (cl_security c)) \<and> umap_wf (srv_instances (cl_server c))"

lemma strong_zero: "(strong_value iid = (0 :: u16)) \<longleftrightarrow> iid = Strong 0"
  by (cases iid) simp

lemma obj_read_keeps:
  assumes "obj_read_resource env r iid rid riid c = (res, c')"
  shows "cl_security c' = cl_security c" "cl_server c' = cl_server c"
    "cl_log c' = cl_log c" "cl_objects c' = cl_objects c" "cl_state c' = cl_state c"
    "cl_registrations c' = cl_registrations c" "cl_connections c' = cl_connections c"
    "obj_has_instance q c' = obj_has_instance q c"
proof -
  show s: "cl_security c' = cl_security c" "cl_server c' = cl_server c"
    "cl_log c' = cl_log c" "cl_objects c' = cl_objects c" "cl_state c' = cl_state c"
    "cl_registrations c' = cl_registrations c" "cl_connections c' = cl_connections c"
    using assms by (cases r; auto split: prod.splits)+
  show "obj_has_instance q c' = obj_has_instance q c" by (cases q) (simp_all add: fun_eq_iff s)
qed

lemma obj_write_frame:
  assumes "obj_write_resource r iid rid riid v c = (res, c')"
  shows "cl_log c' = cl_log c" "cl_objects c' = cl_objects c" "cl_state c' = cl_state c"
    "cl_registrations c' = cl_registrations c" "cl_connections c' = cl_connections c"
  using assms by (cases r; auto split: prod.splits)+

lemma obj_write_keeps:
  assumes "tables_wf c" "obj_write_resource r iid rid riid v c = (res, c')"
  shows "tables_wf c'" "obj_has_instance r c' = obj_has_instance r c"
  using assms
  by (cases r; auto simp: tables_wf_def fun_eq_iff split: prod.splits
      dest: security.write_keeps_table server.write_keeps_table)+

lemma obj_create_effect:
  assumes "tables_wf c" "obj_create_instance r suggested c = (ok iid, c')"
  shows "tables_wf c' \<and> \<not> obj_has_instance r c iid \<and>
    obj_has_instance r c' = (obj_has_instance r c)(iid := True)"
proof (cases r)
  case Ref_Security
  then obtain s where s: "security_create_instance suggested (cl_security c) = (ok iid, s)"
    "c' = c\<lparr>cl_security := s\<rparr>" using assms(2) by (auto split: prod.splits)
  with assms(1) Ref_Security security.create_table [OF _ s(1)] show ?thesis
    by (auto simp: tables_wf_def fun_eq_iff)
next
  case Ref_Server
  then obtain s where s: "server_create_instance suggested (cl_server c) = (ok iid, s)"
    "c' = c\<lparr>cl_server := s\<rparr>" using assms(2) by (auto split: prod.splits)
  with assms(1) Ref_Server server.create_table [OF _ s(1)] show ?thesis
    by (auto simp: tables_wf_def fun_eq_iff)
qed (use assms(2) in \<open>auto simp: single_create_instance_def\<close>)

lemma obj_delete_effect:
  assumes "tables_wf c" "obj_delete_instance r iid c = (ok u, c')"
  shows "tables_wf c' \<and> obj_has_instance r c iid \<and>
    obj_has_instance r c' = (obj_has_instance r c)(iid := False)"
proof (cases r)
  case Ref_Security
  then obtain s where s: "security_delete_instance iid (cl_security c) = (ok u, s)"
    "c' = c\<lparr>cl_security := s\<rparr>" using assms(2) by (auto split: prod.splits)
  with assms(1) Ref_Security security.delete_table [OF _ s(1)] show ?thesis
    by (auto simp: tables_wf_def fun_eq_iff)
next
  case Ref_Server
  then obtain s where s: "server_delete_instance iid (cl_server c) = (ok u, s)"
    "c' = c\<lparr>cl_server := s\<rparr>" using assms(2) by (auto split: prod.splits)
  with assms(1) Ref_Server server.delete_table [OF _ s(1)] show ?thesis
    by (auto simp: tables_wf_def fun_eq_iff)
qed (use assms(2) in \<open>auto simp: single_delete_instance_def\<close>)

lemma obj_create_refused:
  "obj_create_instance r suggested c = (Inl e, c') \<Longrightarrow> c' = c"
  by (cases r) (auto split: prod.splits dest: security.create_refused server.create_refused)

lemma obj_delete_refused:
  "obj_delete_instance r iid c = (Inl e, c') \<Longrightarrow> c' = c"
  by (cases r) (auto split: prod.splits dest: security.delete_refused server.delete_refused)

lemma obj_read_absent:
  "\<not> obj_has_instance r c iid \<Longrightarrow>
     obj_read_resource env r iid rid riid c = (err E_NotFound ''Instance not found'', c)"
  by (cases r)
    (auto simp: security.has_eq server.has_eq security.read_missing server.read_missing
      single_has_instance_def device_read_resource_def connectivity_read_resource_def
      firmware_read_resource_def location.read_other)

lemma obj_write_absent:
  "\<not> obj_has_instance r c iid \<Longrightarrow>
     obj_write_resource r iid rid riid v c = (err E_NotFound ''Instance not found'', c)"
  by (cases r)
    (auto simp: security.has_eq server.has_eq security.write_missing server.write_missing
      single_has_instance_def device.write_other connectivity.write_other firmware.write_other
      location.write_other)

lemma obj_read_typed:
  assumes "obj_read_resource env r iid rid riid c = (ok v, c')"
    "obj_get_resource_type r c iid rid = Some t"
  shows "get_resource_type v = t"
proof (cases r)
  case Ref_Security
  with assms show ?thesis
    by (cases "umap_find (sec_instances (cl_security c)) (strong_value iid)")
      (auto simp: security.read_missing security.read_found dest: security_load_typed)
next
  case Ref_Server
  with assms show ?thesis
    by (cases "umap_find (srv_instances (cl_server c)) (strong_value iid)")
      (auto simp: server.read_missing server.read_found dest: server_load_typed)
qed (use assms in \<open>auto simp: device_get_resource_type_def location_get_resource_type_def
    dest: connectivity_read_typed firmware_read_typed\<close>)

interpretation objects: lwm2m_object tables_wf "obj_list_instances r" "obj_has_instance r"
  "obj_create_instance r" "obj_delete_instance r" "obj_get_resource_type r"
  "obj_read_resource env r" "obj_write_resource r"
  for r env
proof
  fix c :: client and iid
  assume wf: "tables_wf c"
  then show "distinct (obj_list_instances r c)"
    by (cases r) (auto simp: tables_wf_def single_list_instances_def
        intro: security.object.instances_distinct server.object.instances_distinct)
  show "iid \<in> set (obj_list_instances r c) \<longleftrightarrow> obj_has_instance r c iid"
    using wf by (cases r) (auto simp: tables_wf_def single_list_instances_def single_has_instance_iff
        security.object.instances_listed server.object.instances_listed)
next
  fix c :: client and iid rid riid res c'
  assume "tables_wf c" "obj_read_resource env r iid rid riid c = (res, c')"
  then show "tables_wf c' \<and> obj_has_instance r c' = obj_has_instance r c"
    using obj_read_keeps [of env r iid rid riid c res c'] by (simp add: tables_wf_def)
next
  fix c :: client and iid rid riid v res c'
  assume "tables_wf c" "obj_write_resource r iid rid riid v c = (res, c')"
  then show "tables_wf c' \<and> obj_has_instance r c' = obj_has_instance r c"
    using obj_write_keeps by blast
qed (fact obj_read_absent obj_write_absent obj_read_typed
    | erule (1) obj_create_effect obj_delete_effect obj_read_typed
    | erule obj_create_refused obj_delete_refused obj_read_absent obj_write_absent)+

end
