(* ===== verification/Client_Requests.thy ===== *)
theory Client_Requests
  imports Client_Objects
begin

text \<open>
  The request handlers of \<open>src/client.cpp\<close>: \<open>handle_incoming_request\<close> and the operations
  it dispatches to. They run to completion inside one call; the one effect that reaches the
  network, the registration update triggered by an execute, is the parameter \<open>update\<close>.
\<close>

section \<open>Helpers\<close>

fun error_to_coap_code :: "error_code \<Rightarrow> coap_code" where
  "error_to_coap_code E_NotFound = C_NotFound"
| "error_to_coap_code E_MethodNotAllowed = C_MethodNotAllowed"
| "error_to_coap_code E_BadRequest = C_BadRequest"
| "error_to_coap_code E_Unauthorized = C_Unauthorized"
| "error_to_coap_code E_Forbidden = C_Forbidden"
| "error_to_coap_code _ = C_InternalServerError"

text \<open>The loop of \<open>encode_instance_tlv\<close>: the resources that can be read, in order.\<close>

fun read_resources ::
  "request_env \<Rightarrow> object_ref \<Rightarrow> instance_id \<Rightarrow> resource_id list \<Rightarrow> client \<Rightarrow>
   (resource_id \<times> resource_value) list \<times> client" where
  "read_resources env r iid [] c = ([], c)"
| "read_resources env r iid (rid # rids) c =
     (let (res, c1) = obj_read_resource env r iid rid None c;
          (rest, c2) = read_resources env r iid rids c1
      in (case res of Inl _ \<Rightarrow> rest | Inr v \<Rightarrow> (rid, v) # rest, c2))"

definition encode_instance_tlv ::
  "request_env \<Rightarrow> object_ref \<Rightarrow> instance_id \<Rightarrow> client \<Rightarrow> bytes \<times> client" where
  "encode_instance_tlv env r iid c =
     (let (resources, c1) = read_resources env r iid (obj_list_resources r iid) c
      in (case encode_instance iid resources of Inl _ \<Rightarrow> [] | Inr encoded \<Rightarrow> encoded, c1))"

fun encode_instances_tlv ::
  "request_env \<Rightarrow> object_ref \<Rightarrow> instance_id list \<Rightarrow> client \<Rightarrow> bytes \<times> client" where
  "encode_instances_tlv env r [] c = ([], c)"
| "encode_instances_tlv env r (iid # iids) c =
     (let (instance_data, c1) = encode_instance_tlv env r iid c;
          (payload, c2) = encode_instances_tlv env r iids c1
      in (instance_data @ payload, c2))"

section \<open>Read\<close>

text \<open>
  \<open>the\<close> reads an optional that the tests before it have found set; a path that comes from the
  parser has an instance wherever it has a resource. A path with a resource instance matches no
  branch: the response is returned as it was declared.
\<close>

definition process_read :: "request_env \<Rightarrow> object_path \<Rightarrow> client \<Rightarrow> coap_response \<times> client" where
  "process_read env path c =
     (case get_object c (object_id path) of
        None \<Rightarrow> (respond C_NotFound, c)
      | Some obj \<Rightarrow>
          if is_object path then
            let (payload, c1) = encode_instances_tlv env obj (obj_list_instances obj c) c
            in (default_response\<lparr>resp_payload := payload, resp_code := Some C_Content\<rparr>, c1)
          else if is_instance path then
            (if \<not> obj_has_instance obj c (the (instance_id path)) then (respond C_NotFound, c)
             else
               let (payload, c1) = encode_instance_tlv env obj (the (instance_id path)) c
               in (default_response\<lparr>resp_payload := payload, resp_code := Some C_Content\<rparr>, c1))
          else if is_resource path then
            (case obj_read_resource env obj (the (instance_id path)) (the (resource_id path))
                    (resource_instance_id path) c of
               (Inl e, c1) \<Rightarrow> (respond (error_to_coap_code (err_code e)), c1)
             | (Inr v, c1) \<Rightarrow>
                 (case encode_resource (the (resource_id path)) v of
                    Inr encoded \<Rightarrow>
                      (default_response\<lparr>resp_payload := encoded, resp_code := Some C_Content\<rparr>, c1)
                  | Inl _ \<Rightarrow> (respond C_InternalServerError, c1)))
          else (default_response, c))"

section \<open>Write and create\<close>

definition expected_type :: "object_ref \<Rightarrow> client \<Rightarrow> instance_id \<Rightarrow> resource_id \<Rightarrow> resource_type" where
  "expected_type obj c iid rid =
     (case obj_get_resource_type obj c iid rid of None \<Rightarrow> T_String | Some t \<Rightarrow> t)"

text \<open>The loop over the records of an instance write; failures are ignored.\<close>

fun write_records :: "object_ref \<Rightarrow> instance_id \<Rightarrow> tlv_record list \<Rightarrow> client \<Rightarrow> client" where
  "write_records obj iid [] c = c"
| "write_records obj iid (record # records) c =
     write_records obj iid records
       (if rec_type record = TlvResource then
          let rid = Strong (rec_id record)
          in case decode_resource (rec_value record) (expected_type obj c iid rid) of
               Inl _ \<Rightarrow> c
             | Inr v \<Rightarrow> snd (obj_write_resource obj iid rid None v c)
        else c)"

definition process_write :: "object_path \<Rightarrow> bytes \<Rightarrow> client \<Rightarrow> coap_response \<times> client" where
  "process_write path payload c =
     (case get_object c (object_id path) of
        None \<Rightarrow> (respond C_NotFound, c)
      | Some obj \<Rightarrow>
          (case decode payload of
             Inl _ \<Rightarrow> (respond C_BadRequest, c)
           | Inr records \<Rightarrow>
               if is_resource path then
                 (case records of
                    [] \<Rightarrow> (respond C_BadRequest, c)
                  | record # _ \<Rightarrow>
                      let iid = the (instance_id path); rid = the (resource_id path)
                      in (case decode_resource (rec_value record) (expected_type obj c iid rid) of
                            Inl _ \<Rightarrow> (respond C_BadRequest, c)
                          | Inr v \<Rightarrow>
                              (case obj_write_resource obj iid rid (resource_instance_id path) v c of
                                 (Inr _, c1) \<Rightarrow> (respond C_Changed, c1)
                               | (Inl e, c1) \<Rightarrow> (respond (error_to_coap_code (err_code e)), c1))))
               else if is_instance path then
                 (respond C_Changed, write_records obj (the (instance_id path)) records c)
               else if is_object path then
                 (case obj_create_instance obj None c of
                    (Inr _, c1) \<Rightarrow> (respond C_Created, c1)
                  | (Inl e, c1) \<Rightarrow> (respond (error_to_coap_code (err_code e)), c1))
               else (default_response, c)))"

section \<open>Execute, discover, delete\<close>

definition process_execute ::
  "(u16 \<Rightarrow> client \<Rightarrow> client) \<Rightarrow> object_path \<Rightarrow> bytes \<Rightarrow> client \<Rightarrow> coap_response \<times> client" where
  "process_execute update path payload c =
     (if \<not> is_resource path then (respond C_MethodNotAllowed, c)
      else case get_object c (object_id path) of
          None \<Rightarrow> (respond C_NotFound, c)
        | Some obj \<Rightarrow>
            (case obj_execute_resource update obj (the (instance_id path)) (the (resource_id path))
                    (string_of_bytes payload) c of
               (Inr _, c1) \<Rightarrow> (respond C_Changed, c1)
             | (Inl e, c1) \<Rightarrow> (respond (error_to_coap_code (err_code e)), c1)))"

definition link_text :: "object_id \<Rightarrow> instance_id \<Rightarrow> resource_id \<Rightarrow> string" where
  "link_text oid iid rid =
     ''</'' @ show_u16 (strong_value oid) @ ''/'' @ show_u16 (strong_value iid) @ ''/'' @
     show_u16 (strong_value rid) @ ''>''"

definition process_discover :: "object_path \<Rightarrow> client \<Rightarrow> coap_response" where
  "process_discover path c =
     (case get_object c (object_id path) of
        None \<Rightarrow> respond C_NotFound
      | Some obj \<Rightarrow>
          let links =
            (if is_object path then
               concat (map (\<lambda>iid. map (link_text (object_id path) iid) (obj_list_resources obj iid))
                 (obj_list_instances obj c))
             else if is_instance path then
               map (link_text (object_id path) (the (instance_id path)))
                 (obj_list_resources obj (the (instance_id path)))
             else if is_resource path then
               [link_text (object_id path) (the (instance_id path)) (the (resource_id path))]
             else [])
          in default_response\<lparr>resp_payload := bytes_of_string (join_with '','' links),
               resp_code := Some C_Content\<rparr>)"

definition process_delete :: "object_path \<Rightarrow> client \<Rightarrow> coap_response \<times> client" where
  "process_delete path c =
     (if \<not> is_instance path then (respond C_MethodNotAllowed, c)
      else case get_object c (object_id path) of
          None \<Rightarrow> (respond C_NotFound, c)
        | Some obj \<Rightarrow>
            (case obj_delete_instance obj (the (instance_id path)) c of
               (Inr _, c1) \<Rightarrow> (respond C_Deleted, c1)
             | (Inl e, c1) \<Rightarrow> (respond (error_to_coap_code (err_code e)), c1)))"

section \<open>Dispatch\<close>

definition handle_incoming_request ::
  "(u16 \<Rightarrow> client \<Rightarrow> client) \<Rightarrow> request_env \<Rightarrow> coap_request \<Rightarrow> client \<Rightarrow> coap_response \<times> client" where
  "handle_incoming_request update env request c =
     (case parse (req_uri_path request) of
        None \<Rightarrow> (respond C_BadRequest, c)
      | Some path \<Rightarrow>
          (case req_method request of
             Get \<Rightarrow> process_read env path c
           | Put \<Rightarrow> process_write path (req_payload request) c
           | Post \<Rightarrow>
               if is_resource path then process_execute update path (req_payload request) c
               else process_write path (req_payload request) c
           | Delete \<Rightarrow> process_delete path c))"

section \<open>Lemmas\<close>

lemmas request_defs = process_read_def process_write_def process_execute_def process_delete_def

lemma response_sel [simp]:
  "resp_code default_response = None" "resp_payload default_response = []"
  by (simp_all add: default_response_def)

subsection \<open>What requests leave alone\<close>

text \<open>
  A request touches the objects and, through an execute, the log and whatever the callback does:
  the rest of the client is the same before and after, and the log grows by calls of the device
  callbacks only.
\<close>

definition same_session :: "client \<Rightarrow> client \<Rightarrow> bool" where
  "same_session c c' \<longleftrightarrow>
     cl_state c' = cl_state c \<and> cl_registrations c' = cl_registrations c \<and>
     cl_connections c' = cl_connections c \<and> cl_objects c' = cl_objects c \<and>
     cl_running c' = cl_running c \<and> cl_reconnecting c' = cl_reconnecting c \<and>
     cl_reconnect_attempts c' = cl_reconnect_attempts c \<and>
     cl_reconnect_ssid c' = cl_reconnect_ssid c \<and>
     cl_next_reconnect_time c' = cl_next_reconnect_time c \<and>
     cl_reconnect_config c' = cl_reconnect_config c \<and> cl_config c' = cl_config c \<and>
     cl_callbacks c' = cl_callbacks c \<and> cl_event_thread c' = cl_event_thread c \<and>
     (\<exists>calls. cl_log c' = cl_log c @ map Ev_Device calls)"

lemma same_session_refl [simp]: "same_session c c"
  by (simp add: same_session_def)

lemma same_session_trans: "same_session a b \<Longrightarrow> same_session b c \<Longrightarrow> same_session a c"
  unfolding same_session_def by (elim conjE exE) (auto simp flip: map_append)

definition kept :: "client \<Rightarrow> client \<Rightarrow> bool" where
  "kept c c' \<longleftrightarrow> same_session c c' \<and> (tables_wf c \<longrightarrow> tables_wf c')"

lemma kept_refl [simp]: "kept c c"
  by (simp add: kept_def)

lemma kept_trans: "kept a b \<Longrightarrow> kept b c \<Longrightarrow> kept a c"
  by (auto simp: kept_def intro: same_session_trans)

lemma obj_read_session: "obj_read_resource env r iid rid riid c = (res, c') \<Longrightarrow> same_session c c'"
  by (cases r) (auto simp: same_session_def split: prod.splits)

lemma obj_write_session: "obj_write_resource r iid rid riid v c = (res, c') \<Longrightarrow> same_session c c'"
  by (cases r) (auto simp: same_session_def split: prod.splits)

lemma obj_create_session: "obj_create_instance r suggested c = (res, c') \<Longrightarrow> same_session c c'"
  by (cases r) (auto simp: same_session_def split: prod.splits)

lemma obj_delete_session: "obj_delete_instance r iid c = (res, c') \<Longrightarrow> same_session c c'"
  by (cases r) (auto simp: same_session_def split: prod.splits)

lemma obj_read_kept: "obj_read_resource env r iid rid riid c = (res, c') \<Longrightarrow> kept c c'"
  using objects.read_keeps [of c] by (auto simp: kept_def intro: obj_read_session)

lemma obj_write_kept: "obj_write_resource r iid rid riid v c = (res, c') \<Longrightarrow> kept c c'"
  using objects.write_keeps [of c] by (auto simp: kept_def intro: obj_write_session)

lemma obj_create_kept: "obj_create_instance r suggested c = (res, c') \<Longrightarrow> kept c c'"
  by (metis kept_def obj_create_session objects.create_keeps_invar snd_conv)

lemma obj_delete_kept: "obj_delete_instance r iid c = (res, c') \<Longrightarrow> kept c c'"
  by (metis kept_def obj_delete_session objects.delete_keeps_invar snd_conv)

lemma read_resources_kept: "read_resources env r iid rids c = (rs, c') \<Longrightarrow> kept c c'"
proof (induction rids arbitrary: c rs)
  case (Cons rid rids)
  obtain res c1 where 1: "obj_read_resource env r iid rid None c = (res, c1)" by fastforce
  obtain rest c2 where 2: "read_resources env r iid rids c1 = (rest, c2)" by fastforce
  from Cons.prems 1 2 have "c' = c2" by simp
  with Cons.IH [of c1 rest] 2 obj_read_kept [OF 1] show ?case by (auto intro: kept_trans)
qed simp

lemma encode_instance_kept: "encode_instance_tlv env r iid c = (b, c') \<Longrightarrow> kept c c'"
  by (auto simp: encode_instance_tlv_def split: prod.splits dest: read_resources_kept)

lemma encode_instances_kept: "encode_instances_tlv env r iids c = (b, c') \<Longrightarrow> kept c c'"
proof (induction iids arbitrary: c b)
  case (Cons iid iids)
  obtain d c1 where 1: "encode_instance_tlv env r iid c = (d, c1)" by fastforce
  obtain rest c2 where 2: "encode_instances_tlv env r iids c1 = (rest, c2)" by fastforce
  from Cons.prems 1 2 have "c' = c2" by simp
  with Cons.IH [of c1 rest] 2 encode_instance_kept [OF 1] show ?case by (auto intro: kept_trans)
qed simp

lemma write_records_kept: "kept c (write_records obj iid records c)"
proof (induction records arbitrary: c)
  case (Cons entry records)
  have "kept c (snd (obj_write_resource obj iid rid None v c))" for rid v
    by (cases "obj_write_resource obj iid rid None v c") (auto dest: obj_write_kept)
  with Cons show ?case
    by (auto simp: Let_def intro: kept_trans split: sum.split)
qed simp

lemma process_read_kept: "process_read env path c = (resp, c') \<Longrightarrow> kept c c'"
  by (auto simp: process_read_def split: option.splits if_splits prod.splits sum.splits
      dest: obj_read_kept encode_instance_kept encode_instances_kept)

lemma process_write_kept: "process_write path payload c = (resp, c') \<Longrightarrow> kept c c'"
  by (auto simp: process_write_def Let_def write_records_kept
      split: option.splits if_splits prod.splits sum.splits list.splits
      dest: obj_write_kept obj_create_kept)

lemma process_delete_kept: "process_delete path c = (resp, c') \<Longrightarrow> kept c c'"
  by (auto simp: process_delete_def split: option.splits if_splits prod.splits sum.splits
      dest: obj_delete_kept)

lemma one_device_call: "[Ev_Device call] = map Ev_Device calls \<longleftrightarrow> calls = [call]"
  by (cases calls) auto

lemma obj_execute_cases:
  assumes "obj_execute_resource update r iid rid args c = (res, c')"
  shows "kept c c' \<or> (\<exists>ssid. res = ok () \<and> c' = update ssid c)"
proof (cases r)
  case Ref_Server
  with assms server_execute_callback_ok show ?thesis
    by (auto split: prod.splits option.splits)
qed (use assms in \<open>auto simp: kept_def same_session_def tables_wf_def one_device_call
    split: prod.splits option.splits\<close>)

lemma handle_cases:
  assumes "handle_incoming_request update env request c = (resp, c')"
  shows "kept c c' \<or> (\<exists>ssid. resp = respond C_Changed \<and> c' = update ssid c)"
proof -
  have "process_execute update path payload c = (resp, c') \<Longrightarrow>
      kept c c' \<or> (\<exists>ssid. resp = respond C_Changed \<and> c' = update ssid c)" for path payload
    by (auto simp: process_execute_def split: option.splits if_splits prod.splits sum.splits
        dest!: obj_execute_cases)
  with assms show ?thesis
    by (auto simp: handle_incoming_request_def split: option.splits coap_method.splits if_splits
        dest: process_read_kept process_write_kept process_delete_kept)
qed

lemma handle_tables_wf:
  assumes "\<And>ssid c. tables_wf c \<Longrightarrow> tables_wf (update ssid c)" "tables_wf c"
    "handle_incoming_request update env request c = (resp, c')"
  shows "tables_wf c'"
  using handle_cases [OF assms(3)] assms(1,2) by (auto simp: kept_def)

subsection \<open>Which responses have a code\<close>

lemma path_depths:
  assumes "prefix_closed p"
  shows "is_resource_instance p \<longleftrightarrow> \<not> is_object p \<and> \<not> is_instance p \<and> \<not> is_resource p"
  using assms by (cases p) (auto simp: prefix_closed_def path_depth_defs)

lemma process_read_code:
  "prefix_closed p \<Longrightarrow> process_read env p c = (resp, c') \<Longrightarrow>
     resp_code resp = None \<longleftrightarrow> is_resource_instance p \<and> get_object c (object_id p) \<noteq> None"
  by (auto simp: process_read_def path_depths encode_resource_def
      split: option.splits if_splits prod.splits sum.splits)

lemma process_write_code:
  "prefix_closed p \<Longrightarrow> process_write p payload c = (resp, c') \<Longrightarrow>
     resp_code resp = None \<longleftrightarrow>
       is_resource_instance p \<and> get_object c (object_id p) \<noteq> None \<and> is_ok (decode payload)"
  by (auto simp: process_write_def path_depths Let_def
      split: option.splits if_splits prod.splits sum.splits list.splits)

lemma process_execute_code: "process_execute update p payload c = (resp, c') \<Longrightarrow> resp_code resp \<noteq> None"
  by (auto simp: process_execute_def split: option.splits if_splits prod.splits sum.splits)

lemma process_delete_code: "process_delete p c = (resp, c') \<Longrightarrow> resp_code resp \<noteq> None"
  by (auto simp: process_delete_def split: option.splits if_splits prod.splits sum.splits)

lemma handle_code:
  assumes "handle_incoming_request update env request c = (resp, c')"
  shows "resp_code resp = None \<longleftrightarrow>
    (\<exists>p. parse (req_uri_path request) = Some p \<and> is_resource_instance p \<and>
       get_object c (object_id p) \<noteq> None \<and>
       (req_method request = Get \<or>
        req_method request \<in> {Put, Post} \<and> is_ok (decode (req_payload request))))"
proof (cases "parse (req_uri_path request)")
  case None
  with assms show ?thesis by (auto simp: handle_incoming_request_def)
next
  case (Some p)
  note closed = parse_prefix_closed [OF Some]
  show ?thesis
    using assms Some process_read_code [OF closed, of env c resp c']
      process_write_code [OF closed, of "req_payload request" c resp c']
      process_execute_code [of update p "req_payload request" c resp c']
      process_delete_code [of p c resp c'] path_depths [OF closed]
    by (cases "req_method request")
      (auto simp: handle_incoming_request_def split: if_splits)
qed

subsection \<open>What a Read answers\<close>

text \<open>
  The resources of an instance as one list, and of all instances: what the payload encodes. The
  client threads its state through the reads because the Location object refreshes its position.
\<close>

fun read_instances ::
  "request_env \<Rightarrow> object_ref \<Rightarrow> instance_id list \<Rightarrow> client \<Rightarrow>
   (instance_id \<times> (resource_id \<times> resource_value) list) list \<times> client" where
  "read_instances env r [] c = ([], c)"
| "read_instances env r (iid # iids) c =
     (let (rs, c1) = read_resources env r iid (obj_list_resources r iid) c;
          (insts, c2) = read_instances env r iids c1
      in ((iid, rs) # insts, c2))"

definition instance_bytes :: "(instance_id \<times> (resource_id \<times> resource_value) list) list \<Rightarrow> bytes" where
  "instance_bytes insts = encode_records (map (\<lambda>(iid, rs).
     (ObjectInstance, strong_value iid, encode_records (resource_records rs))) insts)"

lemma encode_instances_read:
  "encode_instances_tlv env r iids c =
     (case read_instances env r iids c of (insts, c') \<Rightarrow> (instance_bytes insts, c'))"
proof (induction iids arbitrary: c)
  case (Cons iid iids)
  show ?case
    by (simp add: Cons encode_instance_tlv_def encode_instance_eq instance_bytes_def
        encode_records_def split: prod.split)
qed (simp add: instance_bytes_def encode_records_def)

lemma encode_instance_read:
  "encode_instance_tlv env r iid c =
     (case read_instances env r [iid] c of (insts, c') \<Rightarrow> (instance_bytes insts, c'))"
  by (simp add: encode_instance_tlv_def encode_instance_eq instance_bytes_def encode_records_def
      split: prod.split)

definition instances_fit :: "(instance_id \<times> (resource_id \<times> resource_value) list) list \<Rightarrow> bool" where
  "instances_fit insts \<longleftrightarrow>
     (\<forall>(iid, rs) \<in> set insts. length (encode_records (resource_records rs)) < 2 ^ 24)"

definition instance_record ::
  "instance_id \<times> (resource_id \<times> resource_value) list \<Rightarrow> tlv_record" where
  "instance_record = (\<lambda>(iid, rs). TlvRecord ObjectInstance (strong_value iid)
     (encode_records (resource_records rs)) (map plain_record (resource_records rs)))"

lemma decode_instance_bytes:
  "instances_fit insts \<Longrightarrow> decode (instance_bytes insts) = ok (map instance_record insts)"
  unfolding instances_fit_def instance_bytes_def instance_record_def
  by (rule decode_encode_instances)

text \<open>An object other than Location reads without changing state: one value per readable resource.\<close>

lemma read_resources_pure:
  assumes "r \<noteq> Ref_Location"
  shows "read_resources env r iid rids c =
    ([(rid, v). rid \<leftarrow> rids, v \<leftarrow> (case fst (obj_read_resource env r iid rid None c) of
        Inl _ \<Rightarrow> [] | Inr v \<Rightarrow> [v])], c)"
proof (induction rids)
  case (Cons rid rids)
  have "snd (obj_read_resource env r iid rid None c) = c" using assms by (cases r) simp_all
  with Cons show ?case
    by (cases "obj_read_resource env r iid rid None c") (simp split: sum.split)
qed simp

subsection \<open>What a Write does\<close>

lemma process_write_resource:
  assumes "get_object c oid = Some obj" "length (serialize_value v) < 2 ^ 24"
    "expected_type obj c iid rid = get_resource_type v"
  shows "process_write (path_resource oid iid rid)
      (encode_record TlvResource (strong_value rid) (serialize_value v)) c =
    (case obj_write_resource obj iid rid None (value_on_wire v) c of
       (Inr _, c1) \<Rightarrow> (respond C_Changed, c1)
     | (Inl e, c1) \<Rightarrow> (respond (error_to_coap_code (err_code e)), c1))"
  using assms
  by (simp add: process_write_def path_resource_def is_resource_def decode_single
      decode_serialize_value)

lemma write_records_absent:
  "\<not> obj_has_instance obj c iid \<Longrightarrow> write_records obj iid records c = c"
proof (induction records)
  case (Cons entry records)
  have "snd (obj_write_resource obj iid rid None v c) = c" for rid v
    using Cons.prems by (simp add: obj_write_absent)
  with Cons show ?case by (simp add: Let_def split: sum.split)
qed simp

end
