(* ===== verification/Client_Session.thy ===== *)
theory Client_Session
  imports Client_Requests
begin

text \<open>
  The session half of \<open>src/client.cpp\<close>: registration, update, deregistration, the lifecycle,
  the periodic checks and reconnection.

  Every call of the transport that runs its event loop takes a script of what the network does
  meanwhile: the requests that arrive and the session events, in order, then the reply. A request
  handled inside may trigger a registration update, which sends in turn: its own script is nested
  in the arriving request. Every operation holds the client's recursive mutex, so that operations
  of other threads do not interleave with it.
\<close>

section \<open>The network\<close>

datatype exchange = Exchange (ex_ios: "io list") (ex_reply: "coap_response result") (ex_now: time_point)
  and io = Incoming request_env coap_request exchange | Session_Event bool

text \<open>A registration also opens a connection, when there is none.\<close>

record register_script =
  rs_connect :: "unit result"
  rs_exchange :: exchange
  rs_registered_at :: time_point

definition emit :: "client_event \<Rightarrow> client \<Rightarrow> client" where
  "emit e c = c\<lparr>cl_log := cl_log c @ [e]\<rparr>"

definition set_state :: "client_state \<Rightarrow> client \<Rightarrow> client" where
  "set_state new_state c =
     (let old_state = cl_state c; c1 = c\<lparr>cl_state := new_state\<rparr>
      in if old_state \<noteq> new_state \<and> on_state_change (cl_callbacks c1)
         then emit (Ev_State_Change old_state new_state) c1 else c1)"

text \<open>
  \<open>CoapClient::send\<close> as the client sees it: refused without a connection; otherwise the request
  goes out, the script's events happen, and its reply is the result. \<open>Ev_Sent\<close> records that
  the client called send over a connection that is up; when the PDU cannot be made or sent, the reply
  is that error.
\<close>

definition send_on ::
  "(client \<Rightarrow> client) \<Rightarrow> coap_response result \<Rightarrow> u16 \<Rightarrow> coap_request \<Rightarrow> client \<Rightarrow>
   coap_response result \<times> client" where
  "send_on events reply ssid request c =
     (case umap_find (cl_connections c) ssid of
        None \<Rightarrow> (err E_InvalidState ''Not connected'', c)
      | Some conn \<Rightarrow>
          if \<not> con_connected conn then (err E_InvalidState ''Not connected'', c)
          else (reply, events (emit (Ev_Sent ssid request) c)))"

definition session_event :: "u16 \<Rightarrow> bool \<Rightarrow> client \<Rightarrow> client" where
  "session_event ssid up c =
     (case umap_find (cl_connections c) ssid of
        None \<Rightarrow> c
      | Some conn \<Rightarrow>
          c\<lparr>cl_connections := umap_set (cl_connections c) ssid (conn\<lparr>con_connected := up\<rparr>)\<rparr>)"

definition seconds :: "u32 \<Rightarrow> i64" where
  "seconds n = word_of_int (uint n * 1000000000)"

text \<open>The assignment through the iterator after the update was accepted.\<close>

definition refresh_expiry :: "time_point \<Rightarrow> u16 \<Rightarrow> client \<Rightarrow> client" where
  "refresh_expiry now ssid c =
     (case (server_find_by_short_server_id (cl_server c) ssid, umap_find (cl_registrations c) ssid) of
        (Some srv_inst, Some reg) \<Rightarrow>
          c\<lparr>cl_registrations := umap_set (cl_registrations c) ssid
              (reg\<lparr>reg_expires_at := now + seconds (srv_lifetime srv_inst)\<rparr>)\<rparr>
      | _ \<Rightarrow> c)"

definition response_accepted :: "coap_response result \<Rightarrow> bool" where
  "response_accepted response = (case response of Inl _ \<Rightarrow> False | Inr r \<Rightarrow> is_success r)"

definition session_request :: "coap_method \<Rightarrow> string \<Rightarrow> coap_request" where
  "session_request m path = \<lparr>req_method = m, req_uri_path = path, req_options = [], req_payload = [],
     req_content_format = F_LinkFormat\<rparr>"

section \<open>Update and incoming requests\<close>

fun update_registration :: "exchange \<Rightarrow> u16 \<Rightarrow> client \<Rightarrow> unit result \<times> client"
  and run_ios :: "u16 \<Rightarrow> io list \<Rightarrow> client \<Rightarrow> client" where
  "update_registration (Exchange ios reply now) ssid c =
     (case umap_find (cl_registrations c) ssid of
        None \<Rightarrow> (err E_NotFound ''Not registered with this server'', c)
      | Some reg \<Rightarrow>
          (case umap_find (cl_connections c) ssid of
             None \<Rightarrow> (err E_InvalidState ''No connection to server'', c)
           | Some conn \<Rightarrow>
               let c1 = set_state CS_Updating c;
                   (response, c2) = send_on (\<lambda>c. run_ios ssid ios c) reply ssid
                     (session_request Post (reg_location reg)) c1
               in if \<not> response_accepted response
                  then (err E_BadRequest ''Update failed'', set_state CS_Registered c2)
                  else (ok (), set_state CS_Registered (refresh_expiry now ssid c2))))"
| "run_ios ssid [] c = c"
| "run_ios ssid (Session_Event up # ios) c = run_ios ssid ios (session_event ssid up c)"
| "run_ios ssid (Incoming env request ex # ios) c =
     (let (response, c1) =
        handle_incoming_request (\<lambda>s c. snd (update_registration ex s c)) env request c
      in run_ios ssid ios (emit (Ev_Answered response) c1))"

definition send_request ::
  "exchange \<Rightarrow> u16 \<Rightarrow> coap_request \<Rightarrow> client \<Rightarrow> coap_response result \<times> client" where
  "send_request ex ssid request c =
     send_on (run_ios ssid (ex_ios ex)) (ex_reply ex) ssid request c"

section \<open>Registration\<close>

definition build_registration_payload :: "client \<Rightarrow> string" where
  "build_registration_payload c =
     join_with '','' (concat (map (\<lambda>(oid, obj).
       map (\<lambda>iid. ''</'' @ show_u16 oid @ ''/'' @ show_u16 (strong_value iid) @ ''>'')
         (obj_list_instances obj c)) (cl_objects c)))"

text \<open>The loop that looks for the security instance of the server; zero when there is none.\<close>

fun find_security_iid :: "security_object \<Rightarrow> u16 \<Rightarrow> instance_id list \<Rightarrow> instance_id" where
  "find_security_iid s ssid [] = Strong 0"
| "find_security_iid s ssid (iid # iids) =
     (case security_get_instance s iid of
        Some inst \<Rightarrow> if sec_short_server_id inst = ssid then iid else find_security_iid s ssid iids
      | None \<Rightarrow> find_security_iid s ssid iids)"

definition registration_uri :: "client \<Rightarrow> server_instance \<Rightarrow> string" where
  "registration_uri c srv_inst =
     ''/rd?ep='' @ ccf_endpoint_name (cl_config c) @ ''&lt='' @ decimal (unat (srv_lifetime srv_inst)) @
     ''&lwm2m=1.1&b='' @ srv_binding srv_inst"

text \<open>The part of \<open>register_with_server\<close> that opens the connection.\<close>

definition open_connection :: "unit result \<Rightarrow> u16 \<Rightarrow> client \<Rightarrow> unit result \<times> client" where
  "open_connection connect ssid c =
     (if umap_find (cl_connections c) ssid \<noteq> None then (ok (), c)
      else
        let sec_iid = find_security_iid (cl_security c) ssid (security_list_instances (cl_security c));
            conn_config = to_connection_config (cl_security c) sec_iid
        in case connect of
             Inl e \<Rightarrow> (err (err_code e) (''Connection failed: '' @ err_message e), c)
           | Inr _ \<Rightarrow>
               (ok (), c\<lparr>cl_connections := umap_set (cl_connections c) ssid
                  \<lparr>con_config = conn_config, con_connected = True\<rparr>\<rparr>))"

definition complete_registration ::
  "register_script \<Rightarrow> u16 \<Rightarrow> server_instance \<Rightarrow> string \<Rightarrow> client \<Rightarrow> client" where
  "complete_registration script ssid srv_inst location c =
     (let reg = \<lparr>reg_location = location, reg_short_server_id = ssid,
            reg_registered_at = rs_registered_at script,
            reg_expires_at = ex_now (rs_exchange script) + seconds (srv_lifetime srv_inst)\<rparr>;
          c1 = c\<lparr>cl_registrations := umap_set (cl_registrations c) ssid reg\<rparr>;
          c2 = set_state CS_Registered c1
      in if on_registered (cl_callbacks c2) then emit (Ev_Registered ssid reg) c2 else c2)"

definition register_with_server ::
  "register_script \<Rightarrow> u16 \<Rightarrow> client \<Rightarrow> unit result \<times> client" where
  "register_with_server script ssid c =
     (case security_find_by_short_server_id (cl_security c) ssid of
        None \<Rightarrow> (err E_NotFound ''No security instance for server'', c)
      | Some _ \<Rightarrow>
      (case server_find_by_short_server_id (cl_server c) ssid of
        None \<Rightarrow> (err E_NotFound ''No server instance for server'', c)
      | Some srv_inst \<Rightarrow>
      (case open_connection (rs_connect script) ssid c of
        (Inl e, c1) \<Rightarrow> (Inl e, c1)
      | (Inr _, c1) \<Rightarrow>
          let c2 = set_state CS_Registering c1;
              payload = build_registration_payload c2;
              request = \<lparr>req_method = Post, req_uri_path = registration_uri c2 srv_inst,
                req_options = [], req_payload = bytes_of_string payload,
                req_content_format = F_LinkFormat\<rparr>
          in (case send_request (rs_exchange script) ssid request c2 of
                (Inl e, c3) \<Rightarrow>
                  (err (err_code e) (''Registration failed: '' @ err_message e), set_state CS_Error c3)
              | (Inr response, c3) \<Rightarrow>
                  if \<not> is_success response then
                    (err E_BadRequest ''Registration rejected by server'', set_state CS_Error c3)
                  else if get_location_path response = [] then
                    (err E_BadRequest
                       ''Server did not return Location-Path in registration response'',
                     set_state CS_Error c3)
                  else (ok (), complete_registration script ssid srv_inst
                          (get_location_path response) c3)))))"

definition deregister :: "exchange \<Rightarrow> u16 \<Rightarrow> client \<Rightarrow> unit result \<times> client" where
  "deregister ex ssid c =
     (case umap_find (cl_registrations c) ssid of
        None \<Rightarrow> (ok (), c)
      | Some reg \<Rightarrow>
          let c1 =
                (if umap_find (cl_connections c) ssid \<noteq> None then
                   snd (send_request ex ssid (session_request Delete (reg_location reg))
                          (set_state CS_Deregistering c))
                 else c);
              c2 = c1\<lparr>cl_registrations := umap_erase (cl_registrations c1) ssid\<rparr>;
              c3 = (if on_deregistered (cl_callbacks c2) then emit (Ev_Deregistered ssid) c2 else c2)
          in (ok (), set_state (if cl_registrations c3 = [] then CS_Idle else CS_Registered) c3))"

section \<open>Lifecycle\<close>

definition start :: "client \<Rightarrow> unit result \<times> client" where
  "start c =
     (if cl_running c then (err E_InvalidState ''Client already running'', c)
      else (ok (), (set_state CS_Idle (c\<lparr>cl_running := True\<rparr>))\<lparr>cl_event_thread := True\<rparr>))"

fun deregister_all :: "(u16 \<Rightarrow> exchange) \<Rightarrow> u16 list \<Rightarrow> client \<Rightarrow> client" where
  "deregister_all exs [] c = c"
| "deregister_all exs (ssid # ssids) c = deregister_all exs ssids (snd (deregister (exs ssid) ssid c))"

text \<open>\<open>on_event_thread\<close>: the call comes from a callback that runs on the event thread.\<close>

definition stop :: "bool \<Rightarrow> (u16 \<Rightarrow> exchange) \<Rightarrow> client \<Rightarrow> client" where
  "stop on_event_thread exs c =
     (let c1 = c\<lparr>cl_running := False\<rparr>
      in if cl_event_thread c1 \<and> on_event_thread then c1
         else
           let c2 = c1\<lparr>cl_event_thread := False\<rparr>;
               c3 = deregister_all exs (umap_keys (cl_registrations c2)) c2;
               c4 = c3\<lparr>cl_log := cl_log c3 @ map Ev_Disconnected (umap_keys (cl_connections c3))\<rparr>;
               c5 = c4\<lparr>cl_connections := [], cl_registrations := []\<rparr>
           in set_state CS_Idle c5)"

section \<open>Periodic checks\<close>

definition update_threshold :: "client_config \<Rightarrow> u32 \<Rightarrow> i64" where
  "update_threshold config lifetime =
     double_to_i64 (double_mul (double_of_i64 (ucast lifetime)) (ccf_update_trigger_threshold config))"

definition update_due :: "client_config \<Rightarrow> time_point \<Rightarrow> u32 \<Rightarrow> registration \<Rightarrow> bool" where
  "update_due config now lifetime reg \<longleftrightarrow>
     sint (reg_expires_at reg - now) \<le>
     sint ((ucast lifetime - update_threshold config lifetime) * 1000000000)"

fun check_registration_updates ::
  "time_point \<Rightarrow> (u16 \<Rightarrow> exchange) \<Rightarrow> u16 list \<Rightarrow> client \<Rightarrow> client" where
  "check_registration_updates now exs [] c = c"
| "check_registration_updates now exs (ssid # ssids) c =
     check_registration_updates now exs ssids
       (case (server_find_by_short_server_id (cl_server c) ssid, umap_find (cl_registrations c) ssid) of
          (Some srv_inst, Some reg) \<Rightarrow>
            if update_due (cl_config c) now (srv_lifetime srv_inst) reg
            then snd (update_registration (exs ssid) ssid c) else c
        | _ \<Rightarrow> c)"

definition handle_connection_lost :: "i64 \<Rightarrow> u16 \<Rightarrow> client \<Rightarrow> client" where
  "handle_connection_lost steady_now ssid c =
     (if cl_reconnecting c then c
      else
        let c1 = set_state CS_Error (c\<lparr>cl_reconnecting := True\<rparr>);
            c2 = c1\<lparr>cl_reconnect_attempts := 0, cl_reconnect_ssid := ssid,
                    cl_next_reconnect_time := steady_now,
                    cl_registrations := umap_erase (cl_registrations c1) ssid\<rparr>;
            c3 = (if on_connection_lost (cl_callbacks c2) then emit (Ev_Connection_Lost ssid) c2 else c2)
        in if on_error (cl_callbacks c3)
           then emit (Ev_Error E_ConnectionFailed ''Connection to server lost'') c3 else c3)"

text \<open>The first expired registration, else the first connection that is down.\<close>

fun first_expired :: "time_point \<Rightarrow> (u16, registration) umap \<Rightarrow> u16 option" where
  "first_expired now [] = None"
| "first_expired now ((ssid, reg) # rest) =
     (if sint now > sint (reg_expires_at reg) then Some ssid else first_expired now rest)"

fun first_disconnected :: "(u16, connection) umap \<Rightarrow> u16 option" where
  "first_disconnected [] = None"
| "first_disconnected ((ssid, conn) # rest) =
     (if \<not> con_connected conn then Some ssid else first_disconnected rest)"

definition check_connection_health :: "time_point \<Rightarrow> i64 \<Rightarrow> client \<Rightarrow> client" where
  "check_connection_health now steady_now c =
     (if cl_state c \<noteq> CS_Registered \<or> cl_reconnecting c then c
      else case first_expired now (cl_registrations c) of
          Some ssid \<Rightarrow> handle_connection_lost steady_now ssid c
        | None \<Rightarrow>
            (case first_disconnected (cl_connections c) of
               Some ssid \<Rightarrow> handle_connection_lost steady_now ssid c
             | None \<Rightarrow> c))"

section \<open>Reconnection\<close>

text \<open>The loop of \<open>calculate_backoff\<close>, with the iterations left.\<close>

fun backoff_loop :: "reconnection_config \<Rightarrow> nat \<Rightarrow> i64 \<Rightarrow> i64" where
  "backoff_loop config 0 backoff = backoff"
| "backoff_loop config (Suc n) backoff =
     (let next_backoff =
        double_to_i64 (double_mul (double_of_i64 backoff) (rcf_backoff_multiplier config))
      in if sint next_backoff > sint (rcf_max_backoff config) then rcf_max_backoff config
         else backoff_loop config n next_backoff)"

definition calculate_backoff :: "client \<Rightarrow> i64" where
  "calculate_backoff c =
     backoff_loop (cl_reconnect_config c) (unat (cl_reconnect_attempts c) - 1)
       (rcf_initial_backoff (cl_reconnect_config c))"

definition try_reconnect :: "register_script \<Rightarrow> i64 \<Rightarrow> u16 \<Rightarrow> client \<Rightarrow> client" where
  "try_reconnect script steady_now ssid c =
     (let config = cl_reconnect_config c
      in if \<not> rcf_enabled config then c\<lparr>cl_reconnecting := False\<rparr>
         else if rcf_max_retries config > 0 \<and> cl_reconnect_attempts c \<ge> rcf_max_retries config then
           (let c1 = c\<lparr>cl_reconnecting := False\<rparr>
            in if on_error (cl_callbacks c1)
               then emit (Ev_Error E_ConnectionFailed ''Max reconnection attempts reached'') c1 else c1)
         else
           (let c1 = c\<lparr>cl_reconnect_attempts := cl_reconnect_attempts c + 1\<rparr>;
                c2 = (if on_reconnecting (cl_callbacks c1)
                      then emit (Ev_Reconnecting ssid (cl_reconnect_attempts c1)) c1 else c1);
                c3 = (if umap_find (cl_connections c2) ssid \<noteq> None
                      then (emit (Ev_Disconnected ssid) c2)
                             \<lparr>cl_connections := umap_erase (cl_connections c2) ssid\<rparr>
                      else c2)
            in (case register_with_server script ssid c3 of
                  (Inr _, c4) \<Rightarrow>
                    (let c5 = c4\<lparr>cl_reconnecting := False, cl_reconnect_attempts := 0\<rparr>
                     in if on_reconnected (cl_callbacks c5) then emit (Ev_Reconnected ssid) c5 else c5)
                | (Inl _, c4) \<Rightarrow>
                    c4\<lparr>cl_next_reconnect_time := steady_now + calculate_backoff c4 * 1000000000\<rparr>)))"

section \<open>The event loop\<close>

fun poll_connections :: "(u16 \<Rightarrow> io list) \<Rightarrow> u16 list \<Rightarrow> client \<Rightarrow> client" where
  "poll_connections ios [] c = c"
| "poll_connections ios (ssid # ssids) c = poll_connections ios ssids (run_ios ssid (ios ssid) c)"

text \<open>The readings of the clocks in one poll, in the order the code takes them, and its scripts.\<close>

record poll_script =
  ps_ios :: "u16 \<Rightarrow> io list"
  ps_now :: time_point
  ps_updates :: "u16 \<Rightarrow> exchange"
  ps_health_now :: time_point
  ps_lost_steady :: i64
  ps_check_steady :: i64
  ps_register :: register_script
  ps_retry_steady :: i64

definition poll :: "poll_script \<Rightarrow> client \<Rightarrow> client" where
  "poll script c =
     (let c1 = poll_connections (ps_ios script) (umap_keys (cl_connections c)) c;
          c2 = check_registration_updates (ps_now script) (ps_updates script)
                 (umap_keys (cl_registrations c1)) c1;
          c3 = check_connection_health (ps_health_now script) (ps_lost_steady script) c2
      in if cl_reconnecting c3 \<and> sint (ps_check_steady script) \<ge> sint (cl_next_reconnect_time c3)
         then try_reconnect (ps_register script) (ps_retry_steady script) (cl_reconnect_ssid c3) c3
         else c3)"

text \<open>\<open>run_event_loop\<close>: one poll per script while \<open>running_\<close> is set.\<close>

fun run_event_loop :: "poll_script list \<Rightarrow> client \<Rightarrow> client" where
  "run_event_loop [] c = c"
| "run_event_loop (script # scripts) c =
     (if cl_running c then run_event_loop scripts (poll script c) else c)"

section \<open>Observers\<close>

definition get_registration :: "client \<Rightarrow> u16 \<Rightarrow> registration option" where
  "get_registration c ssid = umap_find (cl_registrations c) ssid"

definition registered_servers :: "client \<Rightarrow> u16 list" where
  "registered_servers c = map (\<lambda>(ssid, _). ssid) (cl_registrations c)"

fun client_state_to_string :: "client_state \<Rightarrow> string" where
  "client_state_to_string CS_Idle = ''Idle''"
| "client_state_to_string CS_Registering = ''Registering''"
| "client_state_to_string CS_Registered = ''Registered''"
| "client_state_to_string CS_Updating = ''Updating''"
| "client_state_to_string CS_Deregistering = ''Deregistering''"
| "client_state_to_string CS_BootstrapPending = ''BootstrapPending''"
| "client_state_to_string CS_Bootstrapping = ''Bootstrapping''"
| "client_state_to_string CS_Error = ''Error''"

definition is_running :: "client \<Rightarrow> bool" where
  "is_running c = cl_running c"

definition state_string :: "client \<Rightarrow> string" where
  "state_string c = client_state_to_string (cl_state c)"

text \<open>The destructor.\<close>

definition destroy_client :: "(u16 \<Rightarrow> exchange) \<Rightarrow> client \<Rightarrow> client" where
  "destroy_client exs c = stop False exs c"

text \<open>\<open>firmware_update().set_callbacks\<close>\<close>

definition set_firmware_callbacks :: "firmware_callbacks \<Rightarrow> client \<Rightarrow> client" where
  "set_firmware_callbacks callbacks c = c\<lparr>cl_firmware_callbacks := callbacks\<rparr>"

definition set_callbacks :: "client_callbacks \<Rightarrow> client \<Rightarrow> client" where
  "set_callbacks callbacks c = c\<lparr>cl_callbacks := callbacks\<rparr>"

definition set_reconnection_config :: "reconnection_config \<Rightarrow> client \<Rightarrow> client" where
  "set_reconnection_config config c = c\<lparr>cl_reconnect_config := config\<rparr>"

end
