(* ===== verification/Client_Invariants.thy ===== *)
theory Client_Invariants
  imports Client_Session
begin

text \<open>
  What the operations of the session keep: the tables of registrations and connections during
  everything that can arrive while the client waits, and the invariant of the client's states
  over all its operations.
\<close>

section \<open>While the client waits\<close>

text \<open>
  Handling what arrives registers and deregisters nothing, opens and closes no connection, leaves
  the locations alone, and changes the state at most to \<open>Registered\<close>, and then a registration
  exists.
\<close>

definition locations :: "client \<Rightarrow> (u16 \<times> string) list" where
  "locations c = map (\<lambda>(ssid, reg). (ssid, reg_location reg)) (cl_registrations c)"

definition frame :: "client \<Rightarrow> u16 list \<times> bool \<times> bool \<times> bool \<times> u16 \<times> u16 \<times> i64 \<times>
    reconnection_config \<times> client_config \<times> client_callbacks \<times> (u16, object_ref) umap" where
  "frame c = (umap_keys (cl_connections c), cl_running c, cl_event_thread c, cl_reconnecting c,
     cl_reconnect_attempts c, cl_reconnect_ssid c, cl_next_reconnect_time c, cl_reconnect_config c,
     cl_config c, cl_callbacks c, cl_objects c)"

definition waited :: "client \<Rightarrow> client \<Rightarrow> bool" where
  "waited c c' \<longleftrightarrow>
     locations c' = locations c \<and> frame c' = frame c \<and>
     (cl_state c' = cl_state c \<or> cl_state c' = CS_Registered \<and> cl_registrations c \<noteq> []) \<and>
     (\<exists>l. cl_log c' = cl_log c @ l) \<and> (tables_wf c \<longrightarrow> tables_wf c')"

lemma locations_Nil [simp]: "locations c = [] \<longleftrightarrow> cl_registrations c = []"
  by (simp add: locations_def)

lemma map_fst_locations [simp]: "map fst (locations c) = umap_keys (cl_registrations c)"
  by (simp add: locations_def case_prod_beta)

lemma waited_locations: "waited c c' \<Longrightarrow> locations c' = locations c"
  by (simp add: waited_def)

lemma waited_keys:
  assumes "waited c c'"
  shows "umap_keys (cl_registrations c') = umap_keys (cl_registrations c)"
  by (simp only: map_fst_locations [symmetric] waited_locations [OF assms])

lemma waited_empty:
  assumes "waited c c'"
  shows "cl_registrations c' = [] \<longleftrightarrow> cl_registrations c = []"
  by (simp only: locations_Nil [symmetric] waited_locations [OF assms])

lemma waited_refl [simp]: "waited c c"
  by (simp add: waited_def)

lemma waited_trans:
  assumes "waited a b" "waited b c"
  shows "waited a c"
  using assms waited_empty [OF assms(1)] unfolding waited_def by (elim conjE exE) auto

lemma waited_kept: "kept c c' \<Longrightarrow> waited c c'"
  by (auto simp: kept_def same_session_def waited_def locations_def frame_def)

lemma waited_emit [simp]: "waited c (emit e c)"
  by (simp add: waited_def frame_def emit_def locations_def tables_wf_def)

lemma umap_keys_set_found:
  "umap_find m k = Some v \<Longrightarrow> umap_keys (umap_set m k w) = umap_keys m"
  using umap_find_Some_key [of m k v] by (simp add: update_keys)

lemma waited_session_event [simp]: "waited c (session_event ssid up c)"
  by (auto simp: waited_def frame_def session_event_def locations_def tables_wf_def
      umap_keys_set_found simp del: set_map split: option.split)

lemma locations_set_found:
  assumes "umap_find m k = Some reg" "reg_location reg' = reg_location reg"
  shows "map (\<lambda>(ssid, reg). (ssid, reg_location reg)) (umap_set m k reg') =
    map (\<lambda>(ssid, reg). (ssid, reg_location reg)) m"
  using assms by (induction m) auto

lemma waited_refresh [simp]: "waited c (refresh_expiry now ssid c)"
  by (auto simp: waited_def frame_def refresh_expiry_def locations_def tables_wf_def locations_set_found
      split: option.split)

lemma set_state_sel [simp]:
  "cl_state (set_state st c) = st" "cl_registrations (set_state st c) = cl_registrations c"
  "cl_connections (set_state st c) = cl_connections c" "cl_running (set_state st c) = cl_running c"
  "cl_event_thread (set_state st c) = cl_event_thread c"
  "cl_reconnecting (set_state st c) = cl_reconnecting c"
  "cl_reconnect_attempts (set_state st c) = cl_reconnect_attempts c"
  "cl_reconnect_ssid (set_state st c) = cl_reconnect_ssid c"
  "cl_next_reconnect_time (set_state st c) = cl_next_reconnect_time c"
  "cl_reconnect_config (set_state st c) = cl_reconnect_config c"
  "cl_config (set_state st c) = cl_config c" "cl_callbacks (set_state st c) = cl_callbacks c"
  "cl_security (set_state st c) = cl_security c" "cl_server (set_state st c) = cl_server c"
  "cl_objects (set_state st c) = cl_objects c" "locations (set_state st c) = locations c"
  "tables_wf (set_state st c) = tables_wf c" "frame (set_state st c) = frame c"
  by (simp_all add: set_state_def Let_def emit_def locations_def tables_wf_def frame_def)

lemma set_state_log: "\<exists>l. cl_log (set_state st c) = cl_log c @ l"
  by (simp add: set_state_def Let_def emit_def)

text \<open>
  A stretch that starts by setting a state of its own and ends by setting \<open>Registered\<close>: what
  happens between the two is a wait.
\<close>

lemma waited_bracket:
  assumes "waited (set_state st c) c2" "cl_registrations c \<noteq> []"
  shows "waited c (set_state CS_Registered c2)"
proof -
  obtain l1 where "cl_log (set_state st c) = cl_log c @ l1" using set_state_log by blast
  moreover obtain l2 where "cl_log (set_state CS_Registered c2) = cl_log c2 @ l2"
    using set_state_log by blast
  ultimately show ?thesis using assms by (auto simp: waited_def)
qed

lemma send_on_waited:
  assumes "\<And>c. waited c (events c)" "send_on events reply ssid request c = (response, c')"
  shows "waited c c'"
  using assms(2) waited_trans [OF waited_emit assms(1)]
  by (auto simp: send_on_def split: option.splits if_splits)

lemma update_run_waited:
  shows "waited c (snd (update_registration ex ssid c))" and "waited c' (run_ios ssid' ios c')"
proof (induction ex ssid c and ssid' ios c' rule: update_registration_run_ios.induct)
  case (1 ios reply now ssid c)
  show ?case
  proof (cases "umap_find (cl_registrations c) ssid = None \<or> umap_find (cl_connections c) ssid = None")
    case True
    then show ?thesis by (auto split: option.split)
  next
    case False
    then obtain reg conn where found: "umap_find (cl_registrations c) ssid = Some reg"
      "umap_find (cl_connections c) ssid = Some conn" by auto
    define c1 where "c1 = set_state CS_Updating c"
    obtain response c2 where s: "send_on (\<lambda>c. run_ios ssid ios c) reply ssid
        (session_request Post (reg_location reg)) c1 = (response, c2)" by fastforce
    have "waited c1 c2"
      by (rule send_on_waited [OF _ s]) (use 1 found c1_def in auto)
    then have "waited c1 c2" "waited c1 (refresh_expiry now ssid c2)"
      by (auto intro: waited_trans)
    moreover have "cl_registrations c \<noteq> []" using found(1) by auto
    ultimately show ?thesis
      using found s by (auto simp: c1_def Let_def intro: waited_bracket)
  qed
next
  case (4 ssid env request ex ios c)
  obtain response c1 where h: "handle_incoming_request
      (\<lambda>s c. snd (update_registration ex s c)) env request c = (response, c1)" by fastforce
  have "waited c c1"
    using handle_cases [OF h] 4(1) waited_kept by (auto simp: h)
  moreover have "waited (emit (Ev_Answered response) c1) (run_ios ssid ios (emit (Ev_Answered response) c1))"
    using 4(2) h by auto
  ultimately show ?case using h by (auto intro: waited_trans [OF _ waited_trans [OF waited_emit]])
qed (auto intro: waited_trans [OF waited_session_event])

lemma send_request_waited:
  "send_request ex ssid request c = (response, c') \<Longrightarrow> waited c c'"
  unfolding send_request_def by (rule send_on_waited) (rule update_run_waited)

section \<open>The client between operations\<close>

text \<open>
  Between two operations the client is idle, registered or in error, never in one of the transient
  states; it is \<open>Registered\<close> only with a registration; and its tables have one entry per key.
\<close>

definition client_ok :: "client \<Rightarrow> bool" where
  "client_ok c \<longleftrightarrow>
     umap_wf (cl_registrations c) \<and> umap_wf (cl_connections c) \<and> tables_wf c \<and>
     cl_state c \<in> {CS_Idle, CS_Registered, CS_Error} \<and>
     (cl_state c = CS_Registered \<longrightarrow> cl_registrations c \<noteq> [])"

lemma client_ok_waited: "waited c c' \<Longrightarrow> client_ok c \<Longrightarrow> client_ok c'"
  using waited_keys [of c c'] waited_empty [of c c'] by (auto simp: client_ok_def waited_def frame_def)

text \<open>The same without the state, for the inside of an operation.\<close>

definition maps_ok :: "client \<Rightarrow> bool" where
  "maps_ok c \<longleftrightarrow> umap_wf (cl_registrations c) \<and> umap_wf (cl_connections c) \<and> tables_wf c"

lemma maps_ok_waited: "waited c c' \<Longrightarrow> maps_ok c \<Longrightarrow> maps_ok c'"
  using waited_keys [of c c'] by (auto simp: maps_ok_def waited_def frame_def)

lemma maps_ok_set_state [simp]: "maps_ok (set_state st c) = maps_ok c"
  by (simp add: maps_ok_def)

lemma emit_sel [simp]:
  "cl_state (emit e c) = cl_state c" "cl_registrations (emit e c) = cl_registrations c"
  "cl_connections (emit e c) = cl_connections c" "cl_callbacks (emit e c) = cl_callbacks c"
  "cl_running (emit e c) = cl_running c" "cl_reconnecting (emit e c) = cl_reconnecting c"
  "cl_reconnect_attempts (emit e c) = cl_reconnect_attempts c"
  "cl_reconnect_config (emit e c) = cl_reconnect_config c"
  "cl_security (emit e c) = cl_security c" "cl_server (emit e c) = cl_server c"
  "cl_log (emit e c) = cl_log c @ [e]" "tables_wf (emit e c) = tables_wf c"
  by (simp_all add: emit_def tables_wf_def)

lemma maps_ok_emit [simp]: "maps_ok (emit e c) = maps_ok c"
  by (simp add: maps_ok_def)

lemma client_ok_emit [simp]: "client_ok (emit e c) = client_ok c"
  by (simp add: client_ok_def)

lemma client_ok_maps: "client_ok c \<Longrightarrow> maps_ok c"
  by (simp add: client_ok_def maps_ok_def)

lemma client_ok_set_state:
  "client_ok (set_state st c) \<longleftrightarrow> maps_ok c \<and> st \<in> {CS_Idle, CS_Registered, CS_Error} \<and>
     (st = CS_Registered \<longrightarrow> cl_registrations c \<noteq> [])"
  by (auto simp: client_ok_def maps_ok_def)

lemma umap_set_not_Nil [simp]: "umap_set m k v \<noteq> []"
  by (cases m) auto

lemma open_connection_ok:
  assumes "open_connection connect ssid c = (r, c')"
  shows "maps_ok c \<Longrightarrow> maps_ok c'" "client_ok c \<Longrightarrow> client_ok c'" "is_err r \<Longrightarrow> c' = c"
    "is_ok r \<Longrightarrow> umap_find (cl_connections c') ssid \<noteq> None"
    "cl_registrations c' = cl_registrations c" "cl_state c' = cl_state c"
    "cl_reconnect_attempts c' = cl_reconnect_attempts c"
    "cl_reconnect_config c' = cl_reconnect_config c" "cl_server c' = cl_server c"
  using assms
  by (auto simp: open_connection_def maps_ok_def client_ok_def tables_wf_def Let_def
      split: if_splits sum.splits)

lemma complete_registration_ok:
  assumes "maps_ok c"
  shows "client_ok (complete_registration script ssid srv location c)"
    "cl_state (complete_registration script ssid srv location c) = CS_Registered"
    "cl_registrations (complete_registration script ssid srv location c) =
       umap_set (cl_registrations c) ssid \<lparr>reg_location = location, reg_short_server_id = ssid,
         reg_registered_at = rs_registered_at script,
         reg_expires_at = ex_now (rs_exchange script) + seconds (srv_lifetime srv)\<rparr>"
    "cl_connections (complete_registration script ssid srv location c) = cl_connections c"
  using assms
  by (simp_all add: complete_registration_def Let_def client_ok_set_state maps_ok_def tables_wf_def)

text \<open>The branches of \<open>register_with_server\<close>, once for all its properties.\<close>

lemma register_cases:
  assumes "register_with_server script ssid c = (r, c')"
  obtains (refused) "is_err r" "c' = c"
  | (failed) c1 c3 where "is_err r" "open_connection (rs_connect script) ssid c = (ok (), c1)"
      "waited (set_state CS_Registering c1) c3" "c' = set_state CS_Error c3"
  | (registered) srv c1 c3 response where "r = ok ()"
      "server_find_by_short_server_id (cl_server c) ssid = Some srv"
      "open_connection (rs_connect script) ssid c = (ok (), c1)"
      "waited (set_state CS_Registering c1) c3" "ex_reply (rs_exchange script) = ok response"
      "is_success response" "get_location_path response \<noteq> []"
      "c' = complete_registration script ssid srv (get_location_path response) c3"
proof -
  consider "is_err r" "c' = c"
    | srv c1 where "server_find_by_short_server_id (cl_server c) ssid = Some srv"
        "open_connection (rs_connect script) ssid c = (ok (), c1)"
        "security_find_by_short_server_id (cl_security c) ssid \<noteq> None"
    using assms
    by (auto simp: register_with_server_def split: option.splits prod.splits sum.splits
        dest: open_connection_ok(3))
  then show ?thesis
  proof cases
    case (2 srv c1)
    define request where "request = \<lparr>req_method = Post,
      req_uri_path = registration_uri (set_state CS_Registering c1) srv, req_options = [],
      req_payload = bytes_of_string (build_registration_payload (set_state CS_Registering c1)),
      req_content_format = F_LinkFormat\<rparr>"
    obtain response c3 where s: "send_request (rs_exchange script) ssid request
        (set_state CS_Registering c1) = (response, c3)" by fastforce
    note w = send_request_waited [OF s]
    from 2 s assms have r: "(r, c') = (case response of
        Inl e \<Rightarrow> (err (err_code e) (''Registration failed: '' @ err_message e), set_state CS_Error c3)
      | Inr response \<Rightarrow>
          if \<not> is_success response then
            (err E_BadRequest ''Registration rejected by server'', set_state CS_Error c3)
          else if get_location_path response = [] then
            (err E_BadRequest ''Server did not return Location-Path in registration response'',
             set_state CS_Error c3)
          else (ok (), complete_registration script ssid srv (get_location_path response) c3))"
      by (auto simp: register_with_server_def request_def Let_def)
    show ?thesis
    proof (cases response)
      case (Inl e)
      with r 2 w show ?thesis by (intro that(2)) auto
    next
      case (Inr resp)
      have reply: "ex_reply (rs_exchange script) = ok resp"
        using s Inr by (auto simp: send_request_def send_on_def err_def split: option.splits if_splits)
      show ?thesis
      proof (cases "is_success resp \<and> get_location_path resp \<noteq> []")
        case True
        with r 2 w Inr reply show ?thesis by (intro that(3)) auto
      next
        case False
        with r 2 w Inr show ?thesis by (intro that(2)) (auto split: if_splits)
      qed
    qed
  qed (rule that(1))
qed

lemma register_ok:
  assumes "register_with_server script ssid c = (r, c')" "client_ok c"
  shows "client_ok c'"
  using assms(1)
proof (cases rule: register_cases)
  case refused
  with assms(2) show ?thesis by simp
next
  case (failed c1 c3)
  then have "maps_ok c3"
    using open_connection_ok(1) [OF failed(2) client_ok_maps [OF assms(2)]] maps_ok_waited by auto
  with failed show ?thesis by (simp add: client_ok_set_state)
next
  case (registered srv c1 c3 response)
  then have "maps_ok c3"
    using open_connection_ok(1) [OF registered(3) client_ok_maps [OF assms(2)]] maps_ok_waited by auto
  with registered show ?thesis by (simp add: complete_registration_ok)
qed

definition drop_registration :: "u16 \<Rightarrow> client \<Rightarrow> client" where
  "drop_registration ssid c =
     (let c2 = c\<lparr>cl_registrations := umap_erase (cl_registrations c) ssid\<rparr>
      in if on_deregistered (cl_callbacks c2) then emit (Ev_Deregistered ssid) c2 else c2)"

lemma drop_registration_sel [simp]:
  "cl_registrations (drop_registration ssid c) = umap_erase (cl_registrations c) ssid"
  "cl_connections (drop_registration ssid c) = cl_connections c"
  "cl_running (drop_registration ssid c) = cl_running c"
  "cl_reconnecting (drop_registration ssid c) = cl_reconnecting c"
  "maps_ok c \<Longrightarrow> maps_ok (drop_registration ssid c)"
  by (simp_all add: drop_registration_def Let_def maps_ok_def tables_wf_def)

lemma deregister_cases:
  obtains (absent) "umap_find (cl_registrations c) ssid = None" "deregister ex ssid c = (ok (), c)"
  | (dropped) c1 reg where "umap_find (cl_registrations c) ssid = Some reg"
      "waited c c1 \<or> waited (set_state CS_Deregistering c) c1"
      "deregister ex ssid c =
         (ok (), set_state (if cl_registrations (drop_registration ssid c1) = [] then CS_Idle
                            else CS_Registered) (drop_registration ssid c1))"
proof (cases "umap_find (cl_registrations c) ssid")
  case None
  then show ?thesis by (intro that(1)) (simp_all add: deregister_def)
next
  case reg: (Some reg)
  show ?thesis
  proof (cases "umap_find (cl_connections c) ssid")
    case None
    with reg show ?thesis
      by (intro that(2) [of reg c]) (simp_all add: deregister_def drop_registration_def Let_def)
  next
    case (Some conn)
    obtain response c1 where s: "send_request ex ssid (session_request Delete (reg_location reg))
        (set_state CS_Deregistering c) = (response, c1)" by fastforce
    from send_request_waited [OF s] reg Some s show ?thesis
      by (intro that(2) [of reg c1]) (simp_all add: deregister_def drop_registration_def Let_def)
  qed
qed

lemma deregister_ok: "client_ok c \<Longrightarrow> client_ok (snd (deregister ex ssid c))"
proof (cases rule: deregister_cases [where c = c and ssid = ssid and ex = ex])
  case (dropped c1 reg)
  assume "client_ok c"
  then have "maps_ok c1" using dropped(2) client_ok_maps maps_ok_waited by fastforce
  with dropped(3) show ?thesis by (simp add: client_ok_set_state)
qed simp

lemma update_ok: "client_ok c \<Longrightarrow> client_ok (snd (update_registration ex ssid c))"
  using update_run_waited(1) by (rule client_ok_waited)

lemma deregister_all_ok: "client_ok c \<Longrightarrow> client_ok (deregister_all exs ssids c)"
  by (induction exs ssids c rule: deregister_all.induct) (simp_all add: deregister_ok)

lemma start_ok: "client_ok c \<Longrightarrow> client_ok (snd (start c))"
  by (auto simp: start_def client_ok_def tables_wf_def)

lemma stop_effect:
  assumes "\<not> (cl_event_thread c \<and> on_event_thread)"
  shows "cl_state (stop on_event_thread exs c) = CS_Idle"
    "cl_connections (stop on_event_thread exs c) = []"
    "cl_registrations (stop on_event_thread exs c) = []"
  using assms by (auto simp: stop_def Let_def)

lemma stop_ok:
  assumes "client_ok c"
  shows "client_ok (stop on_event_thread exs c)"
proof -
  have "client_ok (c\<lparr>cl_running := False\<rparr>)"
    "client_ok (c\<lparr>cl_running := False, cl_event_thread := False\<rparr>)"
    using assms by (simp_all add: client_ok_def tables_wf_def)
  from this(1) deregister_all_ok [OF this(2)] show ?thesis
    by (simp add: stop_def Let_def client_ok_set_state) (simp add: client_ok_def maps_ok_def tables_wf_def)
qed

lemma poll_connections_waited: "waited c (poll_connections ios ssids c)"
  by (induction ios ssids c rule: poll_connections.induct)
    (auto intro: waited_trans update_run_waited)

lemma check_updates_waited: "waited c (check_registration_updates now exs ssids c)"
proof (induction now exs ssids c rule: check_registration_updates.induct)
  case (2 now exs ssid ssids c)
  then show ?case
    by (auto split: option.splits intro: waited_trans update_run_waited)
qed simp

lemma connection_lost_ok: "client_ok c \<Longrightarrow> client_ok (handle_connection_lost steady ssid c)"
  by (simp add: handle_connection_lost_def Let_def client_ok_def tables_wf_def)

lemma check_health_ok: "client_ok c \<Longrightarrow> client_ok (check_connection_health now steady c)"
  by (simp add: check_connection_health_def connection_lost_ok split: option.split)

lemma client_ok_simple [simp]:
  "client_ok (c\<lparr>cl_reconnecting := b\<rparr>) = client_ok c"
  "client_ok (c\<lparr>cl_reconnect_attempts := n\<rparr>) = client_ok c"
  "client_ok (c\<lparr>cl_next_reconnect_time := t\<rparr>) = client_ok c"
  "client_ok (c\<lparr>cl_callbacks := cb\<rparr>) = client_ok c"
  "client_ok (c\<lparr>cl_reconnect_config := rc\<rparr>) = client_ok c"
  by (simp_all add: client_ok_def tables_wf_def)

lemma client_ok_close: "client_ok c \<Longrightarrow> client_ok (c\<lparr>cl_connections := umap_erase (cl_connections c) ssid\<rparr>)"
  by (simp add: client_ok_def tables_wf_def)

text \<open>The client as \<open>try_reconnect\<close> hands it to the registration.\<close>

definition reconnect_start :: "u16 \<Rightarrow> client \<Rightarrow> client" where
  "reconnect_start ssid c =
     (let c1 = c\<lparr>cl_reconnect_attempts := cl_reconnect_attempts c + 1\<rparr>;
          c2 = (if on_reconnecting (cl_callbacks c1)
                then emit (Ev_Reconnecting ssid (cl_reconnect_attempts c1)) c1 else c1)
      in if umap_find (cl_connections c2) ssid \<noteq> None
         then (emit (Ev_Disconnected ssid) c2)\<lparr>cl_connections := umap_erase (cl_connections c2) ssid\<rparr>
         else c2)"

lemma reconnect_start_ok:
  assumes "client_ok c"
  shows "client_ok (reconnect_start ssid c)"
  using assms client_ok_close [of "emit (Ev_Disconnected ssid) c2" ssid for c2]
  by (simp add: reconnect_start_def Let_def)

lemma try_reconnect_cases:
  obtains (disabled) "\<not> rcf_enabled (cl_reconnect_config c)"
      "try_reconnect script steady ssid c = c\<lparr>cl_reconnecting := False\<rparr>"
  | (given_up) "rcf_enabled (cl_reconnect_config c)" "0 < rcf_max_retries (cl_reconnect_config c)"
      "rcf_max_retries (cl_reconnect_config c) \<le> cl_reconnect_attempts c"
      "try_reconnect script steady ssid c =
         (let c1 = c\<lparr>cl_reconnecting := False\<rparr>
          in if on_error (cl_callbacks c1)
             then emit (Ev_Error E_ConnectionFailed ''Max reconnection attempts reached'') c1 else c1)"
  | (attempt) r c4 where "rcf_enabled (cl_reconnect_config c)"
      "\<not> (0 < rcf_max_retries (cl_reconnect_config c) \<and>
          rcf_max_retries (cl_reconnect_config c) \<le> cl_reconnect_attempts c)"
      "register_with_server script ssid (reconnect_start ssid c) = (r, c4)"
      "try_reconnect script steady ssid c =
         (case r of
            Inr _ \<Rightarrow>
              (let c5 = c4\<lparr>cl_reconnecting := False, cl_reconnect_attempts := 0\<rparr>
               in if on_reconnected (cl_callbacks c5) then emit (Ev_Reconnected ssid) c5 else c5)
          | Inl _ \<Rightarrow> c4\<lparr>cl_next_reconnect_time := steady + calculate_backoff c4 * 1000000000\<rparr>)"
proof -
  obtain r c4 where "register_with_server script ssid (reconnect_start ssid c) = (r, c4)" by fastforce
  with that show ?thesis
    by (cases "rcf_enabled (cl_reconnect_config c)";
        cases "0 < rcf_max_retries (cl_reconnect_config c) \<and>
          rcf_max_retries (cl_reconnect_config c) \<le> cl_reconnect_attempts c")
      (auto simp: try_reconnect_def reconnect_start_def Let_def)
qed

lemma try_reconnect_ok:
  assumes "client_ok c"
  shows "client_ok (try_reconnect script steady ssid c)"
proof (cases rule: try_reconnect_cases [where c = c and script = script and steady = steady and ssid = ssid])
  case (attempt r c4)
  with register_ok [OF attempt(3) reconnect_start_ok [OF assms]] show ?thesis
    by (auto simp: Let_def split: sum.split)
qed (use assms in \<open>simp_all add: Let_def\<close>)

lemma poll_ok:
  assumes "client_ok c"
  shows "client_ok (poll script c)"
proof -
  define c1 where "c1 = poll_connections (ps_ios script) (umap_keys (cl_connections c)) c"
  define c2 where "c2 = check_registration_updates (ps_now script) (ps_updates script)
    (umap_keys (cl_registrations c1)) c1"
  have "client_ok c2"
    unfolding c2_def c1_def
    by (intro client_ok_waited [OF check_updates_waited] client_ok_waited [OF poll_connections_waited] assms)
  then show ?thesis
    by (simp add: poll_def Let_def check_health_ok try_reconnect_ok
        flip: c1_def c2_def del: map_map)
qed

section \<open>Reachable clients\<close>

text \<open>The operations of the application and of the event loop.\<close>

inductive client_step :: "client \<Rightarrow> client \<Rightarrow> bool" where
  step_register: "register_with_server script ssid c = (r, c') \<Longrightarrow> client_step c c'"
| step_update: "update_registration ex ssid c = (r, c') \<Longrightarrow> client_step c c'"
| step_deregister: "deregister ex ssid c = (r, c') \<Longrightarrow> client_step c c'"
| step_start: "start c = (r, c') \<Longrightarrow> client_step c c'"
| step_stop: "client_step c (stop on_event_thread exs c)"
| step_poll: "client_step c (poll script c)"
| step_callbacks: "client_step c (set_callbacks callbacks c)"
| step_reconnection: "client_step c (set_reconnection_config config c)"
| step_object: "client_step c (add_object r c)"
| step_security: "security_add_server inst (cl_security c) = (r, s) \<Longrightarrow>
    client_step c (c\<lparr>cl_security := s\<rparr>)"
| step_server: "server_add_server srv (cl_server c) = (r', s') \<Longrightarrow> client_step c (c\<lparr>cl_server := s'\<rparr>)"
| step_device: "client_step c (c\<lparr>cl_device := d\<rparr>)"
| step_connectivity: "client_step c (c\<lparr>cl_connectivity := d\<rparr>)"
| step_firmware: "client_step c (c\<lparr>cl_firmware := f\<rparr>)"
| step_firmware_callbacks: "client_step c (set_firmware_callbacks callbacks c)"
| step_location: "client_step c (c\<lparr>cl_location := l\<rparr>)"

inductive_cases client_stepE: "client_step c c'"

inductive client_reachable :: "client \<Rightarrow> bool" where
  reachable_init: "client_reachable (client_init config now)"
| reachable_step: "client_reachable c \<Longrightarrow> client_step c c' \<Longrightarrow> client_reachable c'"

lemma client_ok_init: "client_ok (client_init config now)"
  by (simp add: client_init_def add_object_def client_ok_def tables_wf_def Let_def security_init_def
      server_init_def set_registration_update_callback_def)

lemma add_server_wf:
  "security_add_server inst s = (r, s') \<Longrightarrow> umap_wf (sec_instances s) \<Longrightarrow> umap_wf (sec_instances s')"
  "server_add_server srv t = (q, t') \<Longrightarrow> umap_wf (srv_instances t) \<Longrightarrow> umap_wf (srv_instances t')"
  by (auto simp: security_add_server_def server_add_server_def security_create_instance_def
      server_create_instance_def Let_def simp del: set_map split: if_splits)

lemma client_ok_objects:
  "client_ok (c\<lparr>cl_device := d\<rparr>) = client_ok c" "client_ok (c\<lparr>cl_connectivity := n\<rparr>) = client_ok c"
  "client_ok (c\<lparr>cl_firmware := f\<rparr>) = client_ok c" "client_ok (c\<lparr>cl_location := l\<rparr>) = client_ok c"
  "client_ok (c\<lparr>cl_firmware_callbacks := b\<rparr>) = client_ok c"
  by (simp_all add: client_ok_def tables_wf_def)

lemma client_step_ok: "client_step c c' \<Longrightarrow> client_ok c \<Longrightarrow> client_ok c'"
proof (induction rule: client_step.induct)
  case (step_register script ssid c r c')
  then show ?case by (rule register_ok)
next
  case (step_update ex ssid c r c')
  then show ?case by (metis update_ok snd_conv)
next
  case (step_deregister ex ssid c r c')
  then show ?case by (metis deregister_ok snd_conv)
next
  case (step_start c r c')
  then show ?case by (metis start_ok snd_conv)
next
  case (step_security inst c r s)
  then show ?case using add_server_wf(1) [OF step_security(1)] by (simp add: client_ok_def tables_wf_def)
next
  case (step_server srv c r' s')
  then show ?case using add_server_wf(2) [OF step_server(1)] by (simp add: client_ok_def tables_wf_def)
next
  case (step_object c r)
  then show ?case by (simp add: add_object_def client_ok_def tables_wf_def)
qed (simp_all add: stop_ok poll_ok client_ok_objects set_callbacks_def set_reconnection_config_def
    set_firmware_callbacks_def)

lemma client_reachable_ok: "client_reachable c \<Longrightarrow> client_ok c"
  by (induction rule: client_reachable.induct) (auto intro: client_ok_init client_step_ok)

section \<open>The mandatory objects\<close>

text \<open>
  The client owns five objects from its construction on. They stay in the table whatever the
  application adds beside them and whatever the servers send, so that a request to one of their
  identifiers always finds the object that the accessor returns to the application.
\<close>

lemma waited_objects: "waited c c' \<Longrightarrow> cl_objects c' = cl_objects c"
  by (simp add: waited_def frame_def)

lemma set_state_objects [simp]: "cl_objects (set_state st c) = cl_objects c"
  by (simp add: set_state_def Let_def emit_def)

lemma emit_objects [simp]: "cl_objects (emit e c) = cl_objects c"
  by (simp add: emit_def)

lemma drop_registration_objects [simp]: "cl_objects (drop_registration ssid c) = cl_objects c"
  by (simp add: drop_registration_def Let_def)

lemma open_connection_objects:
  "open_connection script ssid c = (r, c') \<Longrightarrow> cl_objects c' = cl_objects c"
  by (auto simp: open_connection_def Let_def split: option.splits prod.splits sum.splits if_splits)

lemma complete_registration_objects [simp]:
  "cl_objects (complete_registration script ssid srv loc c) = cl_objects c"
  by (simp add: complete_registration_def Let_def)

lemma register_objects:
  assumes "register_with_server script ssid c = (r, c')"
  shows "cl_objects c' = cl_objects c"
  using assms
proof (cases rule: register_cases)
  case (failed c1 c3)
  then show ?thesis using open_connection_objects [OF failed(2)] waited_objects [OF failed(3)] by simp
next
  case (registered srv c1 c3 response)
  then show ?thesis
    using open_connection_objects [OF registered(3)] waited_objects [OF registered(4)] by simp
qed simp

lemma deregister_objects: "cl_objects (snd (deregister ex ssid c)) = cl_objects c"
  by (cases rule: deregister_cases [where c = c and ssid = ssid and ex = ex])
    (auto dest: waited_objects)

lemma deregister_all_objects: "cl_objects (deregister_all exs ssids c) = cl_objects c"
  by (induction exs ssids c rule: deregister_all.induct) (simp_all add: deregister_objects)

lemma stop_objects: "cl_objects (stop on_event_thread exs c) = cl_objects c"
  by (simp add: stop_def Let_def deregister_all_objects)

lemma try_reconnect_objects: "cl_objects (try_reconnect script steady ssid c) = cl_objects c"
proof (cases rule: try_reconnect_cases [where c = c and script = script and steady = steady and ssid = ssid])
  case (attempt r c4)
  with register_objects [OF attempt(3)] show ?thesis
    by (auto simp: reconnect_start_def Let_def split: sum.split)
qed (simp_all add: Let_def)

lemma poll_objects: "cl_objects (poll script c) = cl_objects c"
proof -
  define c1 where "c1 = poll_connections (ps_ios script) (umap_keys (cl_connections c)) c"
  define c2 where "c2 = check_registration_updates (ps_now script) (ps_updates script)
    (umap_keys (cl_registrations c1)) c1"
  have "cl_objects c2 = cl_objects c"
    unfolding c2_def c1_def
    using waited_objects [OF check_updates_waited] waited_objects [OF poll_connections_waited] by simp
  then show ?thesis
    by (auto simp: poll_def Let_def check_connection_health_def handle_connection_lost_def
        try_reconnect_objects split: option.split simp flip: c1_def c2_def simp del: map_map)
qed

definition mandatory_objects :: "client \<Rightarrow> object_ref list" where
  "mandatory_objects c = [security_accessor c, server_accessor c, device_accessor c,
     connectivity_accessor c, firmware_update_accessor c]"

definition serves :: "client \<Rightarrow> object_ref \<Rightarrow> bool" where
  "serves c r \<longleftrightarrow> get_object c (object_ref_id r) = Some r"

lemmas accessor_defs = mandatory_objects_def security_accessor_def server_accessor_def
  device_accessor_def connectivity_accessor_def firmware_update_accessor_def

lemma object_ref_id_inject: "strong_value (object_ref_id r) = strong_value (object_ref_id s) \<longleftrightarrow> r = s"
  by (cases r; cases s) (simp_all add: oid_defs)

lemma serves_add_object: "serves (add_object q c) r \<longleftrightarrow> q = r \<or> serves c r"
  by (auto simp: serves_def get_object_def add_object_def object_ref_id_inject)

lemma serves_cong: "cl_objects c' = cl_objects c \<Longrightarrow> serves c' r = serves c r"
  by (simp add: serves_def get_object_def)

lemma client_step_serves: "client_step c c' \<Longrightarrow> serves c r \<Longrightarrow> serves c' r"
proof (induction rule: client_step.induct)
  case (step_register script ssid c q c')
  then show ?case using serves_cong [OF register_objects] by blast
next
  case (step_update ex ssid c q c')
  then show ?case using serves_cong [OF waited_objects [OF update_run_waited(1)], of ex ssid c] by simp
next
  case (step_deregister ex ssid c q c')
  then show ?case using serves_cong [OF deregister_objects, of ex ssid c] by simp
next
  case (step_start c q c')
  then show ?case by (auto simp: start_def serves_def get_object_def split: if_splits)
next
  case (step_stop c on_event_thread exs)
  then show ?case using serves_cong [OF stop_objects] by blast
next
  case (step_poll c script)
  then show ?case using serves_cong [OF poll_objects] by blast
next
  case (step_object c q)
  then show ?case by (simp add: serves_add_object)
qed (simp_all add: serves_def get_object_def set_callbacks_def set_reconnection_config_def
    set_firmware_callbacks_def)

lemma mandatory_objects_served:
  "client_reachable c \<Longrightarrow> r \<in> set (mandatory_objects c) \<Longrightarrow>
     get_object c (object_ref_id r) = Some r"
proof (induction rule: client_reachable.induct)
  case (reachable_init config now)
  then have "serves (client_init config now) r"
    by (auto simp: client_init_def Let_def serves_add_object accessor_defs
        serves_cong [of "c\<lparr>cl_server := s\<rparr>" c for c s])
  then show ?case by (simp add: serves_def)
next
  case (reachable_step c c')
  then have "r \<in> set (mandatory_objects c)" by (simp add: accessor_defs)
  with reachable_step client_step_serves [of c c' r] show ?case by (simp add: serves_def)
qed

end
