(* ===== verification/Client_Timers.thy ===== *)
theory Client_Timers
  imports Client_Invariants
begin

text \<open>
  The timers of the client, through the floating-point arithmetic they are computed with: with the
  default multiplier the backoff doubles exactly up to its maximum, with the default threshold an
  update is due when a fifth of the lifetime is left. And the effects of the session's operations,
  one lemma per operation.
\<close>

section \<open>Reading small numbers\<close>

lemma sint_word_of_nat_small:
  assumes "n < 2 ^ 63"
  shows "sint (word_of_nat n :: i64) = int n"
proof -
  have "int n < 2 ^ 63" using assms by simp
  then have "signed_take_bit 63 (int n) = int n"
    by (intro signed_take_bit_int_eq_self) simp_all
  then show ?thesis by (simp only: signed_of_nat) simp
qed

section \<open>Backoff\<close>

text \<open>Whatever the floats do, the loop never exceeds the larger of its start and the maximum.\<close>

lemma backoff_loop_bound:
  "sint (backoff_loop config n b) \<le> max (sint b) (sint (rcf_max_backoff config))"
proof (induction config n b rule: backoff_loop.induct)
  case (2 config n b)
  then show ?case by (fastforce simp: Let_def max_def)
qed simp

lemma backoff_loop_default:
  assumes "rcf_backoff_multiplier config = 0x4000000000000000" "sint b = int m" "0 < m"
    "sint (rcf_max_backoff config) = int M" "M < 2 ^ 50" "m \<le> M"
  shows "backoff_loop config n b =
    (if 2 ^ n * m \<le> M then word_of_nat (2 ^ n * m) else rcf_max_backoff config)"
  using assms
proof (induction n arbitrary: b m)
  case 0
  have "b = word_of_int (sint b)" by simp
  with 0 have "b = word_of_nat m" by simp
  with 0 show ?case by simp
next
  case (Suc n)
  define b' where "b' = double_to_i64 (double_mul (double_of_i64 b) 0x4000000000000000)"
  have b': "b' = word_of_nat (2 * m)"
    using double_twice [OF Suc.prems(2,3)] Suc.prems(5,6) by (simp add: b'_def)
  have sb': "sint b' = int (2 * m)"
    unfolding b' by (rule sint_word_of_nat_small) (use Suc.prems(5,6) in simp)
  show ?case
  proof (cases "2 * m \<le> M")
    case True
    with Suc.IH [OF Suc.prems(1) sb' _ Suc.prems(4,5)] Suc.prems sb' show ?thesis
      by (simp add: Let_def mult.assoc mult.commute flip: b'_def)
  next
    case False
    moreover have "1 * (2 * m) \<le> 2 ^ n * (2 * m)" by (rule mult_le_mono1) simp
    ultimately have "\<not> 2 ^ n * (2 * m) \<le> M" by linarith
    then have "\<not> 2 ^ Suc n * m \<le> M" by (simp add: ac_simps)
    with False Suc.prems sb' show ?thesis by (simp add: Let_def flip: b'_def)
  qed
qed

section \<open>Update threshold\<close>

lemma update_threshold_exact:
  assumes "ccf_update_trigger_threshold config = 0x3FE999999999999A"
  shows "update_threshold config l = word_of_nat (4 * unat l div 5)"
proof (cases "l = 0")
  case True
  have "double_of_i64 0 = 0" by (simp add: double_of_i64_def round_double_def)
  moreover have "double_mantissa 0 = 0" by (simp add: double_mantissa_def)
  ultimately show ?thesis using True assms
    by (simp add: update_threshold_def double_mul_def double_is_nan_def double_is_inf_def
        round_double_def double_to_i64_def Let_def)
next
  case False
  have l: "unat l < 2 ^ 32" 
  proof -
    have "unat l < 2 ^ LENGTH(32)" by (rule unsigned_less)
    then show ?thesis by simp
  qed
  then have "sint (word_of_nat (unat l) :: i64) = int (unat l)"
    by (intro sint_word_of_nat_small) simp
  then have "sint (ucast l :: i64) = int (unat l)" by simp
  moreover have "0 < unat l" using False by (simp add: unat_gt_0)
  ultimately show ?thesis using double_four_fifths [OF _ _ l] assms by (simp add: update_threshold_def)
qed

lemma calculate_backoff_default:
  assumes "cl_reconnect_config c = default_reconnection_config"
  shows "calculate_backoff c =
    (if unat (cl_reconnect_attempts c) \<le> 8 then word_of_nat (2 ^ max 1 (unat (cl_reconnect_attempts c)))
     else 300)"
proof -
  define n where "n = unat (cl_reconnect_attempts c)"
  have l: "backoff_loop default_reconnection_config k 2 =
      (if 2 ^ k * 2 \<le> (300 :: nat) then word_of_nat (2 ^ k * 2) else 300)" for k
    using backoff_loop_default [of default_reconnection_config 2 2 300 k]
    by (simp add: default_reconnection_config_def)
  have c: "calculate_backoff c = backoff_loop default_reconnection_config (n - 1) 2"
    using assms by (simp add: calculate_backoff_def n_def default_reconnection_config_def)
  show ?thesis
  proof (cases "n \<le> 8")
    case True
    then have "n - 1 \<le> 7" by simp
    then have "(2 :: nat) ^ (n - 1) \<le> 2 ^ 7" by (rule power_increasing) simp
    moreover have "2 ^ (n - 1) * 2 = (2 :: nat) ^ max 1 n"
      by (cases n) (simp_all add: max_def)
    ultimately show ?thesis using True unfolding c l n_def [symmetric] by simp
  next
    case False
    then have "8 \<le> n - 1" by simp
    then have "(2 :: nat) ^ 8 \<le> 2 ^ (n - 1)" by (rule power_increasing) simp
    then show ?thesis using False unfolding c l n_def [symmetric] by simp
  qed
qed

lemma update_due_default:
  assumes "ccf_update_trigger_threshold config = 0x3FE999999999999A"
  shows "update_due config now l reg \<longleftrightarrow>
    sint (reg_expires_at reg - now) \<le> (int (unat l) - 4 * int (unat l) div 5) * 1000000000"
proof -
  define n where "n = unat l"
  have n: "n < 2 ^ 32"
  proof -
    have "unat l < 2 ^ LENGTH(32)" by (rule unsigned_less)
    then show ?thesis by (simp add: n_def)
  qed
  have ge: "4 * n div 5 \<le> n" by simp
  have "(ucast l :: i64) = word_of_nat n" by (simp add: n_def)
  then have "(ucast l - update_threshold config l) * 1000000000 =
      (word_of_nat ((n - 4 * n div 5) * 1000000000) :: i64)"
    using ge by (simp add: update_threshold_exact [OF assms] n_def [symmetric] of_nat_diff)
  moreover have "n - 4 * n div 5 \<le> 2 ^ 32" using n by simp
  then have "(n - 4 * n div 5) * 1000000000 \<le> 2 ^ 32 * 1000000000" by (rule mult_le_mono1)
  then have "(n - 4 * n div 5) * 1000000000 < 2 ^ 63" by (rule order.strict_trans1) simp
  then have "sint (word_of_nat ((n - 4 * n div 5) * 1000000000) :: i64) =
      int ((n - 4 * n div 5) * 1000000000)"
    by (rule sint_word_of_nat_small)
  ultimately show ?thesis
    using ge by (simp add: update_due_def n_def [symmetric] of_nat_diff zdiv_int)
qed

section \<open>Effects of the session's operations\<close>

lemma waited_find_connection:
  assumes "waited c c'" "umap_find (cl_connections c) ssid \<noteq> None"
  shows "umap_find (cl_connections c') ssid \<noteq> None"
  using assms umap_find_None_iff [of "cl_connections c" ssid]
    umap_find_None_iff [of "cl_connections c'" ssid]
  by (simp add: waited_def frame_def del: set_map)

lemma find_locations:
  "map_of (locations c) ssid = map_option reg_location (umap_find (cl_registrations c) ssid)"
  by (simp add: locations_def map_of_map)

lemma waited_location:
  assumes "waited c c'"
  shows "map_option reg_location (umap_find (cl_registrations c') ssid) =
    map_option reg_location (umap_find (cl_registrations c) ssid)"
  by (simp only: find_locations [symmetric] waited_locations [OF assms])

lemma send_request_logs:
  assumes "umap_find (cl_connections c) ssid = Some conn" "con_connected conn"
    "send_request ex ssid request c = (response, c')"
  shows "Ev_Sent ssid request \<in> set (cl_log c')" "response = ex_reply ex"
proof -
  have c': "c' = run_ios ssid (ex_ios ex) (emit (Ev_Sent ssid request) c)" "response = ex_reply ex"
    using assms by (simp_all add: send_request_def send_on_def)
  have "waited (emit (Ev_Sent ssid request) c) c'"
    unfolding c' by (rule update_run_waited)
  then obtain l where "cl_log c' = cl_log (emit (Ev_Sent ssid request) c) @ l"
    by (auto simp: waited_def)
  then show "Ev_Sent ssid request \<in> set (cl_log c')" by simp
  show "response = ex_reply ex" by (rule c'(2))
qed

lemma set_state_log_mem: "e \<in> set (cl_log c) \<Longrightarrow> e \<in> set (cl_log (set_state st c))"
  using set_state_log [of st c] by auto

lemma drop_registration_log_mem:
  "e \<in> set (cl_log c) \<Longrightarrow> e \<in> set (cl_log (drop_registration ssid c))"
  by (simp add: drop_registration_def Let_def)

lemma locations_drop:
  "map_of (locations (drop_registration ssid c)) = (map_of (locations c))(ssid := None)"
  by (rule ext) (simp add: find_locations)

lemma set_state_log_subset: "set (cl_log c) \<subseteq> set (cl_log (set_state st c))"
  by (auto simp: set_state_log_mem)

text \<open>
  Whether a connection is up, and a script during which none goes down: requests may arrive, and the
  updates they trigger may be answered or not.
\<close>

definition link_up :: "client \<Rightarrow> u16 \<Rightarrow> bool" where
  "link_up c ssid \<longleftrightarrow> (\<exists>conn. umap_find (cl_connections c) ssid = Some conn \<and> con_connected conn)"

fun keeps_links :: "io list \<Rightarrow> bool" where
  "keeps_links [] \<longleftrightarrow> True"
| "keeps_links (Session_Event up # ios) \<longleftrightarrow> up \<and> keeps_links ios"
| "keeps_links (Incoming env request (Exchange ios' reply now) # ios) \<longleftrightarrow>
     keeps_links ios' \<and> keeps_links ios"

lemma link_up_cong: "cl_connections c' = cl_connections c \<Longrightarrow> link_up c' s = link_up c s"
  by (simp add: link_up_def)

lemma link_up_simps [simp]:
  "link_up (set_state st c) s = link_up c s" "link_up (emit e c) s = link_up c s"
  "link_up (drop_registration ssid c) s = link_up c s" "link_up (refresh_expiry now ssid c) s = link_up c s"
  by (auto simp: refresh_expiry_def split: option.split intro!: link_up_cong)

lemma link_up_send:
  assumes "\<And>c. link_up c s \<Longrightarrow> link_up (events c) s"
    "send_on events reply ssid request c = (response, c')" "link_up c s"
  shows "link_up c' s"
  using assms by (auto simp: send_on_def split: option.splits if_splits)

lemma run_keeps_links:
  shows "\<lbrakk>keeps_links (ex_ios ex); link_up c s\<rbrakk> \<Longrightarrow> link_up (snd (update_registration ex ssid c)) s"
    and "\<lbrakk>keeps_links ios; link_up c' s\<rbrakk> \<Longrightarrow> link_up (run_ios ssid' ios c') s"
proof (induction ex ssid c and ssid' ios c' rule: update_registration_run_ios.induct)
  case (1 ios reply now ssid c)
  show ?case
  proof (cases "umap_find (cl_registrations c) ssid = None \<or> umap_find (cl_connections c) ssid = None")
    case True
    with 1(3) show ?thesis by (auto split: option.split)
  next
    case False
    then obtain reg conn where found: "umap_find (cl_registrations c) ssid = Some reg"
      "umap_find (cl_connections c) ssid = Some conn" by auto
    obtain response c2 where s: "send_on (\<lambda>c. run_ios ssid ios c) reply ssid
        (session_request Post (reg_location reg)) (set_state CS_Updating c) = (response, c2)" by fastforce
    have "link_up c2 s"
      by (rule link_up_send [OF _ s]) (use 1 found in auto)
    with found s show ?thesis by simp
  qed
next
  case (3 ssid up ios c)
  then have "link_up (session_event ssid up c) s"
    by (auto simp: session_event_def link_up_def split: option.split)
  with 3 show ?case by simp
next
  case (4 ssid env request ex ios c)
  obtain ios' reply now where ex: "ex = Exchange ios' reply now" by (cases ex)
  obtain response c1 where h: "handle_incoming_request
      (\<lambda>s c. snd (update_registration ex s c)) env request c = (response, c1)" by fastforce
  have "link_up c1 s"
    using handle_cases [OF h] 4(1) [of _ _ ] 4(3,4)
    by (auto simp: h ex kept_def same_session_def link_up_def)
  with 4(2) [OF h [symmetric] refl] 4(3) h show ?case by (simp add: ex)
qed auto

lemma deregister_effect:
  assumes reg: "umap_find (cl_registrations c) ssid = Some reg" and c': "c' = snd (deregister ex ssid c)"
  shows "set (cl_log c) \<subseteq> set (cl_log c')"
    "set (umap_keys (cl_registrations c')) = set (umap_keys (cl_registrations c)) - {ssid}"
    "s \<noteq> ssid \<Longrightarrow> map_option reg_location (umap_find (cl_registrations c') s) =
       map_option reg_location (umap_find (cl_registrations c) s)"
    "cl_callbacks c' = cl_callbacks c"
    "on_deregistered (cl_callbacks c) \<Longrightarrow> Ev_Deregistered ssid \<in> set (cl_log c')"
    "link_up c ssid \<Longrightarrow> Ev_Sent ssid (session_request Delete (reg_location reg)) \<in> set (cl_log c')"
    "keeps_links (ex_ios ex) \<Longrightarrow> link_up c s \<Longrightarrow> link_up c' s"
proof -
  define c0 where "c0 = (if umap_find (cl_connections c) ssid = None then c
    else set_state CS_Deregistering c)"
  define c1 where "c1 = (if umap_find (cl_connections c) ssid = None then c
    else snd (send_request ex ssid (session_request Delete (reg_location reg)) c0))"
  have e: "c' = set_state (if cl_registrations (drop_registration ssid c1) = [] then CS_Idle
      else CS_Registered) (drop_registration ssid c1)"
    using reg by (auto simp: c' deregister_def c0_def c1_def drop_registration_def Let_def
        split: option.split prod.split)
  have w: "waited c0 c1"
    using send_request_waited [of ex ssid "session_request Delete (reg_location reg)" c0 _ c1]
    by (cases "umap_find (cl_connections c) ssid")
      (auto simp: c1_def c0_def intro: send_request_waited [OF surjective_pairing])
  have log: "set (cl_log c) \<subseteq> set (cl_log c1)"
    using w set_state_log_subset [of c CS_Deregistering] by (auto simp: waited_def c0_def split: if_splits)
  show "set (cl_log c) \<subseteq> set (cl_log c')"
    using log by (auto simp: e set_state_log_mem drop_registration_log_mem)
  have keys: "umap_keys (cl_registrations c1) = umap_keys (cl_registrations c)"
    using waited_keys [OF w] by (simp add: c0_def split: if_splits)
  show "set (umap_keys (cl_registrations c')) = set (umap_keys (cl_registrations c)) - {ssid}"
    by (simp add: e umap_keys_erase keys del: set_map)
  show "map_option reg_location (umap_find (cl_registrations c') s) =
       map_option reg_location (umap_find (cl_registrations c) s)" if "s \<noteq> ssid"
    using waited_location [OF w, of s] that by (simp add: e c0_def split: if_splits)
  have cb: "cl_callbacks c1 = cl_callbacks c"
    using w by (simp add: waited_def frame_def c0_def split: if_splits)
  then show "cl_callbacks c' = cl_callbacks c" by (simp add: e drop_registration_def Let_def)
  show "Ev_Deregistered ssid \<in> set (cl_log c')" if "on_deregistered (cl_callbacks c)"
    using that by (auto simp: e drop_registration_def Let_def cb intro!: set_state_log_mem)
  show "Ev_Sent ssid (session_request Delete (reg_location reg)) \<in> set (cl_log c')" if up: "link_up c ssid"
  proof -
    obtain conn where conn: "umap_find (cl_connections c) ssid = Some conn" "con_connected conn"
      using up by (auto simp: link_up_def)
    then have "Ev_Sent ssid (session_request Delete (reg_location reg)) \<in> set (cl_log c1)"
      using send_request_logs(1) [OF _ conn(2) surjective_pairing] by (simp add: c1_def c0_def)
    then show ?thesis by (simp add: e set_state_log_mem drop_registration_log_mem)
  qed
  show "link_up c' s" if "keeps_links (ex_ios ex)" "link_up c s"
  proof -
    have "link_up c1 s"
      using that(2) link_up_send [OF run_keeps_links(2) [OF that(1)] surjective_pairing, of s]
      by (auto simp: c1_def c0_def send_request_def)
    then show ?thesis by (simp add: e)
  qed
qed

lemma deregister_all_effect:
  assumes "distinct ssids" "set ssids \<subseteq> set (umap_keys (cl_registrations c))"
    "c' = deregister_all exs ssids c"
  shows "set (cl_log c) \<subseteq> set (cl_log c') \<and>
    (on_deregistered (cl_callbacks c) \<longrightarrow> Ev_Deregistered ` set ssids \<subseteq> set (cl_log c')) \<and>
    (\<forall>ssid reg. ssid \<in> set ssids \<and> umap_find (cl_registrations c) ssid = Some reg \<and> link_up c ssid \<and>
       (\<forall>s \<in> set ssids. keeps_links (ex_ios (exs s))) \<longrightarrow>
       Ev_Sent ssid (session_request Delete (reg_location reg)) \<in> set (cl_log c'))"
  using assms
proof (induction ssids arbitrary: c)
  case (Cons ssid ssids)
  define c1 where "c1 = snd (deregister (exs ssid) ssid c)"
  obtain reg where reg: "umap_find (cl_registrations c) ssid = Some reg"
    using Cons.prems(2) umap_find_None_iff [of "cl_registrations c" ssid]
    by (cases "umap_find (cl_registrations c) ssid") (auto simp del: set_map)
  note d = deregister_effect [OF reg c1_def]
  have "set ssids \<subseteq> set (umap_keys (cl_registrations c1))"
    using Cons.prems(1,2) by (auto simp: d(2) simp del: set_map)
  moreover have c': "c' = deregister_all exs ssids c1" using Cons.prems(3) by (simp add: c1_def)
  ultimately have IH: "set (cl_log c1) \<subseteq> set (cl_log c')"
    "on_deregistered (cl_callbacks c) \<Longrightarrow> Ev_Deregistered ` set ssids \<subseteq> set (cl_log c')"
    "\<And>s r. \<lbrakk>s \<in> set ssids; umap_find (cl_registrations c1) s = Some r; link_up c1 s;
       \<forall>s \<in> set ssids. keeps_links (ex_ios (exs s))\<rbrakk> \<Longrightarrow>
       Ev_Sent s (session_request Delete (reg_location r)) \<in> set (cl_log c')"
    using Cons.IH [of c1] Cons.prems(1) d(4) by auto
  have "Ev_Sent s (session_request Delete (reg_location r)) \<in> set (cl_log c')"
    if s: "s \<in> set (ssid # ssids)" "umap_find (cl_registrations c) s = Some r" "link_up c s"
      "\<forall>s \<in> set (ssid # ssids). keeps_links (ex_ios (exs s))" for s r
  proof (cases "s = ssid")
    case True
    with s reg d(6) IH(1) show ?thesis by auto
  next
    case False
    then obtain r1 where "umap_find (cl_registrations c1) s = Some r1" "reg_location r1 = reg_location r"
      using d(3) [OF False] s(2) by auto
    with IH(3) [of s r1] d(7) [of s] s False show ?thesis by auto
  qed
  with d(1,5) IH(1,2) show ?case by auto
qed simp

lemma deregister_all_frame:
  "cl_running (deregister_all exs ssids c) = cl_running c \<and>
   cl_reconnecting (deregister_all exs ssids c) = cl_reconnecting c"
proof (induction ssids arbitrary: c)
  case (Cons ssid ssids)
  have "cl_running (snd (deregister (exs ssid) ssid c)) = cl_running c \<and>
    cl_reconnecting (snd (deregister (exs ssid) ssid c)) = cl_reconnecting c"
    by (cases rule: deregister_cases [where c = c and ssid = ssid and ex = "exs ssid"])
      (auto simp: waited_def frame_def)
  with Cons show ?case by simp
qed simp

text \<open>What a stop outside the event thread leaves in the log.\<close>

lemma stop_log:
  assumes "client_ok c" "\<not> (cl_event_thread c \<and> on_event_thread)"
  shows "set (cl_log c) \<subseteq> set (cl_log (stop on_event_thread exs c)) \<and>
    \<not> cl_running (stop on_event_thread exs c) \<and>
    cl_reconnecting (stop on_event_thread exs c) = cl_reconnecting c \<and>
    (on_deregistered (cl_callbacks c) \<longrightarrow>
       Ev_Deregistered ` set (umap_keys (cl_registrations c)) \<subseteq> set (cl_log (stop on_event_thread exs c))) \<and>
    (\<forall>ssid reg. umap_find (cl_registrations c) ssid = Some reg \<and> link_up c ssid \<and>
       (\<forall>s \<in> set (umap_keys (cl_registrations c)). keeps_links (ex_ios (exs s))) \<longrightarrow>
       Ev_Sent ssid (session_request Delete (reg_location reg)) \<in> set (cl_log (stop on_event_thread exs c)))"
proof -
  define c2 where "c2 = c\<lparr>cl_running := False, cl_event_thread := False\<rparr>"
  define c3 where "c3 = deregister_all exs (umap_keys (cl_registrations c2)) c2"
  have stop: "stop on_event_thread exs c = set_state CS_Idle
      (c3\<lparr>cl_log := cl_log c3 @ map Ev_Disconnected (umap_keys (cl_connections c3)),
         cl_connections := [], cl_registrations := []\<rparr>)"
    using assms(2) by (auto simp: stop_def Let_def c2_def c3_def)
  then have log: "set (cl_log c3) \<subseteq> set (cl_log (stop on_event_thread exs c))"
    by (auto intro: set_state_log_mem)
  have "distinct (umap_keys (cl_registrations c2))" using assms(1) by (simp add: client_ok_def c2_def)
  note all = deregister_all_effect [OF this order.refl c3_def]
  have "link_up c2 s = link_up c s" for s by (simp add: link_up_def c2_def)
  moreover have "cl_running c3 = cl_running c2 \<and> cl_reconnecting c3 = cl_reconnecting c2"
    unfolding c3_def by (rule deregister_all_frame)
  moreover have "ssid \<in> set (umap_keys (cl_registrations c))"
    if "umap_find (cl_registrations c) ssid = Some reg" for ssid reg
    using umap_find_Some_key [OF that] by simp
  ultimately show ?thesis
    using all log unfolding c2_def by (auto simp: stop simp del: set_map)
qed


lemma register_registered:
  assumes "register_with_server script ssid c = (ok (), c')"
  shows "\<exists>response srv. ex_reply (rs_exchange script) = ok response \<and> is_success response \<and>
    server_find_by_short_server_id (cl_server c) ssid = Some srv \<and> cl_state c' = CS_Registered \<and>
    umap_find (cl_connections c') ssid \<noteq> None \<and>
    umap_find (cl_registrations c') ssid = Some
      \<lparr>reg_location = get_location_path response, reg_short_server_id = ssid,
       reg_registered_at = rs_registered_at script,
       reg_expires_at = ex_now (rs_exchange script) + seconds (srv_lifetime srv)\<rparr> \<and>
    get_location_path response \<noteq> []"
  using assms
proof (cases rule: register_cases)
  case (registered srv c1 c3 response)
  have "umap_find (cl_connections (set_state CS_Registering c1)) ssid \<noteq> None"
    using open_connection_ok(4) [OF registered(3)] by simp
  from waited_find_connection [OF registered(4) this] registered show ?thesis
    by (auto simp: complete_registration_def Let_def)
qed simp_all

lemma register_failed:
  assumes "register_with_server script ssid c = (Inl e, c')"
  shows "locations c' = locations c \<and> cl_state c' \<in> {cl_state c, CS_Error}"
  using assms
proof (cases rule: register_cases)
  case (failed c1 c3)
  have "locations c1 = locations c"
    using open_connection_ok(5) [OF failed(2)] by (simp add: locations_def)
  with failed waited_locations [OF failed(3)] show ?thesis by simp
qed simp_all

end
