(* ===== verification/Client_Properties.thy ===== *)
theory Client_Properties
  imports Client_Timers
begin

text \<open>
  The properties of the client: what a server gets back for its requests, what the requests can
  change, the invariant of the client's states, and the effects of registration, update,
  deregistration, reconnection and shutdown.
\<close>

section \<open>A concrete client for the witnesses\<close>

text \<open>One server, registered at \<open>/rd/1\<close> over a live connection.\<close>

definition sample_client :: client where
  "sample_client = (client_init (default_client_config ''ep'') 0)
     \<lparr>cl_server := \<lparr>srv_instances = [(0, default_server_instance\<lparr>srv_short_server_id := 7\<rparr>)],
        srv_next_instance_id = 1, srv_update_callback_set = True\<rparr>,
      cl_security := \<lparr>sec_instances = [(0, default_security_instance\<lparr>sec_short_server_id := 7\<rparr>)],
        sec_next_instance_id = 1\<rparr>,
      cl_connections := [(7, \<lparr>con_config = default_connection_config, con_connected = True\<rparr>)],
      cl_registrations := [(7, \<lparr>reg_location = ''/rd/1'', reg_short_server_id = 7,
        reg_registered_at = 0, reg_expires_at = 0\<rparr>)],
      cl_state := CS_Registered\<rparr>"

lemmas sample_defs = sample_client_def client_init_def add_object_def Let_def
  oid_Security_def oid_Server_def oid_Device_def oid_ConnectivityMonitoring_def
  oid_FirmwareUpdate_def default_client_config_def

lemma sample_sel [simp]:
  "umap_find (cl_registrations sample_client) 7 = Some \<lparr>reg_location = ''/rd/1'',
     reg_short_server_id = 7, reg_registered_at = 0, reg_expires_at = 0\<rparr>"
  "umap_find (cl_connections sample_client) 7 = Some \<lparr>con_config = default_connection_config,
     con_connected = True\<rparr>"
  "cl_reconnect_config sample_client = default_reconnection_config"
  "ccf_update_trigger_threshold (cl_config sample_client) = 0x3FE999999999999A"
  "cl_callbacks sample_client = no_callbacks" "cl_event_thread sample_client = False"
  "get_object sample_client oid_Server = Some Ref_Server"
  "cl_server sample_client = \<lparr>srv_instances = [(0, default_server_instance\<lparr>srv_short_server_id := 7\<rparr>)],
     srv_next_instance_id = 1, srv_update_callback_set = True\<rparr>"
  "cl_log sample_client = []"
  by (simp_all add: sample_defs get_object_def)

lemma sample_ok: "client_ok sample_client"
  by (simp add: client_ok_def tables_wf_def sample_defs)

section \<open>Requests\<close>

text \<open>C4: every request gets a response code, except a Read or Write that names a resource instance
  of an existing object (a Write only once its payload decodes): there the code is never set.\<close>

theorem request_response_code:
  "resp_code (fst (handle_incoming_request update env request c)) = None \<longleftrightarrow>
    (\<exists>p. parse (req_uri_path request) = Some p \<and> is_resource_instance p \<and>
       get_object c (object_id p) \<noteq> None \<and>
       (req_method request = Get \<or>
        req_method request \<in> {Put, Post} \<and> is_ok (decode (req_payload request))))"
  by (rule handle_code [of update env request c _ "snd (handle_incoming_request update env request c)"])
    simp

text \<open>C3: a request changes the objects and at most appends to the log: state, registrations,
  connections and reconnection are as before and the instance tables stay well-formed, unless it
  executed the registration update trigger, and then the rest is the update's effect.\<close>

theorem request_effect_bounded:
  "(same_session c (snd (handle_incoming_request update env request c)) \<and>
     (tables_wf c \<longrightarrow> tables_wf (snd (handle_incoming_request update env request c)))) \<or>
   (\<exists>ssid. snd (handle_incoming_request update env request c) = update ssid c \<and>
     fst (handle_incoming_request update env request c) = respond C_Changed)"
  using handle_cases [of update env request c, OF prod.collapse [symmetric]]
  by (auto simp: kept_def)

theorem request_effect_bounded_witness:
  "tables_wf (snd (handle_incoming_request (\<lambda>_ c. c) \<lparr>env_now = 0, env_gps = \<lambda>_. None\<rparr>
     (session_request Delete (to_string (path_instance oid_Server (Strong 0)))) sample_client))"
proof -
  have "tables_wf sample_client" using sample_ok by (simp add: client_ok_def)
  then show ?thesis
    using request_effect_bounded [of sample_client "\<lambda>_ c. c" "\<lparr>env_now = 0, env_gps = \<lambda>_. None\<rparr>"
        "session_request Delete (to_string (path_instance oid_Server (Strong 0)))"] by auto
qed

text \<open>C5: a Read of an object or of one of its instances answers Content, and its payload decodes
  to one record per instance holding exactly the resources that could be read, with their
  serialised values.\<close>

theorem read_answers_decodable_instances:
  assumes "get_object c oid = Some obj"
    "path = path_object oid \<and> iids = obj_list_instances obj c \<or>
     path = path_instance oid iid \<and> iids = [iid] \<and> obj_has_instance obj c iid"
    "read_instances env obj iids c = (insts, c')" "instances_fit insts"
    "req_method request = Get" "req_uri_path request = to_string path"
  shows "\<exists>resp. handle_incoming_request update env request c = (resp, c') \<and>
    resp_code resp = Some C_Content \<and> decode (resp_payload resp) = ok (map instance_record insts)"
proof -
  have "prefix_closed path"
    using assms(2) by (auto simp: prefix_closed_def path_object_def path_instance_def)
  then have h: "handle_incoming_request update env request c = process_read env path c"
    using assms(5,6) by (simp add: handle_incoming_request_def parse_to_string)
  have "process_read env path c =
      (default_response\<lparr>resp_payload := instance_bytes insts, resp_code := Some C_Content\<rparr>, c')"
    using assms(1-3)
    by (auto simp: process_read_def path_object_def path_instance_def path_depth_defs
        encode_instances_read encode_instance_read simp del: read_instances.simps)
  with h decode_instance_bytes [OF assms(4)] show ?thesis by simp
qed

theorem read_answers_decodable_instances_witness:
  "\<exists>resp insts. handle_incoming_request (\<lambda>_ c. c) \<lparr>env_now = 0, env_gps = \<lambda>_. None\<rparr>
      (session_request Get (to_string (path_object oid_Security))) sample_client = (resp, sample_client) \<and>
    resp_code resp = Some C_Content \<and> decode (resp_payload resp) = ok (map instance_record insts)"
proof -
  have "get_object sample_client oid_Security = Some Ref_Security"
    by (simp add: sample_defs get_object_def)
  moreover obtain insts where r: "read_instances \<lparr>env_now = 0, env_gps = \<lambda>_. None\<rparr> Ref_Security
      (obj_list_instances Ref_Security sample_client) sample_client = (insts, sample_client)"
    "instances_fit insts"
    by (auto simp: sample_defs security_list_instances_def security_list_resources_def
        security_read_resource_def security_load_def default_security_instance_def SM_NoSec_def
        instances_fit_def resource_records_def encode_records_def length_encode_record
        serialize_string_def bytes_of_string_def serialize_bool_def serialize_int_def)
  ultimately show ?thesis
    using read_answers_decodable_instances [OF _ _ r, of oid_Security "path_object oid_Security"
        "Strong 0" "session_request Get (to_string (path_object oid_Security))" "\<lambda>_ c. c"]
    by (auto simp: session_request_def)
qed

text \<open>The value a typed Server resource holds after an accepted write.\<close>

definition stored_server_value :: "resource_id \<Rightarrow> resource_value \<Rightarrow> resource_value" where
  "stored_server_value rid v =
     (case v of V_Int x \<Rightarrow> V_Int (take_bit (if strong_value rid = 0 then 16 else 32) x) | _ \<Rightarrow> v)"

lemma server_store_typed:
  assumes "server_resource_type rid = Some (get_resource_type v)"
  shows "\<exists>i'. server_store rid v i = ok i'" "value_on_wire v = v"
  using assms
  by (cases v; auto simp: server_resource_type_def server_store_def Let_def split: if_splits)+

lemma server_put:
  assumes "get_object c oid_Server = Some Ref_Server"
    "umap_find (srv_instances (cl_server c)) (strong_value iid) = Some i"
    "server_resource_type rid = Some (get_resource_type v)" "length (serialize_value v) < 2 ^ 24"
    "server_store rid v i = ok i'"
  shows "process_write (path_resource oid_Server iid rid)
      (encode_record TlvResource (strong_value rid) (serialize_value v)) c =
    (respond C_Changed, c\<lparr>cl_server := (cl_server c)
       \<lparr>srv_instances := umap_set (srv_instances (cl_server c)) (strong_value iid) i'\<rparr>\<rparr>)"
  using assms server_store_typed(2) [OF assms(3)]
  by (simp add: process_write_resource [OF assms(1,4)] expected_type_def server_write_resource_def)

text \<open>Over the wire, a Write of a well-typed value to a resource of a Server instance followed by
  a Read of it answers Changed and then Content with that value, integers cut to the width of the
  member.\<close>

theorem server_write_then_read:
  assumes "get_object c oid_Server = Some Ref_Server"
    "umap_find (srv_instances (cl_server c)) (strong_value iid) = Some i"
    "server_resource_type rid = Some (get_resource_type v)" "length (serialize_value v) < 2 ^ 24"
    "put = (session_request Put (to_string (path_resource oid_Server iid rid)))
       \<lparr>req_payload := encode_record TlvResource (strong_value rid) (serialize_value v)\<rparr>"
    "gets = session_request Get (to_string (path_resource oid_Server iid rid))"
  shows "\<exists>c1 resp. handle_incoming_request update env put c = (respond C_Changed, c1) \<and>
    handle_incoming_request update env gets c1 = (resp, c1) \<and> resp_code resp = Some C_Content \<and>
    resp_payload resp = encode_record TlvResource (strong_value rid)
      (serialize_value (stored_server_value rid v))"
proof -
  obtain i' where i': "server_store rid v i = ok i'" using server_store_typed(1) [OF assms(3)] by blast
  define c1 where "c1 = c\<lparr>cl_server := (cl_server c)
    \<lparr>srv_instances := umap_set (srv_instances (cl_server c)) (strong_value iid) i'\<rparr>\<rparr>"
  have closed: "prefix_closed (path_resource oid_Server iid rid)"
    by (simp add: prefix_closed_def path_resource_def)
  have "handle_incoming_request update env put c = (respond C_Changed, c1)"
    using server_put [OF assms(1-4) i']
    by (simp add: assms(5) handle_incoming_request_def session_request_def
        parse_to_string [OF closed] c1_def)
  moreover have "server_load rid i' = ok (stored_server_value rid v)"
    using server_load_store [OF i'] by (simp add: stored_server_value_def)
  then have "process_read env (path_resource oid_Server iid rid) c1 =
      (default_response\<lparr>resp_payload := encode_record TlvResource (strong_value rid)
        (serialize_value (stored_server_value rid v)), resp_code := Some C_Content\<rparr>, c1)"
    using assms(1)
    by (simp add: process_read_def c1_def get_object_def path_resource_def path_depth_defs
        server_read_resource_def encode_resource_def)
  ultimately show ?thesis
    by (auto simp: assms(6) handle_incoming_request_def session_request_def parse_to_string [OF closed])
qed

theorem server_write_then_read_witness:
  "\<exists>c1 resp. handle_incoming_request (\<lambda>_ c. c) \<lparr>env_now = 0, env_gps = \<lambda>_. None\<rparr>
      ((session_request Put (to_string (path_resource oid_Server (Strong 0) (Strong 1))))
        \<lparr>req_payload := encode_record TlvResource 1 (serialize_value (V_Int 60))\<rparr>) sample_client =
      (respond C_Changed, c1) \<and>
    handle_incoming_request (\<lambda>_ c. c) \<lparr>env_now = 0, env_gps = \<lambda>_. None\<rparr>
      (session_request Get (to_string (path_resource oid_Server (Strong 0) (Strong 1)))) c1 = (resp, c1) \<and>
    resp_code resp = Some C_Content \<and>
    resp_payload resp = encode_record TlvResource 1 (serialize_value (V_Int (take_bit 32 60)))"
  using server_write_then_read [of sample_client "Strong 0" _ "Strong 1" "V_Int 60" _ _
      "\<lambda>_ c. c" "\<lparr>env_now = 0, env_gps = \<lambda>_. None\<rparr>"]
  by (simp add: server_resource_type_def serialize_int_def stored_server_value_def)

text \<open>A Write on an instance that does not exist answers Changed although nothing is written.\<close>

theorem write_absent_instance_answers_changed:
  assumes "get_object c oid = Some obj" "\<not> obj_has_instance obj c iid"
    "decode (req_payload request) = ok records" "req_method request = Put"
    "req_uri_path request = to_string (path_instance oid iid)"
  shows "handle_incoming_request update env request c = (respond C_Changed, c)"
proof -
  have "prefix_closed (path_instance oid iid)"
    by (simp add: prefix_closed_def path_instance_def)
  with assms show ?thesis
    by (simp add: handle_incoming_request_def parse_to_string process_write_def path_instance_def
        path_depth_defs write_records_absent)
qed

theorem write_absent_instance_answers_changed_witness:
  "handle_incoming_request (\<lambda>_ c. c) \<lparr>env_now = 0, env_gps = \<lambda>_. None\<rparr>
     (session_request Put (to_string (path_instance oid_Server (Strong 9)))) sample_client =
   (respond C_Changed, sample_client)"
  by (rule write_absent_instance_answers_changed [of _ oid_Server Ref_Server "Strong 9" _ "[]"])
    (simp_all add: server_has_instance_def session_request_def decode_def decode_impl.simps [of "[]" 0]
      decode_loop_eq [of "[]"] kMaxTlvDepth_def)

section \<open>Session\<close>

text \<open>C2: in every reachable client the state is Idle, Registered or Error between operations,
  Registered only with at least one registration, and the tables of registrations, connections and
  instances have distinct keys, whatever the network did meanwhile.\<close>

theorem reachable_client_invariant:
  "client_reachable c \<Longrightarrow> client_ok c"
  by (rule client_reachable_ok)

theorem reachable_client_invariant_witness:
  "client_ok (snd (start (client_init (default_client_config ''ep'') 0)))"
  by (rule reachable_client_invariant, rule reachable_step [OF reachable_init], rule step_start,
    rule prod.collapse [symmetric])

text \<open>C9: a successful registration leaves the client Registered, over a connection, with the
  location the server returned and an expiry one lifetime after the reply.\<close>

theorem register_success:
  assumes "register_with_server script ssid c = (ok (), c')"
  shows "\<exists>response srv. ex_reply (rs_exchange script) = ok response \<and> is_success response \<and>
    server_find_by_short_server_id (cl_server c) ssid = Some srv \<and> cl_state c' = CS_Registered \<and>
    umap_find (cl_connections c') ssid \<noteq> None \<and>
    umap_find (cl_registrations c') ssid = Some
      \<lparr>reg_location = get_location_path response, reg_short_server_id = ssid,
       reg_registered_at = rs_registered_at script,
       reg_expires_at = ex_now (rs_exchange script) + seconds (srv_lifetime srv)\<rparr> \<and>
    get_location_path response \<noteq> []"
  using assms by (rule register_registered)

lemma sample_registers:
  "register_with_server script 7 sample_client = (r, c') \<Longrightarrow> rs_connect script = ok () \<Longrightarrow>
   rs_exchange script = Exchange [] reply now \<Longrightarrow>
   is_ok r \<longleftrightarrow> (\<exists>resp. reply = ok resp \<and> is_success resp \<and> get_location_path resp \<noteq> [])"
proof -
  assume r: "register_with_server script 7 sample_client = (r, c')" "rs_connect script = ok ()"
    "rs_exchange script = Exchange [] reply now"
  have "security_find_by_short_server_id (cl_security sample_client) 7 \<noteq> None"
    by (simp add: security_find_by_short_server_id_def) (simp add: sample_defs)
  moreover have "server_find_by_short_server_id (cl_server sample_client) 7 =
      Some (default_server_instance\<lparr>srv_short_server_id := 7\<rparr>)"
    by (simp add: server_find_by_short_server_id_def)
  ultimately show ?thesis using r(1)
    by (auto simp: register_with_server_def open_connection_def send_request_def send_on_def Let_def
        r(2,3) split: sum.splits if_splits)
qed

theorem register_success_witness:
  "\<exists>c'. register_with_server \<lparr>rs_connect = ok (), rs_exchange = Exchange []
       (ok ((respond C_Created)\<lparr>resp_options := [(8, bytes_of_string ''rd'')]\<rparr>)) 5,
       rs_registered_at = 4\<rparr> 7 sample_client = (ok (), c') \<and> cl_state c' = CS_Registered"
proof -
  define script where "script = \<lparr>rs_connect = ok (), rs_exchange = Exchange []
    (ok ((respond C_Created)\<lparr>resp_options := [(8, bytes_of_string ''rd'')]\<rparr>)) 5, rs_registered_at = 4\<rparr>"
  obtain r c' where r: "register_with_server script 7 sample_client = (r, c')" by fastforce
  from sample_registers [OF r] have "is_ok r"
    by (simp add: script_def is_success_def respond_def default_response_def C_Created_def
        code_is_success_def get_location_path_def bytes_of_string_def string_of_bytes_def)
  with r have r: "register_with_server script 7 sample_client = (ok (), c')" by (cases r) auto
  from register_success [OF r] r show ?thesis by (auto simp: script_def)
qed

text \<open>A failed registration adds and removes no registration; the state is as before, or Error
  once the registration had been started.\<close>

theorem register_failure:
  assumes "register_with_server script ssid c = (Inl e, c')"
  shows "locations c' = locations c \<and> cl_state c' \<in> {cl_state c, CS_Error}"
  using assms by (rule register_failed)

theorem register_failure_witness:
  "locations (snd (register_with_server \<lparr>rs_connect = ok (), rs_exchange = Exchange []
     (err E_Timeout ''Request timeout'') 5, rs_registered_at = 4\<rparr> 7 sample_client)) = locations sample_client"
proof -
  define script where "script = \<lparr>rs_connect = ok (),
    rs_exchange = Exchange [] (err E_Timeout ''Request timeout'') 5, rs_registered_at = 4\<rparr>"
  obtain r c' where r: "register_with_server script 7 sample_client = (r, c')" by fastforce
  from sample_registers [OF r] have "\<not> is_ok r" by (simp add: script_def err_def)
  with r obtain e where "register_with_server script 7 sample_client = (Inl e, c')" by (cases r) auto
  from register_failure [OF this] r show ?thesis by (simp add: script_def)
qed

text \<open>C11: a deregistration of a registered server over a live connection sends a Delete to the
  location the server gave, always succeeds whatever the answer, and removes that registration and
  no other; the state becomes Idle exactly when no registration is left.\<close>

theorem deregister_sends_delete:
  assumes "umap_find (cl_registrations c) ssid = Some reg"
    "umap_find (cl_connections c) ssid = Some conn" "con_connected conn"
  shows "\<exists>c'. deregister ex ssid c = (ok (), c') \<and>
    Ev_Sent ssid (session_request Delete (reg_location reg)) \<in> set (cl_log c') \<and>
    map_of (locations c') = (map_of (locations c))(ssid := None) \<and>
    cl_state c' = (if cl_registrations c' = [] then CS_Idle else CS_Registered)"
proof -
  define request where "request = session_request Delete (reg_location reg)"
  obtain response c1 where s: "send_request ex ssid request (set_state CS_Deregistering c) = (response, c1)"
    by fastforce
  define c' where "c' = set_state (if cl_registrations (drop_registration ssid c1) = [] then CS_Idle
    else CS_Registered) (drop_registration ssid c1)"
  have "deregister ex ssid c = (ok (), c')"
    using assms s by (simp add: deregister_def c'_def drop_registration_def Let_def request_def)
  moreover have "Ev_Sent ssid request \<in> set (cl_log c')"
    using send_request_logs(1) [OF _ assms(3) s] assms(2)
    by (simp add: c'_def set_state_log_mem drop_registration_log_mem)
  moreover have "map_of (locations c') = (map_of (locations c))(ssid := None)"
    using waited_locations [OF send_request_waited [OF s]] by (simp add: c'_def locations_drop)
  ultimately show ?thesis by (auto simp: c'_def request_def)
qed

theorem deregister_sends_delete_witness:
  "\<exists>c'. deregister (Exchange [] (err E_Timeout ''Request timeout'') 5) 7 sample_client = (ok (), c') \<and>
    Ev_Sent 7 (session_request Delete ''/rd/1'') \<in> set (cl_log c')"
  using deregister_sends_delete [OF sample_sel(1,2), of "Exchange [] (err E_Timeout ''Request timeout'') 5"]
  by auto

text \<open>C12: a registration update over a live connection sends a Post to the location and keeps every
  location; when it is accepted the registration expires one lifetime after the reply. The state is
  Registered afterwards whether the update was accepted or not, and whatever arrived meanwhile.\<close>

theorem update_extends_registration:
  assumes "umap_find (cl_registrations c) ssid = Some reg"
    "umap_find (cl_connections c) ssid = Some conn" "con_connected conn"
    "update_registration ex ssid c = (r, c')"
  shows "is_ok r = response_accepted (ex_reply ex) \<and> cl_state c' = CS_Registered \<and>
    Ev_Sent ssid (session_request Post (reg_location reg)) \<in> set (cl_log c') \<and>
    locations c' = locations c \<and>
    (\<forall>srv. is_ok r \<and> server_find_by_short_server_id (cl_server c') ssid = Some srv \<longrightarrow>
       (\<exists>reg'. umap_find (cl_registrations c') ssid = Some reg' \<and>
          reg_expires_at reg' = ex_now ex + seconds (srv_lifetime srv)))"
proof -
  obtain ios reply now where ex: "ex = Exchange ios reply now" by (cases ex)
  define request where "request = session_request Post (reg_location reg)"
  define c1 where "c1 = emit (Ev_Sent ssid request) (set_state CS_Updating c)"
  define c2 where "c2 = run_ios ssid ios c1"
  have c': "c' = set_state CS_Registered (if is_ok r then refresh_expiry now ssid c2 else c2)"
    and r: "is_ok r = response_accepted reply"
    using assms by (auto simp: ex send_on_def c1_def c2_def request_def Let_def split: if_splits)
  have w: "waited c1 c2" unfolding c2_def by (rule update_run_waited)
  have "Ev_Sent ssid request \<in> set (cl_log c2)"
    using w by (auto simp: waited_def c1_def)
  then have "Ev_Sent ssid request \<in> set (cl_log c')"
    by (auto simp: c' refresh_expiry_def intro: set_state_log_mem split: option.split)
  moreover have "locations c2 = locations c"
    using waited_locations [OF w] waited_locations [OF waited_emit] by (simp add: c1_def)
  then have "locations c' = locations c"
    using waited_locations [OF waited_refresh] by (simp add: c')
  moreover obtain reg2 where "umap_find (cl_registrations c2) ssid = Some reg2"
    using waited_location [OF w, of ssid] assms(1) by (auto simp: c1_def)
  ultimately show ?thesis
    using r by (auto simp: c' ex request_def refresh_expiry_def split: option.splits)
qed

theorem update_extends_registration_witness:
  "\<exists>r c'. update_registration (Exchange [Session_Event False] (ok (respond C_Changed)) 9) 7 sample_client = (r, c') \<and>
    is_ok r = response_accepted (ok (respond C_Changed)) \<and> locations c' = locations sample_client"
proof -
  obtain r c' where r: "update_registration (Exchange [Session_Event False] (ok (respond C_Changed)) 9) 7
      sample_client = (r, c')" by fastforce
  from update_extends_registration [OF sample_sel(1,2) _ r] r show ?thesis by simp
qed

text \<open>C13: stop on the event thread only clears the running flag. Anywhere else it leaves the client
  idle and stopped, without connections or registrations, reports every registration as ended, does
  not touch a reconnection in progress, and calls send with a Delete to its location for every
  registration whose connection is up, when no connection goes down during these calls.\<close>

theorem stop_deregisters:
  assumes "client_ok c"
  shows "let c' = stop on_event_thread exs c in
    if cl_event_thread c \<and> on_event_thread then c' = c\<lparr>cl_running := False\<rparr>
    else cl_state c' = CS_Idle \<and> \<not> cl_running c' \<and> cl_connections c' = [] \<and>
      cl_registrations c' = [] \<and> cl_reconnecting c' = cl_reconnecting c \<and>
      (on_deregistered (cl_callbacks c) \<longrightarrow>
         Ev_Deregistered ` set (umap_keys (cl_registrations c)) \<subseteq> set (cl_log c')) \<and>
      (\<forall>ssid reg. umap_find (cl_registrations c) ssid = Some reg \<and> link_up c ssid \<and>
         (\<forall>s \<in> set (umap_keys (cl_registrations c)). keeps_links (ex_ios (exs s))) \<longrightarrow>
         Ev_Sent ssid (session_request Delete (reg_location reg)) \<in> set (cl_log c'))"
proof (cases "cl_event_thread c \<and> on_event_thread")
  case True
  then show ?thesis by (simp add: stop_def Let_def)
next
  case False
  with stop_effect [OF False, of exs] stop_log [OF assms False, of exs] show ?thesis
    by (simp only: Let_def if_False simp_thms) (elim conjE; intro conjI; assumption)
qed

theorem stop_deregisters_witness:
  "\<exists>c'. c' = stop False (\<lambda>_. Exchange [] (ok (respond C_Deleted)) 3) sample_client \<and>
    cl_state c' = CS_Idle \<and> Ev_Sent 7 (session_request Delete ''/rd/1'') \<in> set (cl_log c')"
proof -
  have "umap_keys (cl_registrations sample_client) = [7]" by (simp add: sample_defs)
  moreover have "link_up sample_client 7" by (simp add: link_up_def)
  ultimately show ?thesis
    using stop_deregisters [OF sample_ok, of False "\<lambda>_. Exchange [] (ok (respond C_Deleted)) 3"]
      sample_sel(1) by (fastforce simp: Let_def simp del: set_map)
qed

section \<open>Timers and reconnection\<close>

text \<open>C19: with the default configuration the wait before reconnection attempt n + 1 is 2^n seconds up
  to 256 and 300 from then on, through the floating-point arithmetic of the code.\<close>

theorem backoff_doubles:
  assumes "cl_reconnect_config c = default_reconnection_config" "0 < cl_reconnect_attempts c"
  shows "sint (calculate_backoff c) = min (2 ^ unat (cl_reconnect_attempts c)) 300"
proof -
  define n where "n = unat (cl_reconnect_attempts c)"
  have n: "0 < n" using assms(2) by (simp add: n_def unat_gt_0)
  show ?thesis
  proof (cases "n \<le> 8")
    case True
    then have le: "(2 :: nat) ^ n \<le> 2 ^ 8" by (intro power_increasing) auto
    then have "sint (word_of_nat (2 ^ n) :: i64) = int (2 ^ n)" by (intro sint_word_of_nat_small) simp
    moreover have "(2 :: int) ^ n \<le> 2 ^ 8" using True by (intro power_increasing) auto
    ultimately show ?thesis
      using n True by (simp add: calculate_backoff_default [OF assms(1)] max_def flip: n_def)
  next
    case False
    then have "(2 :: int) ^ 9 \<le> 2 ^ n" by (intro power_increasing) auto
    then show ?thesis
      using False by (simp add: calculate_backoff_default [OF assms(1)] flip: n_def)
  qed
qed

theorem backoff_doubles_witness:
  "sint (calculate_backoff (sample_client\<lparr>cl_reconnect_attempts := 5\<rparr>)) = 32"
  using backoff_doubles [of "sample_client\<lparr>cl_reconnect_attempts := 5\<rparr>"] by simp

text \<open>With the default threshold an update is due exactly when at most a fifth of the lifetime,
  rounded up to a second, is left.\<close>

theorem update_due_last_fifth:
  assumes "ccf_update_trigger_threshold config = 0x3FE999999999999A"
  shows "update_due config now lifetime reg \<longleftrightarrow>
    sint (reg_expires_at reg - now) \<le> (int (unat lifetime) + 4) div 5 * 1000000000"
proof -
  have "int n - 4 * int n div 5 = (int n + 4) div 5" for n by presburger
  then show ?thesis by (simp only: update_due_default [OF assms])
qed

theorem update_due_last_fifth_witness:
  "\<not> update_due (default_client_config ''ep'') 0 300
     \<lparr>reg_location = ''/rd/1'', reg_short_server_id = 7, reg_registered_at = 0, reg_expires_at = 60000000001\<rparr>"
  using update_due_last_fifth [of "default_client_config ''ep''" 0 300]
  by (simp add: default_client_config_def)

end
