(* ===== verification/Client_Recovery.thy ===== *)
theory Client_Recovery
  imports Client_Properties
begin

text \<open>
  Loss of a connection and the way back: what \<open>check_connection_health\<close> detects, what one
  attempt of \<open>try_reconnect\<close> leaves behind, and that a due poll with a responding server ends
  in a registered client.
\<close>

section \<open>Detection\<close>

lemma first_expired_None:
  "first_expired now m = None \<longleftrightarrow> (\<forall>(ssid, reg) \<in> set m. \<not> sint now > sint (reg_expires_at reg))"
  by (induction now m rule: first_expired.induct) auto

lemma first_disconnected_None:
  "first_disconnected m = None \<longleftrightarrow> (\<forall>(ssid, conn) \<in> set m. con_connected conn)"
  by (induction m rule: first_disconnected.induct) auto

lemma connection_lost_sel:
  assumes "\<not> cl_reconnecting c" "c' = handle_connection_lost steady ssid c"
  shows "cl_reconnecting c'" "cl_state c' = CS_Error" "cl_reconnect_attempts c' = 0"
    "cl_reconnect_ssid c' = ssid" "cl_next_reconnect_time c' = steady"
    "cl_registrations c' = umap_erase (cl_registrations c) ssid"
    "cl_connections c' = cl_connections c"
    "on_connection_lost (cl_callbacks c) \<Longrightarrow> Ev_Connection_Lost ssid \<in> set (cl_log c')"
  using assms by (simp_all add: handle_connection_lost_def Let_def emit_def)

lemma first_expired_find:
  "first_expired now m = map_option fst (find (\<lambda>(_, reg). sint now > sint (reg_expires_at reg)) m)"
  by (induction now m rule: first_expired.induct) auto

lemma first_disconnected_find:
  "first_disconnected m = map_option fst (find (\<lambda>(_, conn). \<not> con_connected conn) m)"
  by (induction m rule: first_disconnected.induct) auto

text \<open>The client \<open>c'\<close> has noticed that server \<open>ssid\<close> is lost, and starts to reconnect to it.\<close>

definition lost_server :: "i64 \<Rightarrow> u16 \<Rightarrow> client \<Rightarrow> client \<Rightarrow> bool" where
  "lost_server steady ssid c c' \<longleftrightarrow>
     cl_reconnecting c' \<and> cl_reconnect_ssid c' = ssid \<and> cl_state c' = CS_Error \<and>
     cl_reconnect_attempts c' = 0 \<and> cl_next_reconnect_time c' = steady \<and>
     cl_registrations c' = umap_erase (cl_registrations c) ssid \<and>
     cl_connections c' = cl_connections c \<and>
     (on_connection_lost (cl_callbacks c) \<longrightarrow> Ev_Connection_Lost ssid \<in> set (cl_log c'))"

text \<open>C17: a registered client that is not reconnecting starts to reconnect to the first server whose
  registration has expired; when none has, to the first one whose connection is down; when there is
  none either, and in every other state, nothing changes. A client that starts to reconnect is in
  Error, has dropped the registration of that server and no other, keeps all connections, reports
  that server as lost and tries again at once.\<close>

theorem connection_loss_detected:
  "if cl_state c = CS_Registered \<and> \<not> cl_reconnecting c
   then case find (\<lambda>(_, reg). sint now > sint (reg_expires_at reg)) (cl_registrations c) of
       Some (ssid, _) \<Rightarrow> lost_server steady ssid c (check_connection_health now steady c)
     | None \<Rightarrow>
         (case find (\<lambda>(_, conn). \<not> con_connected conn) (cl_connections c) of
            Some (ssid, _) \<Rightarrow> lost_server steady ssid c (check_connection_health now steady c)
          | None \<Rightarrow> check_connection_health now steady c = c)
   else check_connection_health now steady c = c"
  using connection_lost_sel [OF _ refl, of c]
  by (auto simp: check_connection_health_def first_expired_find first_disconnected_find lost_server_def
      split: option.split)

theorem connection_loss_detected_witness:
  "lost_server 5 7 sample_client (check_connection_health 1 5 sample_client) \<and>
   cl_registrations (check_connection_health 1 5 sample_client) = []"
proof -
  have s: "cl_state sample_client = CS_Registered \<and> \<not> cl_reconnecting sample_client"
    "find (\<lambda>(_, reg). sint (1 :: time_point) > sint (reg_expires_at reg)) (cl_registrations sample_client) =
       Some (hd (cl_registrations sample_client))" "fst (hd (cl_registrations sample_client)) = 7"
    "umap_erase (cl_registrations sample_client) 7 = []"
    by (simp_all add: sample_defs)
  from connection_loss_detected [of sample_client 1 5] s
  have "lost_server 5 7 sample_client (check_connection_health 1 5 sample_client)"
    by (auto split: prod.splits)
  with s(4) show ?thesis by (simp add: lost_server_def)
qed

section \<open>One attempt\<close>

lemma reconnect_start_sel [simp]:
  "cl_reconnect_attempts (reconnect_start ssid c) = cl_reconnect_attempts c + 1"
  "cl_reconnect_config (reconnect_start ssid c) = cl_reconnect_config c"
  "cl_reconnecting (reconnect_start ssid c) = cl_reconnecting c"
  "cl_state (reconnect_start ssid c) = cl_state c"
  "cl_registrations (reconnect_start ssid c) = cl_registrations c"
  "locations (reconnect_start ssid c) = locations c"
  "cl_security (reconnect_start ssid c) = cl_security c"
  "cl_server (reconnect_start ssid c) = cl_server c"
  "umap_find (cl_connections (reconnect_start ssid c)) ssid = None"
  by (simp_all add: reconnect_start_def Let_def emit_def locations_def)

lemma waited_reconnection:
  assumes "waited c c'"
  shows "cl_reconnect_attempts c' = cl_reconnect_attempts c"
    "cl_reconnect_config c' = cl_reconnect_config c" "cl_reconnecting c' = cl_reconnecting c"
    "cl_reconnect_ssid c' = cl_reconnect_ssid c"
    "cl_next_reconnect_time c' = cl_next_reconnect_time c" "cl_callbacks c' = cl_callbacks c"
  using assms by (simp_all add: waited_def frame_def)

lemma open_connection_frame:
  assumes "open_connection connect ssid c = (r, c')"
  shows "cl_reconnecting c' = cl_reconnecting c" "locations c' = locations c"
    "cl_callbacks c' = cl_callbacks c" "cl_log c' = cl_log c"
  using assms
  by (auto simp: open_connection_def Let_def locations_def split: if_splits sum.splits)

lemma complete_registration_frame:
  "cl_reconnect_attempts (complete_registration script ssid srv l c) = cl_reconnect_attempts c"
  "cl_reconnect_config (complete_registration script ssid srv l c) = cl_reconnect_config c"
  "cl_reconnecting (complete_registration script ssid srv l c) = cl_reconnecting c"
  by (simp_all add: complete_registration_def Let_def)

lemma register_reconnection:
  assumes "register_with_server script ssid c = (r, c')"
  shows "cl_reconnect_attempts c' = cl_reconnect_attempts c \<and>
    cl_reconnect_config c' = cl_reconnect_config c \<and> cl_reconnecting c' = cl_reconnecting c"
  using assms
proof (cases rule: register_cases)
  case (failed c1 c3)
  then show ?thesis
    using open_connection_ok(7,8) [OF failed(2)] open_connection_frame [OF failed(2)]
      waited_reconnection [OF failed(3)] by simp
next
  case (registered srv c1 c3 response)
  then show ?thesis
    using open_connection_ok(7,8) [OF registered(3)] open_connection_frame [OF registered(3)]
      waited_reconnection [OF registered(4)] by (simp add: complete_registration_frame)
qed simp

lemma reconnect_attempt_effect:
  assumes "rcf_enabled (cl_reconnect_config c)" "c' = try_reconnect script steady ssid c"
  shows "if 0 < rcf_max_retries (cl_reconnect_config c) \<and>
      rcf_max_retries (cl_reconnect_config c) \<le> cl_reconnect_attempts c
    then \<not> cl_reconnecting c' \<and> cl_registrations c' = cl_registrations c \<and>
      cl_connections c' = cl_connections c \<and> cl_state c' = cl_state c \<and>
      cl_log c' = cl_log c @ (if on_error (cl_callbacks c)
        then [Ev_Error E_ConnectionFailed ''Max reconnection attempts reached''] else [])
    else if is_ok (fst (register_with_server script ssid (reconnect_start ssid c)))
    then \<not> cl_reconnecting c' \<and> cl_reconnect_attempts c' = 0 \<and> cl_state c' = CS_Registered \<and>
      umap_find (cl_registrations c') ssid \<noteq> None
    else cl_reconnecting c' = cl_reconnecting c \<and>
      cl_reconnect_attempts c' = cl_reconnect_attempts c + 1 \<and>
      locations c' = locations c \<and> cl_state c' \<in> {cl_state c, CS_Error} \<and>
      cl_next_reconnect_time c' = steady + calculate_backoff c' * 1000000000"
proof (cases rule: try_reconnect_cases [where c = c and script = script and steady = steady and ssid = ssid])
  case (attempt r c4)
  note rr = register_reconnection [OF attempt(3)]
  show ?thesis
  proof (cases r)
    case (Inl e)
    then have c': "c' = c4\<lparr>cl_next_reconnect_time := steady + calculate_backoff c4 * 1000000000\<rparr>"
      using attempt(4) assms(2) by simp
    have "locations c4 = locations c \<and> cl_state c4 \<in> {cl_state c, CS_Error}"
      using register_failed [OF attempt(3) [unfolded Inl]] by simp
    then show ?thesis
      using rr attempt(2,3) Inl by (auto simp: c' locations_def calculate_backoff_def)
  next
    case (Inr u)
    then have c': "c' = (let c5 = c4\<lparr>cl_reconnecting := False, cl_reconnect_attempts := 0\<rparr>
        in if on_reconnected (cl_callbacks c5) then emit (Ev_Reconnected ssid) c5 else c5)"
      using attempt(4) assms(2) by simp
    have "cl_state c4 = CS_Registered \<and> umap_find (cl_registrations c4) ssid \<noteq> None"
      using register_registered [of script ssid _ c4] attempt(3) Inr by fastforce
    then show ?thesis using attempt(2,3) Inr by (auto simp: c' Let_def)
  qed
qed (use assms in \<open>auto simp: Let_def\<close>)

text \<open>An attempt to reconnect that is still allowed counts itself; when the registration
  succeeds the client is Registered, no longer reconnecting and the count is reset, otherwise no
  registration changes and the next attempt is scheduled one backoff of the new count later. With
  the retries used up the client only stops reconnecting and reports it.\<close>

theorem reconnect_attempt:
  assumes "rcf_enabled (cl_reconnect_config c)" "c' = try_reconnect script steady ssid c"
  shows "if 0 < rcf_max_retries (cl_reconnect_config c) \<and>
      rcf_max_retries (cl_reconnect_config c) \<le> cl_reconnect_attempts c
    then \<not> cl_reconnecting c' \<and> cl_registrations c' = cl_registrations c \<and>
      cl_connections c' = cl_connections c \<and> cl_state c' = cl_state c \<and>
      cl_log c' = cl_log c @ (if on_error (cl_callbacks c)
        then [Ev_Error E_ConnectionFailed ''Max reconnection attempts reached''] else [])
    else if is_ok (fst (register_with_server script ssid (reconnect_start ssid c)))
    then \<not> cl_reconnecting c' \<and> cl_reconnect_attempts c' = 0 \<and> cl_state c' = CS_Registered \<and>
      umap_find (cl_registrations c') ssid \<noteq> None
    else cl_reconnecting c' = cl_reconnecting c \<and>
      cl_reconnect_attempts c' = cl_reconnect_attempts c + 1 \<and>
      locations c' = locations c \<and> cl_state c' \<in> {cl_state c, CS_Error} \<and>
      cl_next_reconnect_time c' = steady + calculate_backoff c' * 1000000000"
  using assms by (rule reconnect_attempt_effect)

theorem reconnect_attempt_witness:
  "\<not> cl_reconnecting (try_reconnect
     \<lparr>rs_connect = ok (), rs_exchange = Exchange [] (err E_Timeout ''Request timeout'') 5,
      rs_registered_at = 4\<rparr> 9 7
     (sample_client\<lparr>cl_reconnecting := True, cl_reconnect_attempts := 3,
        cl_reconnect_config := default_reconnection_config\<lparr>rcf_max_retries := 3\<rparr>\<rparr>))"
proof -
  define c where "c = sample_client\<lparr>cl_reconnecting := True, cl_reconnect_attempts := 3,
    cl_reconnect_config := default_reconnection_config\<lparr>rcf_max_retries := 3\<rparr>\<rparr>"
  have e: "rcf_enabled (cl_reconnect_config c)"
    by (simp add: c_def default_reconnection_config_def)
  show ?thesis
    using reconnect_attempt [OF e refl, of _ 9 7] by (simp add: c_def)
qed

section \<open>Recovery\<close>

lemma register_forward:
  assumes "security_find_by_short_server_id (cl_security c) ssid \<noteq> None"
    "server_find_by_short_server_id (cl_server c) ssid = Some srv"
    "umap_find (cl_connections c) ssid = None" "rs_connect script = ok ()"
    "ex_reply (rs_exchange script) = ok response" "is_success response"
    "get_location_path response \<noteq> []"
  shows "is_ok (fst (register_with_server script ssid c))"
  using assms
  by (auto simp: register_with_server_def open_connection_def send_request_def send_on_def Let_def)

text \<open>While no server is registered, a poll whose reconnection is due, allowed and answered with
  a location ends registered with the lost server.\<close>

theorem poll_recovers:
  assumes "cl_reconnecting c" "cl_registrations c = []" "rcf_enabled (cl_reconnect_config c)"
    "rcf_max_retries (cl_reconnect_config c) = 0 \<or>
     cl_reconnect_attempts c < rcf_max_retries (cl_reconnect_config c)"
    "sint (cl_next_reconnect_time c) \<le> sint (ps_check_steady script)" "ps_ios script = (\<lambda>_. [])"
    "security_find_by_short_server_id (cl_security c) (cl_reconnect_ssid c) \<noteq> None"
    "server_find_by_short_server_id (cl_server c) (cl_reconnect_ssid c) = Some srv"
    "rs_connect (ps_register script) = ok ()"
    "ex_reply (rs_exchange (ps_register script)) = ok response" "is_success response"
    "get_location_path response \<noteq> []"
  shows "cl_state (poll script c) = CS_Registered \<and> \<not> cl_reconnecting (poll script c) \<and>
    umap_find (cl_registrations (poll script c)) (cl_reconnect_ssid c) \<noteq> None"
proof -
  have io: "poll_connections (\<lambda>_. []) ssids c = c" for ssids
    by (induction ssids) simp_all
  have "poll script c = try_reconnect (ps_register script) (ps_retry_steady script) (cl_reconnect_ssid c) c"
    using assms(1,2,5,6) by (simp add: poll_def Let_def io check_connection_health_def)
  moreover have "is_ok (fst (register_with_server (ps_register script) (cl_reconnect_ssid c)
      (reconnect_start (cl_reconnect_ssid c) c)))"
    using assms(7-12) by (intro register_forward) simp_all
  moreover have "\<not> (0 < rcf_max_retries (cl_reconnect_config c) \<and>
      rcf_max_retries (cl_reconnect_config c) \<le> cl_reconnect_attempts c)"
    using assms(4) by auto
  ultimately show ?thesis
    using reconnect_attempt_effect [OF assms(3) refl, where script = "ps_register script"
        and steady = "ps_retry_steady script" and ssid = "cl_reconnect_ssid c"] by simp
qed

theorem poll_recovers_witness:
  "\<exists>script c. cl_registrations c = [] \<and> cl_state (poll script c) = CS_Registered"
proof -
  define c where "c = sample_client\<lparr>cl_reconnecting := True, cl_reconnect_ssid := 7,
    cl_registrations := [], cl_state := CS_Error\<rparr>"
  define response where "response = (respond C_Created)\<lparr>resp_options := [(8, bytes_of_string ''rd'')]\<rparr>"
  define script where "script = \<lparr>ps_ios = (\<lambda>_. []), ps_now = 1,
    ps_updates = (\<lambda>_. Exchange [] (ok response) 1), ps_health_now = 1, ps_lost_steady = 1,
    ps_check_steady = 1, ps_register = \<lparr>rs_connect = ok (), rs_exchange = Exchange [] (ok response) 5,
    rs_registered_at = 4\<rparr>, ps_retry_steady = 1\<rparr>"
  have sec: "security_find_by_short_server_id (cl_security sample_client) 7 \<noteq> None"
    by (simp add: security_find_by_short_server_id_def) (simp add: sample_defs)
  have srv: "server_find_by_short_server_id (cl_server sample_client) 7 =
      Some (default_server_instance\<lparr>srv_short_server_id := 7\<rparr>)"
    by (simp add: server_find_by_short_server_id_def)
  have t: "cl_next_reconnect_time sample_client = 0" "rcf_max_retries default_reconnection_config = 0"
    "rcf_enabled default_reconnection_config"
    by (simp_all add: sample_defs default_reconnection_config_def)
  have response: "is_success response" "get_location_path response \<noteq> []"
    by (simp_all add: response_def is_success_def respond_def default_response_def C_Created_def
        code_is_success_def get_location_path_def bytes_of_string_def string_of_bytes_def)
  have "cl_state (poll script c) = CS_Registered"
    using poll_recovers [of c script "default_server_instance\<lparr>srv_short_server_id := 7\<rparr>" response]
      sec srv t response by (simp add: c_def script_def)
  moreover have "cl_registrations c = []" by (simp add: c_def)
  ultimately show ?thesis by blast
qed

end
