(* ===== verification/Client_Observer.thy ===== *)
theory Client_Observer
  imports Client_Recovery
begin

text \<open>
  What an application knows of the client from its callbacks. The abstract specification is the
  state and, per server, the location of the registration; the abstract steps are the callbacks.
  Every operation of the client refines it: replaying the callbacks it made on the view before
  gives the view after.
\<close>

section \<open>The abstract client\<close>

type_synonym client_view = "client_state \<times> (u16 \<Rightarrow> string option)"

definition view :: "client \<Rightarrow> client_view" where
  "view c = (cl_state c, map_of (locations c))"

fun observe :: "client_event \<Rightarrow> client_view \<Rightarrow> client_view" where
  "observe (Ev_State_Change old new) (st, m) = (new, m)"
| "observe (Ev_Registered ssid reg) (st, m) = (st, m(ssid \<mapsto> reg_location reg))"
| "observe (Ev_Deregistered ssid) (st, m) = (st, m(ssid := None))"
| "observe (Ev_Connection_Lost ssid) (st, m) = (st, m(ssid := None))"
| "observe _ v = v"

definition observed :: "client_callbacks \<Rightarrow> bool" where
  "observed cb \<longleftrightarrow> on_state_change cb \<and> on_registered cb \<and> on_deregistered cb \<and> on_connection_lost cb"

section \<open>Following\<close>

definition follows :: "client \<Rightarrow> client \<Rightarrow> bool" where
  "follows c c' \<longleftrightarrow> cl_callbacks c' = cl_callbacks c \<and>
     (observed (cl_callbacks c) \<longrightarrow>
        (\<exists>l. cl_log c' = cl_log c @ l \<and> view c' = fold observe l (view c)))"

lemma follows_refl [simp]: "follows c c"
  by (simp add: follows_def)

lemma follows_trans [trans]:
  assumes "follows a b" "follows b c"
  shows "follows a c"
  using assms by (auto simp: follows_def)

text \<open>An update that touches neither the view nor the log.\<close>

lemma follows_silent:
  assumes "cl_callbacks c' = cl_callbacks c" "cl_log c' = cl_log c" "view c' = view c"
  shows "follows c c'"
  using assms by (simp add: follows_def)

lemma follows_emit:
  assumes "observe e (view c) = view c"
  shows "follows c (emit e c)"
  using assms by (simp add: follows_def view_def emit_def locations_def)

lemma follows_set_state [simp]: "follows c (set_state st c)"
  by (auto simp: follows_def view_def set_state_def Let_def emit_def locations_def observed_def)

lemma fold_device_calls: "fold observe (map Ev_Device calls) v = v"
proof (induction calls)
  case (Cons call calls)
  then show ?case by (cases v) simp
qed simp

lemma follows_kept: "kept c c' \<Longrightarrow> follows c c'"
  by (auto simp: kept_def same_session_def follows_def view_def locations_def fold_device_calls)

lemma follows_session_event: "follows c (session_event ssid up c)"
  by (rule follows_silent) (auto simp: session_event_def view_def locations_def split: option.split)

lemma follows_refresh: "follows c (refresh_expiry now ssid c)"
proof (rule follows_silent)
  show "view (refresh_expiry now ssid c) = view c"
    using waited_locations [OF waited_refresh, of now ssid c]
    by (auto simp: view_def refresh_expiry_def split: option.splits)
qed (auto simp: refresh_expiry_def split: option.split)

lemma observe_request [simp]:
  "observe (Ev_Sent ssid request) v = v" "observe (Ev_Answered response) v = v"
  "observe (Ev_Disconnected ssid) v = v" "observe (Ev_Error code message) v = v"
  "observe (Ev_Reconnecting ssid n) v = v" "observe (Ev_Reconnected ssid) v = v"
  by (cases v; simp)+

lemma send_on_follows:
  assumes "\<And>c. follows c (events c)" "send_on events reply ssid request c = (response, c')"
  shows "follows c c'"
  using assms(2) follows_trans [OF follows_emit assms(1)]
  by (auto simp: send_on_def split: option.splits if_splits)

section \<open>The operations\<close>

lemma update_run_follows:
  shows "follows c (snd (update_registration ex ssid c))" and "follows c' (run_ios ssid' ios c')"
proof (induction ex ssid c and ssid' ios c' rule: update_registration_run_ios.induct)
  case (1 ios reply now ssid c)
  show ?case
  proof (cases "umap_find (cl_registrations c) ssid = None \<or> umap_find (cl_connections c) ssid = None")
    case True
    then show ?thesis by (auto split: option.split)
  next
    case False
    then obtain reg conn where found: "umap_find (cl_registrations c) ssid = Some reg"
      "umap_find (cl_connections c) ssid = Some conn" by auto
    define c1 where "c1 = set_state CS_Updating c"
    obtain response c2 where s: "send_on (\<lambda>c. run_ios ssid ios c) reply ssid
        (session_request Post (reg_location reg)) c1 = (response, c2)" by fastforce
    have "follows c1 c2"
      by (rule send_on_follows [OF _ s]) (use 1 found c1_def in auto)
    then have c2: "follows c c2"
      unfolding c1_def by (rule follows_trans [OF follows_set_state])
    note follows_trans [OF this follows_set_state]
      follows_trans [OF follows_trans [OF this follows_refresh] follows_set_state]
    with found s show ?thesis by (auto simp: c1_def Let_def)
  qed
next
  case (4 ssid env request ex ios c)
  obtain response c1 where h: "handle_incoming_request
      (\<lambda>s c. snd (update_registration ex s c)) env request c = (response, c1)" by fastforce
  have "follows c c1"
    using handle_cases [OF h] 4(1) follows_kept by (auto simp: h)
  moreover have "follows (emit (Ev_Answered response) c1) (run_ios ssid ios (emit (Ev_Answered response) c1))"
    using 4(2) h by auto
  moreover have "follows c1 (emit (Ev_Answered response) c1)" by (rule follows_emit) simp
  ultimately have "follows c (run_ios ssid ios (emit (Ev_Answered response) c1))"
    using follows_trans by blast
  then show ?case using h by simp
qed (auto intro: follows_trans [OF follows_session_event])

lemma send_request_follows:
  "send_request ex ssid request c = (response, c') \<Longrightarrow> follows c c'"
  unfolding send_request_def by (rule send_on_follows) (rule update_run_follows)

lemma open_connection_follows: "open_connection connect ssid c = (r, c') \<Longrightarrow> follows c c'"
  by (rule follows_silent)
    (auto simp: open_connection_def Let_def view_def locations_def split: if_splits sum.splits)

lemma locations_umap_set:
  "map_of (map (\<lambda>(ssid, reg). (ssid, reg_location reg)) (umap_set m ssid reg)) =
    (map_of (map (\<lambda>(ssid, reg). (ssid, reg_location reg)) m))(ssid \<mapsto> reg_location reg)"
  by (rule ext) (simp add: map_of_map update_conv)

lemma complete_registration_follows: "follows c (complete_registration script ssid srv location c)"
  by (auto simp: follows_def view_def complete_registration_def Let_def set_state_def emit_def
      observed_def locations_def locations_umap_set)

lemma register_follows:
  assumes "register_with_server script ssid c = (r, c')"
  shows "follows c c'"
proof (cases "security_find_by_short_server_id (cl_security c) ssid = None \<or>
    server_find_by_short_server_id (cl_server c) ssid = None")
  case True
  with assms show ?thesis by (auto simp: register_with_server_def split: option.splits)
next
  case False
  then obtain sec srv where found: "security_find_by_short_server_id (cl_security c) ssid = Some sec"
    "server_find_by_short_server_id (cl_server c) ssid = Some srv" by auto
  obtain q c1 where o: "open_connection (rs_connect script) ssid c = (q, c1)" by fastforce
  define request where "request = \<lparr>req_method = Post,
    req_uri_path = registration_uri (set_state CS_Registering c1) srv, req_options = [],
    req_payload = bytes_of_string (build_registration_payload (set_state CS_Registering c1)),
    req_content_format = F_LinkFormat\<rparr>"
  obtain response c3 where s: "send_request (rs_exchange script) ssid request
      (set_state CS_Registering c1) = (response, c3)" by fastforce
  note f1 = open_connection_follows [OF o]
  have f3: "follows c c3"
    using f1 send_request_follows [OF s] by (meson follows_trans follows_set_state)
  from assms found o s f1 follows_trans [OF f3 follows_set_state]
    follows_trans [OF f3 complete_registration_follows]
  show ?thesis
    by (auto simp: register_with_server_def Let_def request_def split: sum.splits if_splits)
qed

lemma drop_registration_follows: "follows c (drop_registration ssid c)"
  using locations_drop [of ssid c]
  by (auto simp: follows_def view_def drop_registration_def Let_def emit_def observed_def locations_def)

lemma deregister_eq:
  assumes "umap_find (cl_registrations c) ssid = Some reg"
    "c1 = (if umap_find (cl_connections c) ssid \<noteq> None
           then snd (send_request ex ssid (session_request Delete (reg_location reg))
             (set_state CS_Deregistering c)) else c)"
  shows "deregister ex ssid c = (ok (), set_state
    (if cl_registrations (drop_registration ssid c1) = [] then CS_Idle else CS_Registered)
    (drop_registration ssid c1))"
  using assms by (simp add: deregister_def drop_registration_def Let_def)

lemma deregister_follows: "follows c (snd (deregister ex ssid c))"
proof (cases "umap_find (cl_registrations c) ssid")
  case (Some reg)
  define c1 where "c1 = (if umap_find (cl_connections c) ssid \<noteq> None
    then snd (send_request ex ssid (session_request Delete (reg_location reg))
      (set_state CS_Deregistering c)) else c)"
  have "follows c (snd (send_request ex ssid (session_request Delete (reg_location reg))
      (set_state CS_Deregistering c)))"
    by (rule follows_trans [OF follows_set_state send_request_follows [OF prod.collapse [symmetric]]])
  then have "follows c c1" by (simp add: c1_def)
  then have "follows c (set_state st (drop_registration ssid c1))" for st
    by (meson drop_registration_follows follows_set_state follows_trans)
  then show ?thesis by (simp add: deregister_eq [OF Some c1_def])
qed (simp add: deregister_def)

lemma start_follows: "follows c (snd (start c))"
proof -
  have "follows c (c\<lparr>cl_running := True\<rparr>)" "\<And>x. follows x (x\<lparr>cl_event_thread := True\<rparr>)"
    by (auto intro!: follows_silent simp: view_def locations_def)
  then show ?thesis by (simp add: start_def) (meson follows_trans follows_set_state)
qed

lemma connection_lost_follows: "follows c (handle_connection_lost steady ssid c)"
proof (cases "cl_reconnecting c")
  case False
  have "map_of (locations (x\<lparr>cl_registrations := umap_erase (cl_registrations x) ssid\<rparr>)) =
      (map_of (locations x))(ssid := None)" for x
    by (rule ext) (simp add: find_locations)
  with False show ?thesis
    by (auto simp: follows_def view_def handle_connection_lost_def Let_def emit_def observed_def
        set_state_def locations_def)
qed (simp add: handle_connection_lost_def)

lemma deregister_all_follows: "follows c (deregister_all exs ssids c)"
  by (induction exs ssids c rule: deregister_all.induct) (auto intro: follows_trans deregister_follows)

lemma deregister_keys:
  "set (umap_keys (cl_registrations (snd (deregister ex ssid c)))) =
   set (umap_keys (cl_registrations c)) - {ssid}"
proof (cases rule: deregister_cases [where c = c and ssid = ssid and ex = ex])
  case absent
  then show ?thesis
    using umap_find_None_iff [of "cl_registrations c" ssid] by (auto simp del: set_map)
next
  case (dropped c1 reg)
  then have "umap_keys (cl_registrations c1) = umap_keys (cl_registrations c)"
    using waited_keys [of c c1] waited_keys [of "set_state CS_Deregistering c" c1] by auto
  with dropped(3) show ?thesis by (simp add: umap_keys_erase del: set_map)
qed

lemma deregister_all_keys:
  "set (umap_keys (cl_registrations (deregister_all exs ssids c))) =
   set (umap_keys (cl_registrations c)) - set ssids"
  by (induction exs ssids c rule: deregister_all.induct) (auto simp: deregister_keys simp del: set_map)

lemma deregister_all_empties:
  "cl_registrations (deregister_all exs (umap_keys (cl_registrations c)) c) = []"
  using deregister_all_keys [of exs "umap_keys (cl_registrations c)" c] by simp

lemma fold_disconnected: "fold observe (map Ev_Disconnected ssids) v = v"
  by (induction ssids) simp_all

lemma stop_follows: "follows c (stop on_event_thread exs c)"
proof -
  have silent: "follows c (c\<lparr>cl_running := False\<rparr>)"
    "follows c (c\<lparr>cl_running := False, cl_event_thread := False\<rparr>)"
    by (auto intro!: follows_silent simp: view_def locations_def)
  define c2 where "c2 = c\<lparr>cl_running := False, cl_event_thread := False\<rparr>"
  define c3 where "c3 = deregister_all exs (umap_keys (cl_registrations c2)) c2"
  define c5 where "c5 = c3\<lparr>cl_log := cl_log c3 @ map Ev_Disconnected (umap_keys (cl_connections c3)),
    cl_connections := [], cl_registrations := []\<rparr>"
  have "cl_registrations c3 = []" unfolding c3_def by (rule deregister_all_empties)
  then have "follows c3 c5"
    by (simp add: follows_def c5_def view_def locations_def fold_disconnected del: map_map)
  moreover have "follows c c3"
    using silent(2) deregister_all_follows unfolding c3_def c2_def by (rule follows_trans)
  ultimately have "follows c (set_state CS_Idle c5)" by (meson follows_trans follows_set_state)
  with silent(1) show ?thesis
    by (simp add: stop_def Let_def c5_def c3_def c2_def)
qed

lemma poll_connections_follows: "follows c (poll_connections ios ssids c)"
  by (induction ios ssids c rule: poll_connections.induct)
    (auto intro: follows_trans update_run_follows)

lemma check_updates_follows: "follows c (check_registration_updates now exs ssids c)"
proof (induction now exs ssids c rule: check_registration_updates.induct)
  case (2 now exs ssid ssids c)
  then show ?case by (auto split: option.splits intro: follows_trans update_run_follows)
qed simp

lemma check_health_follows: "follows c (check_connection_health now steady c)"
  by (simp add: check_connection_health_def connection_lost_follows split: option.split)

lemma reconnect_start_follows: "follows c (reconnect_start ssid c)"
  by (simp add: follows_def reconnect_start_def Let_def view_def locations_def emit_def)

lemma follows_reconnection [simp]:
  "follows c (x\<lparr>cl_reconnecting := b\<rparr>) = follows c x"
  "follows c (x\<lparr>cl_next_reconnect_time := t\<rparr>) = follows c x"
  "follows c (x\<lparr>cl_reconnect_attempts := n\<rparr>) = follows c x"
  by (simp_all add: follows_def view_def locations_def)

lemma follows_report [simp]:
  assumes "follows c x"
  shows "follows c (emit (Ev_Error code message) x)" "follows c (emit (Ev_Reconnected ssid) x)"
  by (rule follows_trans [OF assms follows_emit], simp)+

lemma try_reconnect_follows: "follows c (try_reconnect script steady ssid c)"
proof (cases rule: try_reconnect_cases [where c = c and script = script and steady = steady and ssid = ssid])
  case (attempt r c4)
  have "follows c c4"
    using reconnect_start_follows register_follows [OF attempt(3)] by (rule follows_trans)
  with attempt(4) show ?thesis by (simp add: Let_def split: sum.split)
qed (simp_all add: Let_def)

lemma poll_follows: "follows c (poll script c)"
proof -
  define c1 where "c1 = poll_connections (ps_ios script) (umap_keys (cl_connections c)) c"
  define c2 where "c2 = check_registration_updates (ps_now script) (ps_updates script)
    (umap_keys (cl_registrations c1)) c1"
  define c3 where "c3 = check_connection_health (ps_health_now script) (ps_lost_steady script) c2"
  have "follows c c3"
    unfolding c3_def c2_def c1_def
    by (intro follows_trans [OF _ check_health_follows] follows_trans [OF _ check_updates_follows]
        poll_connections_follows)
  moreover from this have "follows c (try_reconnect script' steady ssid c3)" for script' steady ssid
    by (rule follows_trans [OF _ try_reconnect_follows])
  ultimately show ?thesis by (simp add: poll_def Let_def flip: c1_def c2_def c3_def)
qed

section \<open>Refinement\<close>

lemma client_step_follows:
  assumes "client_step c c'" "observed (cl_callbacks c)"
  shows "\<exists>l. cl_log c' = cl_log c @ l \<and> view c' = fold observe l (view c)"
  using assms(1)
proof (cases rule: client_step.cases)
  case (step_register script ssid r)
  with register_follows assms(2) show ?thesis by (auto simp: follows_def)
next
  case (step_update ex ssid r)
  with update_run_follows(1) [of c ex ssid] assms(2) show ?thesis by (auto simp: follows_def)
next
  case (step_deregister ex ssid r)
  with deregister_follows [of c ex ssid] assms(2) show ?thesis by (auto simp: follows_def)
next
  case (step_start r)
  with start_follows [of c] assms(2) show ?thesis by (auto simp: follows_def)
next
  case (step_stop on_event_thread exs)
  with stop_follows [of c on_event_thread exs] assms(2) show ?thesis by (auto simp: follows_def)
next
  case (step_poll script)
  with poll_follows [of c script] assms(2) show ?thesis by (auto simp: follows_def)
qed (auto simp: view_def locations_def set_callbacks_def set_reconnection_config_def add_object_def
    set_firmware_callbacks_def)

text \<open>C1: an application that has set the state, registration, deregistration and connection-loss
  callbacks knows the client: after every operation, replaying the callbacks it made on the state
  and the locations before gives the state and the locations after.\<close>

theorem callbacks_tell_client:
  assumes "client_step c c'" "observed (cl_callbacks c)"
  shows "\<exists>l. cl_log c' = cl_log c @ l \<and> view c' = fold observe l (view c)"
  using assms by (rule client_step_follows)

theorem callbacks_tell_client_witness:
  "\<exists>c c' l. client_step c c' \<and> observed (cl_callbacks c) \<and> cl_log c' = cl_log c @ l \<and> view c' = fold observe l (view c)"
proof -
  define c where "c = sample_client\<lparr>cl_callbacks := no_callbacks\<lparr>on_state_change := True,
    on_registered := True, on_deregistered := True, on_connection_lost := True\<rparr>\<rparr>"
  have s: "client_step c (stop False (\<lambda>_. Exchange [] (ok (respond C_Deleted)) 3) c)" by (rule step_stop)
  have "observed (cl_callbacks c)" by (simp add: c_def observed_def)
  with callbacks_tell_client [OF s] s show ?thesis by blast
qed

end
