(* ===== verification/Coap_Client.thy ===== *)
theory Coap_Client
  imports Coap_Types Paths
begin

text \<open>
  \<open>CoapClientImpl\<close> (\<open>src/transport/coap_client.cpp\<close>), the wrapper over libcoap.
  What libcoap answers is a parameter, the record \<open>libcoap\<close>; what it delivers while it
  processes I/O is a script of events. A PDU is its code, its token, its options in the order in
  which they were added, and its payload.

  \<open>current_response_\<close> points to a local of the innermost \<open>send\<close>: the locals of the
  sends in progress are the list \<open>cc_frames\<close>, innermost last, and the pointer is an index
  into it. Debug output and the log level are left out.
\<close>

section \<open>libcoap as the wrapper sees it\<close>

datatype uri_scheme = Scheme_Coap | Scheme_Coaps | Scheme_Coap_Tcp | Scheme_Coaps_Tcp | Scheme_Other

record coap_uri =
  uri_scheme :: uri_scheme
  uri_host :: string
  uri_port :: u16
  uri_path :: string
  uri_query :: string

record coap_pdu =
  pdu_code :: u8
  pdu_token :: bytes
  pdu_options :: coap_options
  pdu_payload :: bytes

text \<open>A session: the peer, the protocol (DTLS or UDP), the PSK it was opened with, its app data.\<close>

record coap_session =
  ses_address :: string
  ses_dtls :: bool
  ses_psk :: "psk_credentials option"
  ses_app_data :: bool

text \<open>A context: the methods that the resource for unknown paths has a handler for.\<close>

record coap_context =
  ctx_handlers :: "coap_method list"

text \<open>
  The answers of libcoap: whether a context, a resource, a session, a PDU could be made, how a
  URI splits, what a name resolves to, whether a payload fits a PDU, whether a PDU could be sent,
  and the variable-length encoding of option numbers.
\<close>

record libcoap =
  lc_new_context :: bool
  lc_unknown_resource :: bool
  lc_split_uri :: "string \<Rightarrow> coap_uri option"
  lc_resolve :: "string \<Rightarrow> u16 \<Rightarrow> bool \<Rightarrow> string option"
  lc_new_session :: "coap_session \<Rightarrow> bool"
  lc_pdu_init :: bool
  lc_fits :: "bytes \<Rightarrow> bool"
  lc_send :: bool
  lc_encode_var :: "u16 \<Rightarrow> bytes"
  lc_decode_var :: "bytes \<Rightarrow> u32"

datatype coap_event =
  Dtls_Connected | Session_Connected | Dtls_Closed | Session_Closed | Session_Failed | Event_Other

section \<open>State\<close>

text \<open>The process-wide reference count of libcoap, and whether libcoap is started.\<close>

record coap_library =
  lib_init_count :: i32
  lib_started :: bool

definition init_libcoap :: "coap_library \<Rightarrow> coap_library" where
  "init_libcoap l =
     (let old = lib_init_count l; l1 = l\<lparr>lib_init_count := old + 1\<rparr>
      in if old = 0 then l1\<lparr>lib_started := True\<rparr> else l1)"

definition cleanup_libcoap :: "coap_library \<Rightarrow> coap_library" where
  "cleanup_libcoap l =
     (let old = lib_init_count l; l1 = l\<lparr>lib_init_count := old - 1\<rparr>
      in if old = 1 then l1\<lparr>lib_started := False\<rparr> else l1)"

record pending_response =
  pend_completed :: bool
  pend_response :: coap_response
  pend_token :: bytes

text \<open>What goes out: requests, and replies to incoming requests.\<close>

record coap_reply =
  reply_code :: "coap_code option"
  reply_options :: coap_options
  reply_payload :: bytes

datatype coap_output = Out_Request coap_pdu | Out_Reply coap_reply

record coap_client =
  cc_ctx :: "coap_context option"
  cc_session :: "coap_session option"
  cc_handler_set :: bool
  cc_connected :: bool
  cc_psk_identity :: string
  cc_psk_key :: bytes
  cc_next_token :: u64
  cc_current :: "nat option"
  cc_frames :: "pending_response list"
  cc_out :: "coap_output list"
  cc_io_waits :: "u32 list"

definition coap_client_init :: coap_client where
  "coap_client_init = \<lparr>cc_ctx = None, cc_session = None, cc_handler_set = False,
     cc_connected = False, cc_psk_identity = [], cc_psk_key = [], cc_next_token = 0,
     cc_current = None, cc_frames = [], cc_out = [], cc_io_waits = []\<rparr>"

definition set_request_handler :: "bool \<Rightarrow> coap_client \<Rightarrow> coap_client" where
  "set_request_handler is_set c = c\<lparr>cc_handler_set := is_set\<rparr>"

definition is_connected :: "coap_client \<Rightarrow> bool" where
  "is_connected c = cc_connected c"

section \<open>Connecting\<close>

definition coap_disconnect :: "coap_library \<times> coap_client \<Rightarrow> coap_library \<times> coap_client" where
  "coap_disconnect = (\<lambda>(l, c).
     let c1 = c\<lparr>cc_session := None\<rparr>;
         (l1, c2) = (if cc_ctx c1 \<noteq> None then (cleanup_libcoap l, c1\<lparr>cc_ctx := None\<rparr>) else (l, c1))
     in (l1, c2\<lparr>cc_psk_identity := [], cc_psk_key := [], cc_connected := False\<rparr>))"

definition setup_dtls_psk :: "psk_credentials \<Rightarrow> coap_client \<Rightarrow> unit result \<times> coap_client" where
  "setup_dtls_psk psk c =
     (if psk_identity psk = [] then (err E_BadRequest ''PSK identity cannot be empty'', c)
      else if psk_key psk = [] then (err E_BadRequest ''PSK key cannot be empty'', c)
      else (ok (), c\<lparr>cc_psk_identity := psk_identity psk, cc_psk_key := psk_key psk\<rparr>))"

definition setup_dtls_rpk :: "rpk_credentials \<Rightarrow> coap_client \<Rightarrow> unit result \<times> coap_client" where
  "setup_dtls_rpk rpk c = (err E_NotImplemented ''RPK support not yet implemented'', c)"

text \<open>The switch over the security mode of a connection that uses DTLS.\<close>

definition setup_dtls :: "connection_config \<Rightarrow> coap_client \<Rightarrow> unit result \<times> coap_client" where
  "setup_dtls config c =
     (case cfg_security_mode config of
        Psk \<Rightarrow>
          (case cfg_psk config of
             None \<Rightarrow> (err E_BadRequest ''PSK credentials required'', c)
           | Some psk \<Rightarrow> setup_dtls_psk psk c)
      | Rpk \<Rightarrow>
          (case cfg_rpk config of
             None \<Rightarrow> (err E_BadRequest ''RPK credentials required'', c)
           | Some rpk \<Rightarrow> setup_dtls_rpk rpk c)
      | NoSec \<Rightarrow> (err E_BadRequest ''Security mode mismatch'', c)
      | Certificate \<Rightarrow> (err E_NotImplemented ''Certificate mode not yet implemented'', c))"

definition uses_dtls :: "coap_uri \<Rightarrow> bool" where
  "uses_dtls uri \<longleftrightarrow> uri_scheme uri = Scheme_Coaps \<or> uri_scheme uri = Scheme_Coaps_Tcp"

definition open_session :: "string \<Rightarrow> bool \<Rightarrow> coap_client \<Rightarrow> coap_session" where
  "open_session dst use_dtls c = \<lparr>ses_address = dst, ses_dtls = use_dtls,
     ses_psk = (if use_dtls \<and> cc_psk_identity c \<noteq> []
                then Some \<lparr>psk_identity = cc_psk_identity c, psk_key = cc_psk_key c\<rparr> else None),
     ses_app_data = False\<rparr>"

text \<open>The end of \<open>connect\<close>: resolve the host, open the session.\<close>

definition create_session ::
  "libcoap \<Rightarrow> coap_uri \<Rightarrow> coap_library \<Rightarrow> coap_client \<Rightarrow> unit result \<times> coap_library \<times> coap_client" where
  "create_session lc uri l c =
     (case lc_resolve lc (uri_host uri) (uri_port uri) (uses_dtls uri) of
        None \<Rightarrow>
          (err E_ConnectionFailed ''Failed to resolve server address'', coap_disconnect (l, c))
      | Some dst \<Rightarrow>
          let session = open_session dst (uses_dtls uri) c
          in if \<not> lc_new_session lc session then
               (err E_ConnectionFailed ''Failed to create CoAP session'', coap_disconnect (l, c))
             else
               (ok (), l, c\<lparr>cc_session := Some (session\<lparr>ses_app_data := True\<rparr>), cc_connected := True\<rparr>))"

definition coap_connect ::
  "libcoap \<Rightarrow> connection_config \<Rightarrow> coap_library \<times> coap_client \<Rightarrow>
   unit result \<times> coap_library \<times> coap_client" where
  "coap_connect lc config lc0 =
     (let (l, c) = coap_disconnect lc0; l1 = init_libcoap l in
      if \<not> lc_new_context lc then (err E_InternalServerError ''Failed to create CoAP context'', l1, c)
      else
        let c1 = c\<lparr>cc_ctx := Some \<lparr>ctx_handlers =
              (if lc_unknown_resource lc then [Put, Get, Post, Delete] else [])\<rparr>\<rparr>
        in (case lc_split_uri lc (cfg_server_uri config) of
              None \<Rightarrow> (err E_BadRequest ''Invalid server URI'', coap_disconnect (l1, c1))
            | Some uri \<Rightarrow>
                (case (if uses_dtls uri then setup_dtls config c1 else (ok (), c1)) of
                   (Inl e, c2) \<Rightarrow> (Inl e, coap_disconnect (l1, c2))
                 | (Inr _, c2) \<Rightarrow> create_session lc uri l1 c2)))"

section \<open>Building a request\<close>

definition method_code :: "coap_method \<Rightarrow> u8" where
  "method_code m = (case m of Get \<Rightarrow> 1 | Post \<Rightarrow> 2 | Put \<Rightarrow> 3 | Delete \<Rightarrow> 4)"

text \<open>\<open>memcpy\<close> of the counter, on a little-endian machine.\<close>

definition token_bytes :: "u64 \<Rightarrow> bytes" where
  "token_bytes v = map (\<lambda>i. ucast (drop_bit (8 * i) v)) [0..<8]"

text \<open>The loop over the path: slashes are skipped, everything between two is a segment.\<close>

function path_loop :: "string \<Rightarrow> string list" where
  "path_loop s =
     (case s of
        [] \<Rightarrow> []
      | c # rest \<Rightarrow>
          if c = CHR ''/'' then path_loop rest
          else takeWhile (\<lambda>c. c \<noteq> CHR ''/'') s # path_loop (dropWhile (\<lambda>c. c \<noteq> CHR ''/'') s))"
  by pat_completeness auto
termination
  by (relation "measure length") (auto simp: le_imp_less_Suc length_dropWhile_le)

declare path_loop.simps [simp del]

text \<open>The loop over the query: a parameter up to the next ampersand, empty ones dropped.\<close>

function query_loop :: "string \<Rightarrow> string list" where
  "query_loop s =
     (if s = [] then []
      else
        let param = takeWhile (\<lambda>c. c \<noteq> CHR ''&'') s; rest = dropWhile (\<lambda>c. c \<noteq> CHR ''&'') s
        in (if param \<noteq> [] then [param] else []) @ query_loop (tl rest))"
  by pat_completeness auto
termination
proof (relation "measure length")
  fix s :: string and param rest
  assume "s \<noteq> []" "rest = dropWhile (\<lambda>c. c \<noteq> CHR ''&'') s"
  moreover have "length (dropWhile (\<lambda>c. c \<noteq> CHR ''&'') s) \<le> length s" by (rule length_dropWhile_le)
  ultimately show "(tl rest, s) \<in> measure length" by (cases s) (auto simp: le_imp_less_Suc)
qed simp

declare query_loop.simps [simp del]

definition option_uri_path :: u16 where "option_uri_path = 11"
definition option_content_format :: u16 where "option_content_format = 12"
definition option_uri_query :: u16 where "option_uri_query = 15"
definition option_location_path :: u16 where "option_location_path = 8"
definition option_location_query :: u16 where "option_location_query = 20"

definition uri_options :: "libcoap \<Rightarrow> string \<Rightarrow> coap_options" where
  "uri_options lc path =
     (case lc_split_uri lc (''coap://localhost'' @ path) of
        None \<Rightarrow> []
      | Some uri \<Rightarrow>
          map (\<lambda>s. (option_uri_path, bytes_of_string s)) (path_loop (uri_path uri)) @
          map (\<lambda>s. (option_uri_query, bytes_of_string s)) (query_loop (uri_query uri)))"

definition request_pdu :: "libcoap \<Rightarrow> coap_request \<Rightarrow> u64 \<Rightarrow> coap_pdu" where
  "request_pdu lc request token = \<lparr>pdu_code = method_code (req_method request),
     pdu_token = token_bytes token,
     pdu_options = uri_options lc (req_uri_path request) @
       [(option_content_format, lc_encode_var lc (format_number (req_content_format request)))],
     pdu_payload = req_payload request\<rparr>"

section \<open>Callbacks from libcoap\<close>

definition event_handler :: "coap_event \<Rightarrow> coap_client \<Rightarrow> coap_client" where
  "event_handler event c =
     (case cc_session c of
        None \<Rightarrow> c
      | Some session \<Rightarrow>
          if \<not> ses_app_data session then c
          else case event of
              Dtls_Connected \<Rightarrow> c\<lparr>cc_connected := True\<rparr>
            | Session_Connected \<Rightarrow> c\<lparr>cc_connected := True\<rparr>
            | Dtls_Closed \<Rightarrow> c\<lparr>cc_connected := False\<rparr>
            | Session_Closed \<Rightarrow> c\<lparr>cc_connected := False\<rparr>
            | Session_Failed \<Rightarrow> c\<lparr>cc_connected := False\<rparr>
            | Event_Other \<Rightarrow> c)"

definition kept_option :: "u16 \<times> bytes \<Rightarrow> bool" where
  "kept_option = (\<lambda>(n, _). n = option_location_path \<or> n = option_location_query \<or>
     n = option_content_format)"

definition fill_response :: "coap_pdu \<Rightarrow> pending_response \<Rightarrow> pending_response" where
  "fill_response received p =
     p\<lparr>pend_response := (pend_response p)
         \<lparr>resp_code := Some (CoapCode (pdu_code received)),
          resp_options := resp_options (pend_response p) @ filter kept_option (pdu_options received),
          resp_payload := (if pdu_payload received \<noteq> [] then pdu_payload received
                           else resp_payload (pend_response p))\<rparr>,
       pend_completed := True\<rparr>"

definition response_handler :: "coap_pdu \<Rightarrow> coap_client \<Rightarrow> coap_client" where
  "response_handler received c =
     (case (cc_session c, cc_current c) of
        (Some session, Some frame) \<Rightarrow>
          if ses_app_data session \<and> pdu_token received = pend_token (cc_frames c ! frame)
          then c\<lparr>cc_frames := (cc_frames c)[frame := fill_response received (cc_frames c ! frame)]\<rparr>
          else c
      | _ \<Rightarrow> c)"

text \<open>The options of an incoming request, in order: path segments joined, the format read.\<close>

fun request_options_loop ::
  "libcoap \<Rightarrow> coap_options \<Rightarrow> string \<Rightarrow> content_format \<Rightarrow> string \<times> content_format" where
  "request_options_loop lc [] path format = (path, format)"
| "request_options_loop lc ((n, v) # opts) path format =
     (if n = option_uri_path then
        request_options_loop lc opts ((if path \<noteq> [] then path @ ''/'' else path) @ string_of_bytes v) format
      else if n = option_content_format \<and> v \<noteq> [] then
        request_options_loop lc opts path (ContentFormat (ucast (lc_decode_var lc v)))
      else request_options_loop lc opts path format)"

definition method_of_code :: "u8 \<Rightarrow> coap_method option" where
  "method_of_code code =
     (if code = 1 then Some Get else if code = 2 then Some Post
      else if code = 3 then Some Put else if code = 4 then Some Delete else None)"

definition request_of_pdu :: "libcoap \<Rightarrow> coap_pdu \<Rightarrow> coap_request option" where
  "request_of_pdu lc pdu =
     (case method_of_code (pdu_code pdu) of
        None \<Rightarrow> None
      | Some m \<Rightarrow>
          let (path, format) = request_options_loop lc (pdu_options pdu) [] F_TlvLwm2m
          in Some \<lparr>req_method = m, req_uri_path = (if path \<noteq> [] then ''/'' @ path else path),
               req_options = [], req_payload = pdu_payload pdu, req_content_format = format\<rparr>)"

definition reply_of_response :: "libcoap \<Rightarrow> coap_response \<Rightarrow> coap_reply" where
  "reply_of_response lc response =
     (if resp_payload response \<noteq> [] then
        \<lparr>reply_code = resp_code response,
         reply_options = [(option_content_format,
           lc_encode_var lc (format_number (resp_content_format response)))],
         reply_payload = (if lc_fits lc (resp_payload response) then resp_payload response else [])\<rparr>
      else \<lparr>reply_code = resp_code response, reply_options = [], reply_payload = []\<rparr>)"

definition emit_reply :: "coap_reply \<Rightarrow> coap_client \<Rightarrow> coap_client" where
  "emit_reply reply c = c\<lparr>cc_out := cc_out c @ [Out_Reply reply]\<rparr>"

definition plain_reply :: "coap_code \<Rightarrow> coap_reply" where
  "plain_reply code = \<lparr>reply_code = Some code, reply_options = [], reply_payload = []\<rparr>"

section \<open>Sending\<close>

text \<open>
  What happens during one \<open>send\<close>: the answers of libcoap, then per turn of the waiting loop
  the elapsed time it reads (nanoseconds) and what libcoap delivers in the poll after it. An
  incoming request carries the sends its handler makes and the handler's response.
\<close>

datatype attempt = Attempt libcoap "(i64 \<times> net_event list) list"
  and net_event =
    Net_Response coap_pdu
  | Net_Session coap_event
  | Net_Request libcoap coap_pdu "(coap_request \<times> attempt) list" coap_response

definition io_wait :: "i64 \<Rightarrow> i64 \<Rightarrow> u32" where
  "io_wait timeout elapsed =
     word_of_int (min ((sint timeout * 1000000 - sint elapsed) div 1000000) 100)"

text \<open>The default argument of \<open>send\<close>: five seconds.\<close>

definition default_timeout :: i64 where "default_timeout = 5000"

definition push_frame :: "bytes \<Rightarrow> coap_client \<Rightarrow> coap_client" where
  "push_frame token c = c\<lparr>cc_frames := cc_frames c @
       [\<lparr>pend_completed = False, pend_response = default_response, pend_token = token\<rparr>],
     cc_current := Some (length (cc_frames c))\<rparr>"

definition pop_frame :: "coap_client \<Rightarrow> coap_client" where
  "pop_frame c = c\<lparr>cc_frames := butlast (cc_frames c), cc_current := None\<rparr>"

text \<open>
  \<open>None\<close>: the script ends while the loop still waits. A turn is one call of
  \<open>coap_io_process\<close>, which returns in the model; the wait it is given is recorded, zero included,
  with which libcoap may block without limit.
\<close>

fun coap_send ::
  "i64 \<Rightarrow> coap_request \<Rightarrow> attempt \<Rightarrow> coap_client \<Rightarrow> (coap_response result \<times> coap_client) option"
and wait_loop ::
  "i64 \<Rightarrow> (i64 \<times> net_event list) list \<Rightarrow> coap_client \<Rightarrow> (coap_response result \<times> coap_client) option"
and io_process :: "net_event list \<Rightarrow> coap_client \<Rightarrow> coap_client option"
and handler_sends :: "(coap_request \<times> attempt) list \<Rightarrow> coap_client \<Rightarrow> coap_client option"
where
  "coap_send timeout request (Attempt lc turns) c =
     (if \<not> is_connected c then Some (err E_InvalidState ''Not connected'', c)
      else if \<not> lc_pdu_init lc then Some (err E_InternalServerError ''Failed to create PDU'', c)
      else
        let tok_val = cc_next_token c + 1;
            c1 = c\<lparr>cc_next_token := tok_val\<rparr>;
            pdu = request_pdu lc request tok_val
        in if req_payload request \<noteq> [] \<and> \<not> lc_fits lc (req_payload request) then
             Some (err E_InternalServerError
               ''Payload does not fit in a single PDU (block-wise not supported)'', c1)
           else
             let c2 = push_frame (token_bytes tok_val) c1
             in if \<not> lc_send lc then
                  Some (err E_InternalServerError ''Failed to send request'', pop_frame c2)
                else wait_loop timeout turns (c2\<lparr>cc_out := cc_out c2 @ [Out_Request pdu]\<rparr>))"
| "wait_loop timeout turns c =
     (if pend_completed (last (cc_frames c)) then
        Some (ok (pend_response (last (cc_frames c))), pop_frame c)
      else case turns of
          [] \<Rightarrow> None
        | (elapsed, events) # turns' \<Rightarrow>
            if sint elapsed \<ge> sint timeout * 1000000 then
              Some (err E_Timeout ''Request timeout'', pop_frame c)
            else
              (case io_process events (c\<lparr>cc_io_waits := cc_io_waits c @ [io_wait timeout elapsed]\<rparr>) of
                 None \<Rightarrow> None
               | Some c' \<Rightarrow> wait_loop timeout turns' c'))"
| "io_process [] c = Some c"
| "io_process (Net_Response pdu # events) c = io_process events (response_handler pdu c)"
| "io_process (Net_Session event # events) c = io_process events (event_handler event c)"
| "io_process (Net_Request lc pdu sends response # events) c =
     (if \<not> cc_handler_set c then io_process events (emit_reply (plain_reply C_NotFound) c)
      else case request_of_pdu lc pdu of
          None \<Rightarrow> io_process events (emit_reply (plain_reply C_MethodNotAllowed) c)
        | Some request \<Rightarrow>
            (case handler_sends sends c of
               None \<Rightarrow> None
             | Some c' \<Rightarrow> io_process events (emit_reply (reply_of_response lc response) c')))"
| "handler_sends [] c = Some c"
| "handler_sends ((request, att) # sends) c =
     (case coap_send default_timeout request att c of
        None \<Rightarrow> None
      | Some (_, c') \<Rightarrow> handler_sends sends c')"

declare wait_loop.simps [simp del]

definition coap_poll :: "i64 \<Rightarrow> net_event list \<Rightarrow> coap_client \<Rightarrow> coap_client option" where
  "coap_poll timeout events c =
     (if cc_ctx c \<noteq> None
      then io_process events (c\<lparr>cc_io_waits := cc_io_waits c @ [ucast timeout]\<rparr>)
      else Some c)"

end
