(* ===== verification/Coap_Connection.thy ===== *)
theory Coap_Connection
  imports Coap_Client
begin

text \<open>
  Connections of the CoAP client: what a connection attempt leaves behind, and the reference count
  of libcoap.
\<close>

section \<open>Connecting\<close>

lemma coap_disconnect_sel:
  assumes "coap_disconnect (l, c) = (l', c')"
  shows "cc_ctx c' = None" "cc_session c' = None" "\<not> cc_connected c'"
    "cc_psk_identity c' = []" "cc_psk_key c' = []"
    "cc_handler_set c' = cc_handler_set c" "cc_next_token c' = cc_next_token c"
  using assms by (auto simp: coap_disconnect_def Let_def split: if_splits)

lemma setup_dtls_cases:
  assumes "setup_dtls config c = (r, c')"
  shows "is_ok r \<longleftrightarrow> cfg_security_mode config = Psk \<and>
      (\<exists>psk. cfg_psk config = Some psk \<and> psk_identity psk \<noteq> [] \<and> psk_key psk \<noteq> [])"
    "is_ok r \<Longrightarrow> \<exists>psk. cfg_psk config = Some psk \<and> psk_identity psk \<noteq> [] \<and>
      c' = c\<lparr>cc_psk_identity := psk_identity psk, cc_psk_key := psk_key psk\<rparr>"
    "is_err r \<Longrightarrow> c' = c"
  using assms
  by (auto simp: setup_dtls_def setup_dtls_psk_def setup_dtls_rpk_def
      split: security_mode.splits option.splits if_splits)

lemma create_session_cases:
  assumes "create_session lc uri l c = (r, l', c')"
  obtains (refused) "is_err r" "(l', c') = coap_disconnect (l, c)"
  | (opened) dst where "r = ok ()" "l' = l"
      "lc_resolve lc (uri_host uri) (uri_port uri) (uses_dtls uri) = Some dst"
      "c' = c\<lparr>cc_session := Some ((open_session dst (uses_dtls uri) c)\<lparr>ses_app_data := True\<rparr>),
         cc_connected := True\<rparr>"
proof (cases "\<exists>dst. lc_resolve lc (uri_host uri) (uri_port uri) (uses_dtls uri) = Some dst \<and>
    lc_new_session lc (open_session dst (uses_dtls uri) c)")
  case True
  then obtain dst where "lc_resolve lc (uri_host uri) (uri_port uri) (uses_dtls uri) = Some dst"
    "lc_new_session lc (open_session dst (uses_dtls uri) c)" by blast
  with assms show ?thesis by (intro that(2) [of dst]) (auto simp: create_session_def Let_def)
next
  case False
  with assms show ?thesis
    by (intro that(1)) (auto simp: create_session_def Let_def split: option.splits if_splits)
qed

text \<open>The outcomes of \<open>connect\<close>, for its properties.\<close>

definition secured :: "connection_config \<Rightarrow> bool" where
  "secured config \<longleftrightarrow> cfg_security_mode config = Psk \<and>
     (\<exists>psk. cfg_psk config = Some psk \<and> psk_identity psk \<noteq> [] \<and> psk_key psk \<noteq> [])"

lemma coap_connect_cases:
  assumes "coap_connect lc config (l, c) = (r, l', c')" "coap_disconnect (l, c) = (l0, c0)"
  obtains (no_context) "is_err r" "\<not> lc_new_context lc" "l' = init_libcoap l0" "c' = c0"
  | (refused) c1 where "is_err r" "lc_new_context lc" "cc_ctx c1 \<noteq> None"
      "(l', c') = coap_disconnect (init_libcoap l0, c1)"
  | (connected) uri dst where "r = ok ()" "lc_new_context lc" "l' = init_libcoap l0"
      "lc_split_uri lc (cfg_server_uri config) = Some uri"
      "lc_resolve lc (uri_host uri) (uri_port uri) (uses_dtls uri) = Some dst"
      "cc_connected c'" "cc_ctx c' \<noteq> None"
      "cc_session c' = Some \<lparr>ses_address = dst, ses_dtls = uses_dtls uri,
         ses_psk = (if uses_dtls uri then cfg_psk config else None), ses_app_data = True\<rparr>"
      "uses_dtls uri \<Longrightarrow> secured config"
proof -
  define l1 where "l1 = init_libcoap l0"
  define c1 where "c1 = c0\<lparr>cc_ctx := Some \<lparr>ctx_handlers =
    (if lc_unknown_resource lc then [Put, Get, Post, Delete] else [])\<rparr>\<rparr>"
  have c1: "cc_ctx c1 \<noteq> None" "cc_psk_identity c1 = []"
    using coap_disconnect_sel(4) [OF assms(2)] by (simp_all add: c1_def)
  consider "\<not> lc_new_context lc" | "lc_new_context lc" "lc_split_uri lc (cfg_server_uri config) = None"
    | uri where "lc_new_context lc" "lc_split_uri lc (cfg_server_uri config) = Some uri"
    by (cases "lc_split_uri lc (cfg_server_uri config)") auto
  then show thesis
  proof cases
    case 1
    with assms show thesis by (intro that(1)) (auto simp: coap_connect_def Let_def)
  next
    case 2
    with assms c1 show thesis by (intro that(2) [of c1]) (auto simp: coap_connect_def Let_def c1_def)
  next
    case (3 uri)
    obtain q c2 where s: "(if uses_dtls uri then setup_dtls config c1 else (ok (), c1)) = (q, c2)"
      by fastforce
    have r: "(r, l', c') = (case q of Inl e \<Rightarrow> (Inl e, coap_disconnect (l1, c2))
        | Inr _ \<Rightarrow> create_session lc uri l1 c2)"
      using assms 3 s [unfolded c1_def] by (auto simp: coap_connect_def Let_def l1_def split: sum.splits)
    have c2: "cc_ctx c2 \<noteq> None" "is_ok q \<Longrightarrow> uses_dtls uri \<Longrightarrow> secured config \<and>
        cfg_psk config = Some \<lparr>psk_identity = cc_psk_identity c2, psk_key = cc_psk_key c2\<rparr> \<and>
        cc_psk_identity c2 \<noteq> []"
      using s c1 setup_dtls_cases [of config c1 q c2]
      by (cases "is_ok q"; auto simp: is_err_iff secured_def split: if_splits)+
    show thesis
    proof (cases q)
      case (Inl e)
      with r c2 3 show thesis by (intro that(2) [of c2]) (auto simp: l1_def)
    next
      case (Inr u)
      then have "create_session lc uri l1 c2 = (r, l', c')" using r by simp
      then show thesis
      proof (cases rule: create_session_cases)
        case refused
        with c2 3 show thesis by (intro that(2) [of c2]) (auto simp: l1_def)
      next
        case (opened dst)
        with c2 3 Inr show thesis
          by (intro that(3) [of uri dst]) (auto simp: l1_def open_session_def)
      qed
    qed
  qed
qed

text \<open>C23: a connection attempt either ends connected, over a session to the resolved address that
  uses DTLS exactly when the URI is secure, and then with the configured non-empty PSK credentials
  in pre-shared-key mode; or it fails and leaves no session, no context and no credentials.\<close>

theorem coap_connect_outcome:
  assumes "coap_connect lc config (l, c) = (r, l', c')"
  shows "if is_ok r
    then cc_connected c' \<and> (\<exists>uri dst. lc_split_uri lc (cfg_server_uri config) = Some uri \<and>
      lc_resolve lc (uri_host uri) (uri_port uri) (uses_dtls uri) = Some dst \<and>
      cc_session c' = Some \<lparr>ses_address = dst, ses_dtls = uses_dtls uri,
        ses_psk = (if uses_dtls uri then cfg_psk config else None), ses_app_data = True\<rparr> \<and>
      (uses_dtls uri \<longrightarrow> secured config))
    else \<not> cc_connected c' \<and> cc_session c' = None \<and> cc_ctx c' = None \<and>
      cc_psk_identity c' = [] \<and> cc_psk_key c' = []"
proof -
  obtain l0 c0 where d: "coap_disconnect (l, c) = (l0, c0)" by fastforce
  from assms d show ?thesis
  proof (cases rule: coap_connect_cases)
    case no_context
    with coap_disconnect_sel [OF d] show ?thesis by (simp add: is_err_iff)
  next
    case (refused c1)
    with coap_disconnect_sel [OF refused(4) [symmetric]] show ?thesis by (simp add: is_err_iff)
  qed auto
qed

text \<open>A libcoap on which everything succeeds, whose URIs split at the first slash after the host.\<close>

definition sample_libcoap :: libcoap where
  "sample_libcoap = \<lparr>lc_new_context = True, lc_unknown_resource = True,
     lc_split_uri = (\<lambda>s. let rest = drop 17 s; path = takeWhile (\<lambda>c. c \<noteq> CHR ''?'') rest
       in Some \<lparr>uri_scheme = (if take 5 s = ''coaps'' then Scheme_Coaps else Scheme_Coap),
            uri_host = ''localhost'', uri_port = 5683, uri_path = path,
            uri_query = tl (dropWhile (\<lambda>c. c \<noteq> CHR ''?'') rest)\<rparr>),
     lc_resolve = (\<lambda>_ _ _. Some ''::1''), lc_new_session = (\<lambda>_. True), lc_pdu_init = True,
     lc_fits = (\<lambda>_. True), lc_send = True,
     lc_encode_var = (\<lambda>n. [ucast (drop_bit 8 n), ucast n]),
     lc_decode_var = (\<lambda>bs. fold (\<lambda>b n. 256 * n + ucast b) bs 0)\<rparr>"

theorem coap_connect_outcome_witness:
  "cc_connected (snd (snd (coap_connect sample_libcoap
     (default_connection_config\<lparr>cfg_server_uri := ''coap://localhost/''\<rparr>)
     (\<lparr>lib_init_count = 0, lib_started = False\<rparr>, coap_client_init))))"
proof -
  define config where "config = default_connection_config\<lparr>cfg_server_uri := ''coap://localhost/''\<rparr>"
  obtain r l' c' where r: "coap_connect sample_libcoap config
      (\<lparr>lib_init_count = 0, lib_started = False\<rparr>, coap_client_init) = (r, l', c')"
    by (metis prod.collapse)
  have "is_ok r"
    using r by (auto simp: coap_connect_def create_session_def coap_disconnect_def coap_client_init_def
        config_def sample_libcoap_def Let_def uses_dtls_def)
  with coap_connect_outcome [OF r] r show ?thesis by (simp add: config_def)
qed

section \<open>The reference count\<close>

definition contexts :: "coap_client \<Rightarrow> i32" where
  "contexts c = (if cc_ctx c = None then 0 else 1)"

lemma coap_disconnect_count:
  assumes "coap_disconnect (l, c) = (l', c')"
  shows "lib_init_count l' - contexts c' = lib_init_count l - contexts c"
  using assms
  by (auto simp: coap_disconnect_def Let_def cleanup_libcoap_def contexts_def split: if_splits)

lemma init_libcoap_count [simp]: "lib_init_count (init_libcoap l) = lib_init_count l + 1"
  by (simp add: init_libcoap_def Let_def)

text \<open>C24: beyond the contexts that exist, a connection attempt raises the reference count of libcoap
  exactly when the context could not be created, and nothing ever lowers it again.\<close>

theorem coap_connect_refcount:
  assumes "coap_connect lc config (l, c) = (r, l', c')"
  shows "lib_init_count l' - contexts c' =
    lib_init_count l - contexts c + (if lc_new_context lc then 0 else 1)"
proof -
  obtain l0 c0 where d: "coap_disconnect (l, c) = (l0, c0)" by fastforce
  have c0: "contexts c0 = 0" using coap_disconnect_sel(1) [OF d] by (simp add: contexts_def)
  from assms d show ?thesis
  proof (cases rule: coap_connect_cases)
    case no_context
    with coap_disconnect_count [OF d] c0 show ?thesis by (simp add: algebra_simps)
  next
    case (refused c1)
    with coap_disconnect_count [OF d] c0 coap_disconnect_count [OF refused(4) [symmetric]]
    show ?thesis by (simp add: contexts_def algebra_simps)
  next
    case (connected uri dst)
    with coap_disconnect_count [OF d] c0 show ?thesis by (simp add: contexts_def algebra_simps)
  qed
qed

theorem coap_connect_refcount_witness:
  "lib_init_count (fst (snd (coap_connect (sample_libcoap\<lparr>lc_new_context := False\<rparr>)
     default_connection_config (\<lparr>lib_init_count = 0, lib_started = False\<rparr>, coap_client_init)))) = 1"
proof -
  obtain r l' c' where r: "coap_connect (sample_libcoap\<lparr>lc_new_context := False\<rparr>) default_connection_config
      (\<lparr>lib_init_count = 0, lib_started = False\<rparr>, coap_client_init) = (r, l', c')"
    by (metis prod.collapse)
  have "contexts c' = 0"
    using r by (auto simp: coap_connect_def coap_disconnect_def coap_client_init_def contexts_def Let_def)
  with coap_connect_refcount [OF r] r show ?thesis
    by (simp add: contexts_def coap_client_init_def)
qed

end
