(* ===== verification/Coap_Exchange.thy ===== *)
theory Coap_Exchange
  imports Coap_Connection
begin

text \<open>
  One exchange of the CoAP client: which responses a send accepts, what a send inside a send does
  to it, when it returns and how long it lets libcoap wait.
\<close>

section \<open>Which response a send takes\<close>

text \<open>The responses that libcoap delivers itself, not to a send nested in a request's handler.\<close>

definition responses :: "net_event list \<Rightarrow> coap_pdu set" where
  "responses events = {pdu. Net_Response pdu \<in> set events}"

definition all_responses :: "(i64 \<times> net_event list) list \<Rightarrow> coap_pdu set" where
  "all_responses turns = (\<Union>(_, events) \<in> set turns. responses events)"

lemma responses_simps [simp]:
  "responses [] = {}" "responses (Net_Response pdu # events) = insert pdu (responses events)"
  "responses (Net_Session event # events) = responses events"
  "responses (Net_Request lc pdu sends response # events) = responses events"
  "all_responses [] = {}" "all_responses ((e, events) # turns) = responses events \<union> all_responses turns"
  by (auto simp: responses_def all_responses_def)

definition taken :: "coap_pdu set \<Rightarrow> pending_response \<Rightarrow> pending_response \<Rightarrow> bool" where
  "taken P p p' \<longleftrightarrow> pend_token p' = pend_token p \<and> pend_completed p' \<and>
     (\<exists>pdu \<in> P. pdu_token pdu = pend_token p \<and>
        resp_code (pend_response p') = Some (CoapCode (pdu_code pdu)))"

text \<open>
  What delivering the responses \<open>P\<close> does to the sends in progress: only the one that
  \<open>current_response_\<close> points to can be filled, by a response with its token, and the pointer
  stays or is cleared.
\<close>

definition delivers :: "coap_pdu set \<Rightarrow> coap_client \<Rightarrow> coap_client \<Rightarrow> bool" where
  "delivers P c c' \<longleftrightarrow> length (cc_frames c') = length (cc_frames c) \<and>
     (cc_current c' = cc_current c \<or> cc_current c' = None) \<and>
     (\<forall>f < length (cc_frames c). cc_frames c' ! f = cc_frames c ! f \<or>
        cc_current c = Some f \<and> taken P (cc_frames c ! f) (cc_frames c' ! f))"

lemma delivers_refl [simp]: "delivers P c c"
  by (simp add: delivers_def)

lemma taken_mono: "taken P p p' \<Longrightarrow> P \<subseteq> Q \<Longrightarrow> taken Q p p'"
  by (auto simp: taken_def)

lemma delivers_trans:
  assumes "delivers P a b" "delivers Q b c" "P \<subseteq> R" "Q \<subseteq> R"
  shows "delivers R a c"
  unfolding delivers_def
proof (intro conjI allI impI)
  show "length (cc_frames c) = length (cc_frames a)"
    "cc_current c = cc_current a \<or> cc_current c = None"
    using assms(1,2) by (auto simp: delivers_def)
  fix f
  assume f: "f < length (cc_frames a)"
  have ab: "cc_frames b ! f = cc_frames a ! f \<or>
      cc_current a = Some f \<and> taken P (cc_frames a ! f) (cc_frames b ! f)"
    using assms(1) f by (auto simp: delivers_def)
  have bc: "cc_frames c ! f = cc_frames b ! f \<or>
      cc_current b = Some f \<and> taken Q (cc_frames b ! f) (cc_frames c ! f)"
    using assms(1,2) f by (auto simp: delivers_def)
  have "cc_current b = cc_current a \<or> cc_current b = None" using assms(1) by (auto simp: delivers_def)
  moreover have "taken P x y \<Longrightarrow> taken Q y z \<Longrightarrow> taken Q x z" for x y z by (auto simp: taken_def)
  ultimately show "cc_frames c ! f = cc_frames a ! f \<or>
      cc_current a = Some f \<and> taken R (cc_frames a ! f) (cc_frames c ! f)"
    using ab bc taken_mono [OF _ assms(3)] taken_mono [OF _ assms(4)] by fastforce
qed

lemma delivers_other:
  assumes "cc_frames c' = cc_frames c" "cc_current c' = cc_current c \<or> cc_current c' = None"
  shows "delivers P c c'"
  using assms by (simp add: delivers_def)

lemma taken_fill:
  "pdu_token pdu = pend_token p \<Longrightarrow> taken (insert pdu P) p (fill_response pdu p)"
  by (simp add: taken_def fill_response_def)

lemma delivers_response: "delivers (insert pdu P) c (response_handler pdu c)"
proof (cases "cc_session c")
  case (Some session)
  show ?thesis
  proof (cases "cc_current c")
    case frame: (Some frame)
    have "(cc_frames c)[frame := fill_response pdu (cc_frames c ! frame)] ! f = cc_frames c ! f \<or>
        frame = f \<and> taken (insert pdu P) (cc_frames c ! f)
          ((cc_frames c)[frame := fill_response pdu (cc_frames c ! frame)] ! f)"
      if "f < length (cc_frames c)" "pdu_token pdu = pend_token (cc_frames c ! frame)" for f
      using that taken_fill by (cases "frame = f") auto
    with Some frame show ?thesis by (auto simp: delivers_def response_handler_def)
  qed (simp add: response_handler_def Some)
qed (simp add: response_handler_def)

lemma event_handler_frames [simp]:
  "cc_frames (event_handler event c) = cc_frames c" "cc_current (event_handler event c) = cc_current c"
  by (auto simp: event_handler_def split: option.split coap_event.split)

lemma emit_reply_frames [simp]:
  "cc_frames (emit_reply r c) = cc_frames c" "cc_current (emit_reply r c) = cc_current c"
  by (simp_all add: emit_reply_def)

text \<open>A send that went out takes its frame with it and leaves the others as they were.\<close>

lemma push_pop:
  assumes "delivers P (c\<lparr>cc_frames := cc_frames c @ [p], cc_current := Some (length (cc_frames c))\<rparr>) c''"
  shows "cc_frames (pop_frame c'') = cc_frames c" "cc_current (pop_frame c'') = None"
proof -
  have l: "length (cc_frames c'') = Suc (length (cc_frames c))" using assms by (simp add: delivers_def)
  show "cc_frames (pop_frame c'') = cc_frames c"
  proof (rule nth_equalityI)
    show "length (cc_frames (pop_frame c'')) = length (cc_frames c)" using l by (simp add: pop_frame_def)
    fix i
    assume "i < length (cc_frames (pop_frame c''))"
    then have i: "i < length (cc_frames c)" using l by (simp add: pop_frame_def)
    have "\<forall>f < Suc (length (cc_frames c)). cc_frames c'' ! f = (cc_frames c @ [p]) ! f \<or>
        length (cc_frames c) = f"
      using assms by (auto simp: delivers_def)
    then have "cc_frames c'' ! i = (cc_frames c @ [p]) ! i" using i less_SucI nat_neq_iff by blast
    with i l show "cc_frames (pop_frame c'') ! i = cc_frames c ! i"
      by (simp add: pop_frame_def nth_butlast nth_append)
  qed
qed (simp add: pop_frame_def)

definition waited_for :: "coap_pdu set \<Rightarrow> coap_client \<Rightarrow> coap_response result \<Rightarrow> coap_client \<Rightarrow> bool" where
  "waited_for P c r c' \<longleftrightarrow> (\<exists>c''. delivers P c c'' \<and> c' = pop_frame c'' \<and>
     (if is_ok r then pend_completed (last (cc_frames c'')) \<and> r = ok (pend_response (last (cc_frames c'')))
      else r = err E_Timeout ''Request timeout'' \<and> \<not> pend_completed (last (cc_frames c''))))"

lemma send_delivers:
  shows "coap_send timeout request att c = Some (r, c1) \<Longrightarrow> delivers {} c c1 \<and> cc_frames c1 = cc_frames c"
    and "wait_loop timeout turns d = Some (r, d1) \<Longrightarrow> waited_for (all_responses turns) d r d1"
    and "io_process events e = Some e1 \<Longrightarrow> delivers (responses events) e e1"
    and "handler_sends sends s = Some s1 \<Longrightarrow> delivers {} s s1"
proof (induction timeout request att c and timeout turns d and events e and sends s
    arbitrary: r c1 and r d1 and e1 and s1
    rule: coap_send_wait_loop_io_process_handler_sends.induct)
  case (1 timeout request lc turns c)
  show ?case
  proof (cases "is_connected c \<and> lc_pdu_init lc \<and> (req_payload request = [] \<or> lc_fits lc (req_payload request))")
    case False
    with "1.prems" show ?thesis
      by (auto simp: Let_def split: if_splits intro!: delivers_other)
  next
    case True
    define c2 where "c2 = push_frame (token_bytes (cc_next_token c + 1))
      (c\<lparr>cc_next_token := cc_next_token c + 1\<rparr>)"
    define c3 where "c3 = c2\<lparr>cc_out := cc_out c2 @
      [Out_Request (request_pdu lc request (cc_next_token c + 1))]\<rparr>"
    show ?thesis
    proof (cases "lc_send lc")
      case False
      with "1.prems" True have "c1 = pop_frame c2" by (auto simp: Let_def c2_def)
      then have "cc_frames c1 = cc_frames c" "cc_current c1 = None"
        by (simp_all add: c2_def push_frame_def pop_frame_def)
      then show ?thesis by (simp add: delivers_other)
    next
      case sent: True
      with "1.prems" True have "wait_loop timeout turns c3 = Some (r, c1)"
        by (auto simp: Let_def c2_def c3_def)
      moreover have "waited_for (all_responses turns) c3 r c1"
        if "wait_loop timeout turns c3 = Some (r, c1)"
        using "1.IH" True sent that by (simp add: Let_def c2_def c3_def)
      ultimately obtain c'' where d: "delivers (all_responses turns) c3 c''" "c1 = pop_frame c''"
        by (auto simp: waited_for_def)
      have "delivers (all_responses turns) (c\<lparr>cc_frames := cc_frames c @
          [\<lparr>pend_completed = False, pend_response = default_response,
             pend_token = token_bytes (cc_next_token c + 1)\<rparr>],
          cc_current := Some (length (cc_frames c))\<rparr>) c''"
        using d(1) by (simp add: delivers_def c3_def c2_def push_frame_def)
      from push_pop [OF this] d(2) show ?thesis by (simp add: delivers_other)
    qed
  qed
next
  case (2 timeout turns c)
  note prems = "2.prems" [unfolded wait_loop.simps [of timeout turns c]]
  show ?case
  proof (cases "pend_completed (last (cc_frames c))")
    case True
    with prems have "r = ok (pend_response (last (cc_frames c)))" "d1 = pop_frame c"
      by (auto split: if_splits)
    with True show ?thesis by (auto simp: waited_for_def intro!: exI [of _ c])
  next
    case False
    then obtain elapsed events turns' where t: "turns = (elapsed, events) # turns'"
      using prems by (cases turns) auto
    define c' where "c' = c\<lparr>cc_io_waits := cc_io_waits c @ [io_wait timeout elapsed]\<rparr>"
    show ?thesis
    proof (cases "sint elapsed \<ge> sint timeout * 1000000")
      case True
      with prems False t have "r = err E_Timeout ''Request timeout''" "d1 = pop_frame c" by auto
      with False show ?thesis by (auto simp: waited_for_def intro!: exI [of _ c])
    next
      case early: False
      with prems False t obtain c'' where p: "io_process events c' = Some c''"
        "wait_loop timeout turns' c'' = Some (r, d1)"
        by (auto simp: c'_def split: option.splits)
      have "delivers (responses events) c' c''"
        using "2.IH" False t early p(1) by (simp add: c'_def)
      then have a: "delivers (responses events) c c''" by (simp add: delivers_def c'_def)
      have "waited_for (all_responses turns') c'' r d1"
        using "2.IH" False t early p by (simp add: c'_def)
      then obtain x where x: "delivers (all_responses turns') c'' x" "d1 = pop_frame x"
        "if is_ok r then pend_completed (last (cc_frames x)) \<and> r = ok (pend_response (last (cc_frames x)))
         else r = err E_Timeout ''Request timeout'' \<and> \<not> pend_completed (last (cc_frames x))"
        by (auto simp: waited_for_def)
      have "delivers (all_responses turns) c x" using a x(1) by (rule delivers_trans) (auto simp: t)
      with x(2,3) show ?thesis unfolding waited_for_def by blast
    qed
  qed
next
  case (4 pdu events c)
  then show ?case by (auto intro: delivers_trans [OF delivers_response])
next
  case (5 event events c)
  have "delivers (responses events) c (event_handler event c)" by (rule delivers_other) simp_all
  with 5 show ?case by (auto intro: delivers_trans)
next
  case (6 lc pdu sends response events c)
  have reply: "delivers (responses events) x (emit_reply y x)" for x y by (rule delivers_other) simp_all
  consider "\<not> cc_handler_set c" | "cc_handler_set c" "request_of_pdu lc pdu = None"
    | request where "cc_handler_set c" "request_of_pdu lc pdu = Some request"
    by (cases "request_of_pdu lc pdu") auto
  then show ?case
  proof cases
    case (3 request)
    with "6.prems" obtain c' where c': "handler_sends sends c = Some c'"
      "io_process events (emit_reply (reply_of_response lc response) c') = Some e1"
      by (auto split: option.splits)
    have "delivers {} c c'" "delivers (responses events) (emit_reply (reply_of_response lc response) c') e1"
      using "6.IH" 3 c' by simp_all
    then show ?thesis
      using delivers_trans [OF reply] delivers_trans by (metis responses_simps(4) empty_subsetI order.refl)
  qed (use 6 delivers_trans [OF reply] in auto)
next
  case (8 request att sends c)
  then obtain q c' where c': "coap_send default_timeout request att c = Some (q, c')"
    "handler_sends sends c' = Some s1" by (auto split: option.splits)
  have "delivers {} c c'" "delivers {} c' s1" using 8 c' by auto
  then show ?case by (rule delivers_trans) simp_all
qed auto

lemma send_ok_taken:
  assumes "coap_send timeout request (Attempt lc turns) c = Some (ok response, c')"
  shows "\<exists>pdu \<in> all_responses turns. pdu_token pdu = token_bytes (cc_next_token c + 1) \<and>
    resp_code response = Some (CoapCode (pdu_code pdu))"
proof -
  define c2 where "c2 = push_frame (token_bytes (cc_next_token c + 1))
    (c\<lparr>cc_next_token := cc_next_token c + 1\<rparr>)"
  define c3 where "c3 = c2\<lparr>cc_out := cc_out c2 @
    [Out_Request (request_pdu lc request (cc_next_token c + 1))]\<rparr>"
  have "wait_loop timeout turns c3 = Some (ok response, c')"
    using assms by (auto simp: Let_def c2_def c3_def err_def split: if_splits)
  then obtain c'' where d: "delivers (all_responses turns) c3 c''"
    "pend_completed (last (cc_frames c''))" "response = pend_response (last (cc_frames c''))"
    using send_delivers(2) by (fastforce simp: waited_for_def)
  define n where "n = length (cc_frames c)"
  define p where "p = \<lparr>pend_completed = False, pend_response = default_response,
    pend_token = token_bytes (cc_next_token c + 1)\<rparr>"
  have f3: "cc_frames c3 = cc_frames c @ [p]" by (simp add: c3_def c2_def push_frame_def p_def)
  have len: "length (cc_frames c'') = Suc n" using d(1) f3 by (simp add: delivers_def n_def)
  then have last: "last (cc_frames c'') = cc_frames c'' ! n" by (subst last_conv_nth) auto
  have "\<forall>f < Suc n. cc_frames c'' ! f = cc_frames c3 ! f \<or>
      taken (all_responses turns) (cc_frames c3 ! f) (cc_frames c'' ! f)"
    using d(1) f3 by (auto simp: delivers_def n_def)
  then have "cc_frames c'' ! n = p \<or> taken (all_responses turns) p (cc_frames c'' ! n)"
    using f3 by (auto simp: n_def)
  with d(2,3) last show ?thesis by (auto simp: taken_def p_def)
qed

lemma token_bytes_inj: "token_bytes a = token_bytes b \<Longrightarrow> a = b"
proof (rule bit_word_eqI)
  fix n
  assume t: "token_bytes a = token_bytes b" and n: "n < LENGTH(64)"
  then have "\<forall>i < 8. (ucast (drop_bit (8 * i) a) :: u8) = ucast (drop_bit (8 * i) b)"
    by (simp add: token_bytes_def list_eq_iff_nth_eq)
  moreover have "n div 8 < 8" "n mod 8 < 8" using n by simp_all
  ultimately have "bit (ucast (drop_bit (8 * (n div 8)) a) :: u8) (n mod 8) =
      bit (ucast (drop_bit (8 * (n div 8)) b) :: u8) (n mod 8)" by simp
  moreover have "8 * (n div 8) + n mod 8 = n" by simp
  ultimately show "bit a n \<longleftrightarrow> bit b n" using \<open>n mod 8 < 8\<close> by (simp add: bit_simps)
qed

text \<open>C20: a send returns a response only when libcoap delivered, during this send, a response with
  the token of this request, whose code it then has; the tokens of different requests of a client
  differ until the counter wraps.\<close>

theorem send_takes_own_response:
  assumes "coap_send timeout request (Attempt lc turns) c = Some (ok response, c')"
  shows "(\<exists>pdu \<in> all_responses turns. pdu_token pdu = token_bytes (cc_next_token c + 1) \<and>
      resp_code response = Some (CoapCode (pdu_code pdu))) \<and>
    (\<forall>other. token_bytes other = token_bytes (cc_next_token c + 1) \<longleftrightarrow> other = cc_next_token c + 1)"
  using send_ok_taken [OF assms] token_bytes_inj by blast

text \<open>A connected client for the witnesses.\<close>

definition sample_coap :: coap_client where
  "sample_coap = coap_client_init\<lparr>cc_ctx := Some \<lparr>ctx_handlers = [Put, Get, Post, Delete]\<rparr>,
     cc_session := Some \<lparr>ses_address = ''::1'', ses_dtls = False, ses_psk = None, ses_app_data = True\<rparr>,
     cc_handler_set := True, cc_connected := True\<rparr>"

definition sample_request :: coap_request where
  "sample_request = \<lparr>req_method = Post, req_uri_path = ''/rd/1'', req_options = [], req_payload = [],
     req_content_format = F_LinkFormat\<rparr>"

definition sample_answer :: "u64 \<Rightarrow> coap_pdu" where
  "sample_answer token = \<lparr>pdu_code = 68, pdu_token = token_bytes token, pdu_options = [], pdu_payload = []\<rparr>"

lemmas sample_coap_defs = sample_coap_def coap_client_init_def sample_libcoap_def sample_request_def
  is_connected_def push_frame_def pop_frame_def response_handler_def fill_response_def sample_answer_def

theorem send_takes_own_response_witness:
  "\<exists>response c'. coap_send default_timeout sample_request
      (Attempt sample_libcoap [(0, [Net_Response (sample_answer 9), Net_Response (sample_answer 1)])])
      sample_coap = Some (ok response, c') \<and>
    (\<exists>pdu \<in> {sample_answer 9, sample_answer 1}. pdu_token pdu = token_bytes 1)"
proof -
  have "token_bytes 9 \<noteq> token_bytes 1" using token_bytes_inj [of 9 1] by auto
  then have "\<exists>response c'. coap_send default_timeout sample_request
      (Attempt sample_libcoap [(0, [Net_Response (sample_answer 9), Net_Response (sample_answer 1)])])
      sample_coap = Some (ok response, c')"
    by (simp add: sample_coap_defs Let_def default_timeout_def wait_loop.simps)
  then obtain response c' where r: "coap_send default_timeout sample_request
      (Attempt sample_libcoap [(0, [Net_Response (sample_answer 9), Net_Response (sample_answer 1)])])
      sample_coap = Some (ok response, c')" by blast
  have "cc_next_token sample_coap + 1 = 1" by (simp add: sample_coap_def coap_client_init_def)
  with send_takes_own_response [OF r] r show ?thesis by (auto simp del: coap_send.simps)
qed

section \<open>A send inside a send\<close>

lemma delivers_cleared:
  assumes "delivers P c c'" "cc_current c = None"
  shows "cc_current c' = None" "cc_frames c' = cc_frames c"
proof -
  show "cc_current c' = None" using assms by (auto simp: delivers_def)
  show "cc_frames c' = cc_frames c"
    by (rule nth_equalityI) (use assms in \<open>auto simp: delivers_def\<close>)
qed

lemma send_clears_current:
  assumes "coap_send timeout request (Attempt lc turns) c = Some (r, c')" "is_connected c"
    "lc_pdu_init lc" "req_payload request = [] \<or> lc_fits lc (req_payload request)"
  shows "cc_current c' = None"
proof -
  define c2 where "c2 = push_frame (token_bytes (cc_next_token c + 1))
    (c\<lparr>cc_next_token := cc_next_token c + 1\<rparr>)"
  define c3 where "c3 = c2\<lparr>cc_out := cc_out c2 @
    [Out_Request (request_pdu lc request (cc_next_token c + 1))]\<rparr>"
  have "c' = pop_frame c2 \<or> wait_loop timeout turns c3 = Some (r, c')"
    using assms by (auto simp: Let_def c2_def c3_def split: if_splits)
  then have "\<exists>c''. c' = pop_frame c''"
    using send_delivers(2) [of timeout turns c3 r c'] by (auto simp: waited_for_def)
  then show ?thesis by (auto simp: pop_frame_def)
qed

lemma wait_cleared:
  assumes "wait_loop timeout turns c = Some (r, c')" "cc_current c = None"
    "\<not> pend_completed (last (cc_frames c))"
  shows "r = err E_Timeout ''Request timeout''"
proof -
  obtain c'' where c'': "delivers (all_responses turns) c c''"
    "if is_ok r then pend_completed (last (cc_frames c'')) \<and> r = ok (pend_response (last (cc_frames c'')))
     else r = err E_Timeout ''Request timeout'' \<and> \<not> pend_completed (last (cc_frames c''))"
    using send_delivers(2) [OF assms(1)] by (auto simp: waited_for_def)
  from delivers_cleared [OF c''(1) assms(2)] c''(2) assms(3) show ?thesis by (auto split: if_splits)
qed

text \<open>
  The send \<open>d\<close> in its loop is still unanswered in \<open>c\<close>: no frame has changed, and either
  the pointer to its response is gone, or the connection and the handler are as they were.
\<close>

definition unanswered :: "coap_client \<Rightarrow> coap_client \<Rightarrow> bool" where
  "unanswered d c \<longleftrightarrow> cc_frames c = cc_frames d \<and>
     (cc_current c = None \<or>
      cc_current c = Some (length (cc_frames d) - 1) \<and> is_connected c \<and> cc_handler_set c)"

lemma unanswered_delivers:
  "\<lbrakk>unanswered d c; cc_current c = None; delivers P c c'\<rbrakk> \<Longrightarrow> unanswered d c' \<and> cc_current c' = None"
  using delivers_cleared [of P c c'] by (simp add: unanswered_def)

text \<open>A send either stores its frame, and clears the pointer at its end, or leaves the client alone.\<close>

lemma send_pointer:
  assumes "coap_send timeout request att c = Some (r, c')"
  shows "cc_current c' = None \<or>
    cc_current c' = cc_current c \<and> is_connected c' = is_connected c \<and> cc_handler_set c' = cc_handler_set c"
proof (cases att)
  case (Attempt lc turns)
  show ?thesis
  proof (cases "is_connected c \<and> lc_pdu_init lc \<and> (req_payload request = [] \<or> lc_fits lc (req_payload request))")
    case True
    with send_clears_current [OF assms [unfolded Attempt]] show ?thesis by blast
  next
    case False
    with assms Attempt show ?thesis by (auto simp: Let_def is_connected_def split: if_splits)
  qed
qed

lemma send_unanswered:
  assumes "unanswered d c" "coap_send timeout request att c = Some (r, c')"
  shows "unanswered d c'"
  using assms(1) send_pointer [OF assms(2)] send_delivers(1) [OF assms(2)]
    unanswered_delivers [OF assms(1)] by (auto simp: unanswered_def)

lemma handler_sends_unanswered:
  "\<lbrakk>handler_sends sends c = Some c'; unanswered d c\<rbrakk> \<Longrightarrow> unanswered d c'"
proof (induction sends arbitrary: c)
  case (Cons x sends)
  then show ?case using send_unanswered
    by (cases x) (fastforce simp del: coap_send.simps split: option.splits)
qed simp

text \<open>A send of the handler that gets as far as the waiting loop takes the pointer with it.\<close>

lemma handler_sends_clears:
  assumes "handler_sends sends c = Some c'" "unanswered d c" "(request, Attempt lc turns) \<in> set sends"
    "lc_pdu_init lc" "req_payload request = [] \<or> lc_fits lc (req_payload request)"
  shows "unanswered d c' \<and> cc_current c' = None"
  using assms(1-3)
proof (induction sends arbitrary: c)
  case (Cons x sends)
  obtain q att where x: "x = (q, att)" by (cases x)
  obtain r c1 where s: "coap_send default_timeout q att c = Some (r, c1)" "handler_sends sends c1 = Some c'"
    using Cons.prems(1) x by (auto simp del: coap_send.simps split: option.splits)
  have u: "unanswered d c1" by (rule send_unanswered [OF Cons.prems(2) s(1)])
  show ?case
  proof (cases "(request, Attempt lc turns) \<in> set sends")
    case True
    with Cons.IH s(2) u show ?thesis by blast
  next
    case False
    then have "q = request" "att = Attempt lc turns" using Cons.prems(3) x by auto
    then have "cc_current c1 = None"
      using Cons.prems(2) send_clears_current [of default_timeout request lc turns c r c1] s(1) assms(4,5)
        send_delivers(1) [OF s(1)] delivers_cleared(1) [of "{}" c c1]
      by (auto simp: unanswered_def)
    with u send_delivers(4) [OF s(2)] show ?thesis by (blast dest: unanswered_delivers)
  qed
qed simp

lemma io_process_append:
  "io_process (xs @ ys) c = (case io_process xs c of None \<Rightarrow> None | Some c' \<Rightarrow> io_process ys c')"
proof (induction xs arbitrary: c)
  case (Cons x xs)
  then show ?case by (cases x) (auto split: option.split simp del: handler_sends.simps)
qed simp

text \<open>Events that leave a send unanswered: no response to it, and no change of the session.\<close>

fun unrelated :: "bytes \<Rightarrow> net_event \<Rightarrow> bool" where
  "unrelated token (Net_Response pdu) \<longleftrightarrow> pdu_token pdu \<noteq> token"
| "unrelated token (Net_Session event) \<longleftrightarrow> False"
| "unrelated token (Net_Request lc pdu sends response) \<longleftrightarrow> True"

lemma emit_reply_unanswered: "unanswered d (emit_reply r c) = unanswered d c"
  by (simp add: unanswered_def emit_reply_def is_connected_def)

lemma io_process_unanswered:
  assumes "io_process events c = Some c'" "unanswered d c" "cc_frames d \<noteq> []"
    "list_all (unrelated (pend_token (last (cc_frames d)))) events"
  shows "unanswered d c'"
  using assms(1,2,4)
proof (induction events arbitrary: c)
  case (Cons x events)
  show ?case
  proof (cases x)
    case (Net_Response pdu)
    have "response_handler pdu c = c"
      using Cons.prems(2,3) Net_Response assms(3)
      by (auto simp: unanswered_def response_handler_def last_conv_nth split: option.split)
    with Cons Net_Response show ?thesis by simp
  next
    case (Net_Request lc pdu sends response)
    then obtain c1 y where "unanswered d c1" "io_process events (emit_reply y c1) = Some c'"
      using Cons.prems(1,2)
      by (auto simp del: handler_sends.simps split: if_splits option.splits dest: handler_sends_unanswered)
    with Cons.IH [of "emit_reply y c1"] Cons.prems(3) show ?thesis by (simp add: emit_reply_unanswered)
  qed (use Cons in simp)
qed simp

lemma wait_unanswered:
  assumes "wait_loop timeout (before @ turns) c = Some (r, c')" "unanswered d c"
    "cc_frames d \<noteq> []" "\<not> pend_completed (last (cc_frames d))"
    "\<forall>(e, events) \<in> set before. list_all (unrelated (pend_token (last (cc_frames d)))) events"
    "\<And>c. unanswered d c \<Longrightarrow> wait_loop timeout turns c = Some (r, c') \<Longrightarrow> r = err E_Timeout ''Request timeout''"
  shows "r = err E_Timeout ''Request timeout''"
  using assms(1,2,5)
proof (induction before arbitrary: c)
  case Nil
  with assms(6) show ?case by simp
next
  case (Cons x before)
  obtain e events where x: "x = (e, events)" by (cases x)
  define c1 where "c1 = c\<lparr>cc_io_waits := cc_io_waits c @ [io_wait timeout e]\<rparr>"
  have u: "unanswered d c1" "\<not> pend_completed (last (cc_frames c))"
    using Cons.prems(2) assms(4) by (auto simp: unanswered_def c1_def is_connected_def)
  show ?case
  proof (cases "sint e \<ge> sint timeout * 1000000")
    case True
    with Cons.prems(1) u(2) x show ?thesis by (simp add: wait_loop.simps [of _ "_ # _"])
  next
    case False
    then obtain c2 where c2: "io_process events c1 = Some c2" "wait_loop timeout (before @ turns) c2 = Some (r, c')"
      using Cons.prems(1) u(2) x
      by (auto simp: wait_loop.simps [of _ "_ # _"] c1_def split: option.splits)
    have "unanswered d c2"
      using io_process_unanswered [OF c2(1) u(1) assms(3)] Cons.prems(3) x by auto
    with Cons.IH c2(2) Cons.prems(3) show ?thesis by auto
  qed
qed

text \<open>C21: when a request arrives during a send, before its response and while the session stays up, and
  the handler of that request makes a send that reaches its waiting loop, the outer send can only time
  out, whatever the server answers afterwards: the inner send clears the pointer to the outer one's
  response. The turns of the loop before may bring anything else, other requests whose handlers send
  included.\<close>

theorem nested_send_loses_response:
  assumes "coap_send timeout request (Attempt lc (before @ (elapsed, early @
      Net_Request req_lc pdu sends response # events) # turns)) c = Some (r, c')"
    "is_connected c" "cc_handler_set c" "request_of_pdu req_lc pdu \<noteq> None"
    "lc_pdu_init lc" "lc_send lc" "req_payload request = [] \<or> lc_fits lc (req_payload request)"
    "(inner, Attempt inner_lc inner_turns) \<in> set sends" "lc_pdu_init inner_lc"
    "req_payload inner = [] \<or> lc_fits inner_lc (req_payload inner)"
    "\<forall>(_, es) \<in> set before. list_all (unrelated (token_bytes (cc_next_token c + 1))) es"
    "list_all (unrelated (token_bytes (cc_next_token c + 1))) early"
  shows "r = err E_Timeout ''Request timeout''"
proof -
  define d where "d = (push_frame (token_bytes (cc_next_token c + 1))
      (c\<lparr>cc_next_token := cc_next_token c + 1\<rparr>))
    \<lparr>cc_out := cc_out c @ [Out_Request (request_pdu lc request (cc_next_token c + 1))]\<rparr>"
  have d: "cc_frames d \<noteq> []" "\<not> pend_completed (last (cc_frames d))"
      "pend_token (last (cc_frames d)) = token_bytes (cc_next_token c + 1)" "unanswered d d"
    using assms(2,3) by (simp_all add: d_def push_frame_def unanswered_def is_connected_def)
  have wait: "wait_loop timeout (before @ (elapsed, early @ Net_Request req_lc pdu sends response # events) # turns) d =
      Some (r, c')"
    using assms by (auto simp: Let_def d_def push_frame_def)
  show ?thesis
  proof (rule wait_unanswered [OF wait d(4,1,2)])
    show "\<forall>(e, es) \<in> set before. list_all (unrelated (pend_token (last (cc_frames d)))) es"
      using assms(11) d(3) by simp
    fix x
    assume x: "unanswered d x"
      "wait_loop timeout ((elapsed, early @ Net_Request req_lc pdu sends response # events) # turns) x = Some (r, c')"
    define y where "y = x\<lparr>cc_io_waits := cc_io_waits x @ [io_wait timeout elapsed]\<rparr>"
    have y: "unanswered d y" "\<not> pend_completed (last (cc_frames x))"
      using x(1) d(2) by (auto simp: unanswered_def y_def is_connected_def)
    show "r = err E_Timeout ''Request timeout''"
    proof (cases "sint elapsed \<ge> sint timeout * 1000000")
      case True
      with x(2) y(2) show ?thesis by (simp add: wait_loop.simps [of _ "_ # _"])
    next
      case False
      then obtain z where z: "io_process (early @ Net_Request req_lc pdu sends response # events) y = Some z"
        "wait_loop timeout turns z = Some (r, c')"
        using x(2) y(2) by (auto simp: wait_loop.simps [of _ "_ # _"] y_def split: option.splits)
      then obtain e where e: "io_process early y = Some e"
        "io_process (Net_Request req_lc pdu sends response # events) e = Some z"
        by (auto simp: io_process_append simp del: io_process.simps split: option.splits)
      have u: "unanswered d e"
        using io_process_unanswered [OF e(1) y(1) d(1)] assms(12) d(3) by simp
      have "unanswered d z \<and> cc_current z = None"
      proof (cases "cc_current e = None")
        case True
        with u send_delivers(3) [OF e(2)] show ?thesis by (blast dest: unanswered_delivers)
      next
        case False
        then have "cc_handler_set e" using u by (auto simp: unanswered_def)
        then obtain f q where f: "handler_sends sends e = Some f" "io_process events (emit_reply q f) = Some z"
          using e(2) assms(4) by (auto simp del: handler_sends.simps split: option.splits)
        have "unanswered d (emit_reply q f)" "cc_current (emit_reply q f) = None"
          using handler_sends_clears [OF f(1) u assms(8-10)] by (simp_all add: emit_reply_unanswered)
        with send_delivers(3) [OF f(2)] show ?thesis by (blast dest: unanswered_delivers)
      qed
      with wait_cleared [OF z(2)] d(2) show ?thesis by (simp add: unanswered_def)
    qed
  qed
qed

theorem nested_send_loses_response_witness:
  "\<exists>c'. coap_send default_timeout sample_request (Attempt sample_libcoap
     [(0, [Net_Response (sample_answer 9)]), (0, [Net_Request sample_libcoap \<lparr>pdu_code = 2, pdu_token = [], pdu_options = [], pdu_payload = []\<rparr>
        [(sample_request, Attempt sample_libcoap [(0, [Net_Response (sample_answer 2)]), (0, [])])]
        (respond C_Changed)]), (0, [Net_Response (sample_answer 1)]), (5000000000, [])]) sample_coap =
     Some (err E_Timeout ''Request timeout'', c')"
proof -
  define pdu where "pdu = \<lparr>pdu_code = 2, pdu_token = [], pdu_options = [], pdu_payload = []\<rparr>"
  have "request_of_pdu sample_libcoap pdu \<noteq> None"
    by (simp add: pdu_def request_of_pdu_def method_of_code_def)
  moreover have "(2 :: u64) \<noteq> 1" by simp
  then have "token_bytes 2 \<noteq> token_bytes 1" using token_bytes_inj [of 2 1] by blast
  ultimately have "\<exists>r c'. coap_send default_timeout sample_request (Attempt sample_libcoap
     [(0, [Net_Response (sample_answer 9)]), (0, [Net_Request sample_libcoap pdu
        [(sample_request, Attempt sample_libcoap [(0, [Net_Response (sample_answer 2)]), (0, [])])]
        (respond C_Changed)]), (0, [Net_Response (sample_answer 1)]), (5000000000, [])]) sample_coap =
     Some (r, c')"
    by (auto simp: sample_coap_defs Let_def default_timeout_def wait_loop.simps emit_reply_def
        pdu_def request_of_pdu_def method_of_code_def)
  then obtain r c' where s: "coap_send default_timeout sample_request (Attempt sample_libcoap
     [(0, [Net_Response (sample_answer 9)]), (0, [Net_Request sample_libcoap pdu
        [(sample_request, Attempt sample_libcoap [(0, [Net_Response (sample_answer 2)]), (0, [])])]
        (respond C_Changed)]), (0, [Net_Response (sample_answer 1)]), (5000000000, [])]) sample_coap =
     Some (r, c')" by blast
  have split: "coap_send default_timeout sample_request (Attempt sample_libcoap
     ([(0, [Net_Response (sample_answer 9)])] @ (0, [] @ Net_Request sample_libcoap pdu
        [(sample_request, Attempt sample_libcoap [(0, [Net_Response (sample_answer 2)]), (0, [])])]
        (respond C_Changed) # []) # [(0, [Net_Response (sample_answer 1)]), (5000000000, [])])) sample_coap =
     Some (r, c')"
    using s by (simp only: append.simps)
  have "(9 :: u64) \<noteq> 1" by simp
  then have "token_bytes 9 \<noteq> token_bytes 1" using token_bytes_inj [of 9 1] by blast
  then have "r = err E_Timeout ''Request timeout''"
    by (intro nested_send_loses_response [OF split, where inner = sample_request and
        inner_lc = sample_libcoap and inner_turns = "[(0, [Net_Response (sample_answer 2)]), (0, [])]"])
      (simp_all add: sample_coap_def coap_client_init_def sample_libcoap_def sample_request_def
        is_connected_def pdu_def request_of_pdu_def method_of_code_def sample_answer_def)
  with s show ?thesis unfolding pdu_def by blast
qed

section \<open>Sends return\<close>

text \<open>
  A script in which every waiting loop reads a clock past its deadline at some turn, nested ones
  included. In the model every call of \<open>coap_io_process\<close> returns; a wait of zero is the one that
  libcoap may turn into a wait without limit.
\<close>

fun attempt_timed :: "i64 \<Rightarrow> attempt \<Rightarrow> bool"
  and turns_timed :: "(i64 \<times> net_event list) list \<Rightarrow> bool"
  and events_timed :: "net_event list \<Rightarrow> bool"
  and sends_timed :: "(coap_request \<times> attempt) list \<Rightarrow> bool" where
  "attempt_timed timeout (Attempt lc turns) \<longleftrightarrow>
     list_ex (\<lambda>(elapsed, _). sint timeout * 1000000 \<le> sint elapsed) turns \<and> turns_timed turns"
| "turns_timed [] \<longleftrightarrow> True"
| "turns_timed ((elapsed, events) # turns) \<longleftrightarrow> events_timed events \<and> turns_timed turns"
| "events_timed [] \<longleftrightarrow> True"
| "events_timed (Net_Response pdu # events) \<longleftrightarrow> events_timed events"
| "events_timed (Net_Session event # events) \<longleftrightarrow> events_timed events"
| "events_timed (Net_Request lc pdu sends response # events) \<longleftrightarrow>
     sends_timed sends \<and> events_timed events"
| "sends_timed [] \<longleftrightarrow> True"
| "sends_timed ((request, att) # sends) \<longleftrightarrow> attempt_timed default_timeout att \<and> sends_timed sends"

lemma timed_returns:
  shows "attempt_timed timeout att \<Longrightarrow> coap_send timeout request att c \<noteq> None"
    and "list_ex (\<lambda>(elapsed, _). sint timeout' * 1000000 \<le> sint elapsed) turns \<Longrightarrow> turns_timed turns \<Longrightarrow>
      wait_loop timeout' turns d \<noteq> None"
    and "events_timed events \<Longrightarrow> io_process events e \<noteq> None"
    and "sends_timed sends \<Longrightarrow> handler_sends sends s \<noteq> None"
proof (induction timeout request att c and timeout' turns d and events e and sends s
    rule: coap_send_wait_loop_io_process_handler_sends.induct)
  case (1 timeout request lc turns c)
  then show ?case by (auto simp: Let_def)
next
  case (2 timeout turns c)
  show ?case
  proof (cases "pend_completed (last (cc_frames c))")
    case True
    then show ?thesis by (subst wait_loop.simps) simp
  next
    case False
    obtain elapsed events turns' where t: "turns = (elapsed, events) # turns'"
      using "2.prems"(1) by (cases turns) auto
    show ?thesis
    proof (cases "sint timeout * 1000000 \<le> sint elapsed")
      case True
      with False t show ?thesis by (subst wait_loop.simps) simp
    next
      case early: False
      obtain c' where c': "io_process events
          (c\<lparr>cc_io_waits := cc_io_waits c @ [io_wait timeout elapsed]\<rparr>) = Some c'"
        using "2.IH"(1) [OF False t refl] early "2.prems"(2) t by auto
      have "wait_loop timeout turns' c' \<noteq> None"
        using "2.IH"(2) [OF False t refl _ c'] early "2.prems" t by auto
      with False early t c' show ?thesis by (subst wait_loop.simps) simp
    qed
  qed
next
  case (6 lc pdu sends response events c)
  then show ?case by (auto split: option.splits)
next
  case (8 request att sends c)
  then show ?case by (auto split: option.splits)
qed auto

text \<open>A send returns once its loop has read a clock past its timeout, whatever arrives before, when the
  sends of the handlers it runs do and every call of \<open>coap_io_process\<close> returns.\<close>

theorem send_returns:
  assumes "attempt_timed timeout att"
  shows "\<exists>r c'. coap_send timeout request att c = Some (r, c')"
  using timed_returns(1) [OF assms] by (metis not_None_eq prod.collapse)

theorem send_returns_witness:
  "\<exists>r c'. coap_send default_timeout sample_request (Attempt sample_libcoap [(0, []), (5000000001, [])])
     sample_coap = Some (r, c')"
  by (rule send_returns) (simp add: default_timeout_def)

section \<open>How long a send lets libcoap wait\<close>

text \<open>The time that the waiting loop hands to libcoap is at most 100 ms and at most what is left of
  the timeout, and it is zero exactly in the last millisecond before the deadline.\<close>

lemma send_io_wait:
  assumes "0 \<le> sint elapsed" "sint elapsed < sint timeout * 1000000"
  shows "int (unat (io_wait timeout elapsed)) * 1000000 \<le> sint timeout * 1000000 - sint elapsed \<and>
    unat (io_wait timeout elapsed) \<le> 100 \<and>
    (io_wait timeout elapsed = 0 \<longleftrightarrow> sint timeout * 1000000 - sint elapsed < 1000000)"
proof -
  define left where "left = sint timeout * 1000000 - sint elapsed"
  define w where "w = min (left div 1000000) 100"
  have w: "0 \<le> w" "w \<le> 100" "w * 1000000 \<le> left" "w = 0 \<longleftrightarrow> left < 1000000"
    using assms by (auto simp: w_def left_def min_def)
  have "int (unat (word_of_int w :: u32)) = w"
    using w(1,2) by (simp add: unsigned_of_int take_bit_int_eq_self)
  moreover have "(word_of_int w :: u32) = 0 \<longleftrightarrow> unat (word_of_int w :: u32) = 0"
    by (simp add: unat_eq_0)
  ultimately show ?thesis using w unfolding io_wait_def left_def [symmetric] w_def [symmetric] by linarith
qed

text \<open>The turns of a loop in which no request arrives.\<close>

fun no_request :: "net_event \<Rightarrow> bool" where
  "no_request (Net_Request lc pdu sends response) \<longleftrightarrow> False"
| "no_request _ \<longleftrightarrow> True"

lemma io_process_waits:
  "\<lbrakk>io_process events c = Some c'; list_all no_request events\<rbrakk> \<Longrightarrow> cc_io_waits c' = cc_io_waits c"
proof (induction events arbitrary: c)
  case (Cons x events)
  have "cc_io_waits (response_handler pdu c) = cc_io_waits c" for pdu
    by (simp add: response_handler_def split: option.split)
  moreover have "cc_io_waits (event_handler event c) = cc_io_waits c" for event
    by (simp add: event_handler_def split: option.split coap_event.split)
  ultimately show ?case using Cons by (cases x) auto
qed simp

definition before_deadline :: "i64 \<Rightarrow> i64 \<Rightarrow> bool" where
  "before_deadline timeout elapsed \<longleftrightarrow> sint elapsed < sint timeout * 1000000"

lemma wait_loop_waits:
  assumes "wait_loop timeout turns c = Some (r, c')" "list_all (\<lambda>(_, events). list_all no_request events) turns"
  shows "\<exists>k \<le> length turns. list_all (before_deadline timeout) (map fst (take k turns)) \<and>
    cc_io_waits c' = cc_io_waits c @ map (io_wait timeout) (map fst (take k turns))"
  using assms
proof (induction turns arbitrary: c)
  case Nil
  then show ?case by (auto simp: wait_loop.simps [of _ "[]"] pop_frame_def split: if_splits)
next
  case (Cons x turns)
  obtain e events where x: "x = (e, events)" by (cases x)
  show ?case
  proof (cases "pend_completed (last (cc_frames c)) \<or> sint e \<ge> sint timeout * 1000000")
    case True
    with Cons.prems(1) x have "cc_io_waits c' = cc_io_waits c"
      by (auto simp: wait_loop.simps [of _ "_ # _"] pop_frame_def split: if_splits)
    then show ?thesis by (intro exI [of _ 0]) simp
  next
    case False
    then obtain c1 where c1: "io_process events (c\<lparr>cc_io_waits := cc_io_waits c @ [io_wait timeout e]\<rparr>) = Some c1"
      "wait_loop timeout turns c1 = Some (r, c')"
      using Cons.prems(1) x by (auto simp: wait_loop.simps [of _ "_ # _"] split: option.splits)
    have "cc_io_waits c1 = cc_io_waits c @ [io_wait timeout e]"
      using io_process_waits [OF c1(1)] Cons.prems(2) x by simp
    moreover obtain k where "k \<le> length turns" "list_all (before_deadline timeout) (map fst (take k turns))"
      "cc_io_waits c' = cc_io_waits c1 @ map (io_wait timeout) (map fst (take k turns))"
      using Cons.IH [OF c1(2)] Cons.prems(2) by auto
    moreover have "before_deadline timeout e" using False by (simp add: before_deadline_def)
    ultimately show ?thesis using x by (intro exI [of _ "Suc k"]) simp
  qed
qed

text \<open>C22: A send during which no request arrives lets libcoap wait once per turn of its loop, in order,
  and only before its deadline; the wait is at most 100 ms and at most what is left of the timeout,
  save that it is zero in the last millisecond, and only there: the value by which libcoap waits
  without a limit.\<close>

theorem send_waits:
  assumes "coap_send timeout request (Attempt lc turns) c = Some (r, c')"
    "list_all (\<lambda>(_, events). list_all no_request events) turns"
    "list_all (\<lambda>(elapsed, _). 0 \<le> sint elapsed) turns"
  shows "\<exists>k \<le> length turns. cc_io_waits c' = cc_io_waits c @ map (\<lambda>(elapsed, _). io_wait timeout elapsed) (take k turns) \<and>
    list_all (\<lambda>(elapsed, _).
      let left = sint timeout * 1000000 - sint elapsed; w = io_wait timeout elapsed
      in 0 < left \<and> int (unat w) * 1000000 \<le> left \<and> unat w \<le> 100 \<and> (w = 0 \<longleftrightarrow> left < 1000000)) (take k turns)"
proof -
  define d where "d = (push_frame (token_bytes (cc_next_token c + 1))
      (c\<lparr>cc_next_token := cc_next_token c + 1\<rparr>))
    \<lparr>cc_out := cc_out c @ [Out_Request (request_pdu lc request (cc_next_token c + 1))]\<rparr>"
  consider "cc_io_waits c' = cc_io_waits c" | "wait_loop timeout turns d = Some (r, c')"
    using assms(1) by (auto simp: Let_def d_def push_frame_def pop_frame_def split: if_splits)
  then obtain k where k: "k \<le> length turns" "list_all (before_deadline timeout) (map fst (take k turns))"
    "cc_io_waits c' = cc_io_waits c @ map (io_wait timeout) (map fst (take k turns))"
  proof cases
    case 1
    with that [of 0] show ?thesis by simp
  next
    case 2
    moreover have "cc_io_waits d = cc_io_waits c" by (simp add: d_def push_frame_def)
    ultimately show ?thesis using wait_loop_waits [OF 2 assms(2)] that by auto
  qed
  have turn: "0 \<le> sint e \<and> sint e < sint timeout * 1000000" if "(e, events) \<in> set (take k turns)" for e events
    using that k(2) assms(3) by (fastforce simp: list_all_iff before_deadline_def dest: in_set_takeD)
  have "map (io_wait timeout) (map fst (take k turns)) = map (\<lambda>(e, _). io_wait timeout e) (take k turns)"
    by (simp add: case_prod_beta)
  moreover have "list_all (\<lambda>(elapsed, _).
      let left = sint timeout * 1000000 - sint elapsed; w = io_wait timeout elapsed
      in 0 < left \<and> int (unat w) * 1000000 \<le> left \<and> unat w \<le> 100 \<and> (w = 0 \<longleftrightarrow> left < 1000000)) (take k turns)"
    unfolding list_all_iff Let_def
  proof
    fix x
    assume x: "x \<in> set (take k turns)"
    obtain e events where e: "x = (e, events)" by (cases x)
    from turn x e send_io_wait [of e timeout]
    show "case x of (elapsed, _) \<Rightarrow> 0 < sint timeout * 1000000 - sint elapsed \<and>
        int (unat (io_wait timeout elapsed)) * 1000000 \<le> sint timeout * 1000000 - sint elapsed \<and>
        unat (io_wait timeout elapsed) \<le> 100 \<and>
        (io_wait timeout elapsed = 0 \<longleftrightarrow> sint timeout * 1000000 - sint elapsed < 1000000)"
      by auto
  qed
  ultimately show ?thesis using k(1,3) by auto
qed

theorem send_waits_witness:
  "\<exists>r c'. coap_send default_timeout sample_request
     (Attempt sample_libcoap [(4999999999, []), (5000000000, [])]) sample_coap = Some (r, c') \<and>
   (\<exists>k \<le> 2. length (cc_io_waits c') = k)"
proof -
  let ?turns = "[(4999999999, []), (5000000000, [])] :: (i64 \<times> net_event list) list"
  have "attempt_timed default_timeout (Attempt sample_libcoap ?turns)" by (simp add: default_timeout_def)
  then obtain r c' where s: "coap_send default_timeout sample_request (Attempt sample_libcoap ?turns) sample_coap =
      Some (r, c')" using send_returns by blast
  have "cc_io_waits sample_coap = []" by (simp add: sample_coap_def coap_client_init_def)
  with send_waits [OF s] s show ?thesis by (force simp del: coap_send.simps)
qed

end
