(* ===== verification/Coap_Paths.thy ===== *)
theory Coap_Paths
  imports Coap_Exchange
begin

text \<open>
  What becomes of paths on the way through the options of a PDU: the segments of a request's path,
  and the path of an incoming request.
\<close>

section \<open>Paths and options\<close>

definition path_segment :: "string \<Rightarrow> bool" where
  "path_segment s \<longleftrightarrow> s \<noteq> [] \<and> CHR ''/'' \<notin> set s"

lemma path_loop_slash [simp]: "path_loop (CHR ''/'' # s) = path_loop s"
  by (subst path_loop.simps) simp

lemma path_loop_Nil [simp]: "path_loop [] = []"
  by (subst path_loop.simps) simp

lemma path_loop_segment:
  assumes "path_segment s" "rest = [] \<or> (\<exists>r. rest = CHR ''/'' # r)"
  shows "path_loop (s @ rest) = s # path_loop rest"
proof -
  obtain c t where s: "s = c # t" "c \<noteq> CHR ''/''" using assms(1) by (cases s) (auto simp: path_segment_def)
  have all: "\<forall>x \<in> set s. x \<noteq> CHR ''/''" using assms(1) by (auto simp: path_segment_def)
  have "takeWhile (\<lambda>c. c \<noteq> CHR ''/'') (s @ rest) = s" "dropWhile (\<lambda>c. c \<noteq> CHR ''/'') (s @ rest) = rest"
  proof -
    have "takeWhile (\<lambda>c. c \<noteq> CHR ''/'') (s @ rest) = s @ takeWhile (\<lambda>c. c \<noteq> CHR ''/'') rest"
      by (rule takeWhile_append2) (use all in blast)
    moreover have "dropWhile (\<lambda>c. c \<noteq> CHR ''/'') (s @ rest) = dropWhile (\<lambda>c. c \<noteq> CHR ''/'') rest"
      by (rule dropWhile_append2) (use all in blast)
    moreover have "takeWhile (\<lambda>c. c \<noteq> CHR ''/'') rest = []" "dropWhile (\<lambda>c. c \<noteq> CHR ''/'') rest = rest"
      using assms(2) by (elim disjE exE; simp)+
    ultimately show "takeWhile (\<lambda>c. c \<noteq> CHR ''/'') (s @ rest) = s"
      "dropWhile (\<lambda>c. c \<noteq> CHR ''/'') (s @ rest) = rest" by simp_all
  qed
  moreover have "path_loop (s @ rest) = takeWhile (\<lambda>c. c \<noteq> CHR ''/'') (s @ rest) #
      path_loop (dropWhile (\<lambda>c. c \<noteq> CHR ''/'') (s @ rest))"
    by (subst path_loop.simps) (simp add: s)
  ultimately show ?thesis by (simp only:)
qed

lemma path_loop_join:
  "list_all path_segment ss \<Longrightarrow> path_loop (join_with ''/'' ss) = ss"
proof (induction ss)
  case (Cons s ss)
  show ?case
  proof (cases ss)
    case Nil
    have "path_loop (s @ []) = s # path_loop []"
      using Cons.prems by (intro path_loop_segment) simp_all
    then show ?thesis by (simp add: Nil)
  next
    case ss: (Cons t ts)
    have "path_loop (s @ CHR ''/'' # join_with ''/'' ss) = s # path_loop (CHR ''/'' # join_with ''/'' ss)"
      by (rule path_loop_segment) (use Cons.prems in simp_all)
    with Cons ss show ?thesis by simp
  qed
qed simp

lemma path_loop_segments: "list_all path_segment (path_loop s)"
proof (induction s rule: path_loop.induct)
  case (1 s)
  show ?case
  proof (cases s)
    case (Cons c rest)
    show ?thesis
    proof (cases "c = CHR ''/''")
      case False
      then have "path_segment (takeWhile (\<lambda>c. c \<noteq> CHR ''/'') s)"
        using Cons by (auto simp: path_segment_def dest: set_takeWhileD)
      then show ?thesis
        using 1(2) [OF Cons False] Cons False path_loop.simps [of s] by simp
    qed (use 1(1) Cons in simp)
  qed simp
qed

lemma join_with_prefix:
  "join_with ''/'' ((path @ CHR ''/'' # s) # ss) = path @ CHR ''/'' # join_with ''/'' (s # ss)"
  by (cases ss) simp_all

lemma request_options_path:
  "path \<noteq> [] \<Longrightarrow> request_options_loop lc (map (\<lambda>s. (option_uri_path, bytes_of_string s)) ss) path format =
     (join_with ''/'' (path # ss), format)"
  by (induction ss arbitrary: path) (simp_all add: join_with_prefix)

lemma path_segment_show [simp]: "path_segment (show_u16 w)"
  by (simp add: path_segment_def)

definition path_part :: "(u16, 'a) strong_type option \<Rightarrow> string list" where
  "path_part part = (case part of None \<Rightarrow> [] | Some i \<Rightarrow> [show_u16 (strong_value i)])"

lemma to_string_segments:
  assumes "prefix_closed p"
  shows "\<exists>s ss. to_string p = ''/'' @ join_with ''/'' (s # ss) \<and> list_all path_segment (s # ss)"
proof -
  have "to_string p = ''/'' @ join_with ''/'' (show_u16 (strong_value (object_id p)) #
      path_part (instance_id p) @ path_part (resource_id p) @ path_part (resource_instance_id p))"
    using assms by (auto simp: to_string_def prefix_closed_def path_part_def split: option.split)
  moreover have "list_all path_segment (path_part (instance_id p))"
    "list_all path_segment (path_part (resource_id p))" "list_all path_segment (path_part (resource_instance_id p))"
    by (auto simp: path_part_def split: option.split)
  ultimately show ?thesis by (metis list_all_append list.pred_inject(2) path_segment_show)
qed

lemma path_request:
  assumes "prefix_closed p" "pdu_code pdu = method_code m"
    "pdu_options pdu = map (\<lambda>s. (option_uri_path, bytes_of_string s)) (path_loop (to_string p))"
  shows "\<exists>request. request_of_pdu lc pdu = Some request \<and> req_method request = m \<and>
    req_uri_path request = to_string p \<and> parse (req_uri_path request) = Some p \<and>
    req_payload request = pdu_payload pdu"
proof -
  obtain s ss where p: "to_string p = ''/'' @ join_with ''/'' (s # ss)" "list_all path_segment (s # ss)"
    using to_string_segments [OF assms(1)] by blast
  then have "path_loop (to_string p) = s # ss" by (simp add: path_loop_join)
  moreover have "s \<noteq> []" using p(2) by (simp add: path_segment_def)
  ultimately have "request_options_loop lc (pdu_options pdu) [] F_TlvLwm2m = (join_with ''/'' (s # ss), F_TlvLwm2m)"
    using request_options_path [of s] by (simp add: assms(3))
  moreover have "join_with ''/'' (s # ss) \<noteq> []" using \<open>s \<noteq> []\<close> by (cases ss) simp_all
  moreover have "method_of_code (method_code m) = Some m"
    by (cases m) (simp_all add: method_of_code_def method_code_def)
  ultimately show ?thesis
    using assms(2) p(1) parse_to_string [OF assms(1)] by (simp add: request_of_pdu_def)
qed

text \<open>C25: the options of a request's path are its non-empty segments, and an incoming request with
  these options is handled under the same path without repeated or trailing slashes; so the path of
  an object, an instance or a resource arrives as it was printed and parses to itself.\<close>

theorem object_path_over_options:
  assumes "prefix_closed p" "pdu_code pdu = method_code m"
    "pdu_options pdu = map (\<lambda>s. (option_uri_path, bytes_of_string s)) (path_loop (to_string p))"
  shows "\<exists>request. request_of_pdu lc pdu = Some request \<and> req_method request = m \<and>
    req_uri_path request = to_string p \<and> parse (req_uri_path request) = Some p \<and>
    req_payload request = pdu_payload pdu"
  using assms by (rule path_request)

theorem object_path_over_options_witness:
  "\<exists>request. request_of_pdu sample_libcoap \<lparr>pdu_code = method_code Get, pdu_token = [],
     pdu_options = map (\<lambda>s. (option_uri_path, bytes_of_string s))
       (path_loop (to_string (path_resource oid_Device (Strong 0) (Strong 1)))), pdu_payload = []\<rparr> =
     Some request \<and> req_uri_path request = to_string (path_resource oid_Device (Strong 0) (Strong 1))"
proof -
  have "prefix_closed (path_resource oid_Device (Strong 0) (Strong 1))"
    by (simp add: prefix_closed_def path_resource_def)
  from object_path_over_options [OF this, of "\<lparr>pdu_code = method_code Get, pdu_token = [],
     pdu_options = map (\<lambda>s. (option_uri_path, bytes_of_string s))
       (path_loop (to_string (path_resource oid_Device (Strong 0) (Strong 1)))), pdu_payload = []\<rparr>" Get]
  show ?thesis by auto
qed

end
