(* ===== verification/Client_Transport.thy ===== *)
theory Client_Transport
  imports Client_Observer Coap_Paths
begin

text \<open>
  The client over the CoAP client: the requests that the session sends, as the options on the
  wire. How a URI splits is libcoap's; what the client relies on is the hypothesis
  \<open>splits_local\<close>.
\<close>

section \<open>Splitting a local URI\<close>

text \<open>
  \<open>coap_split_uri\<close> on a URI with a host: the path without its leading slash up to the
  question mark, then the query.
\<close>

definition splits_local :: "libcoap \<Rightarrow> bool" where
  "splits_local lc \<longleftrightarrow>
     (\<forall>path query. CHR ''?'' \<notin> set path \<longrightarrow>
        (\<exists>uri. lc_split_uri lc (''coap://localhost/'' @ path) = Some uri \<and> uri_path uri = path \<and>
           uri_query uri = []) \<and>
        (\<exists>uri. lc_split_uri lc (''coap://localhost/'' @ path @ ''?'' @ query) = Some uri \<and>
           uri_path uri = path \<and> uri_query uri = query))"

lemma splits_localD:
  assumes "splits_local lc" "CHR ''?'' \<notin> set path"
  shows "\<exists>uri. lc_split_uri lc (''coap://localhost/'' @ path) = Some uri \<and> uri_path uri = path \<and>
      uri_query uri = []"
    "\<exists>uri. lc_split_uri lc (''coap://localhost/'' @ path @ ''?'' @ query) = Some uri \<and>
      uri_path uri = path \<and> uri_query uri = query"
  using assms unfolding splits_local_def by blast+

lemma sample_splits: "splits_local sample_libcoap"
proof -
  have f: "takeWhile (\<lambda>c. c \<noteq> CHR ''?'') path = path" "dropWhile (\<lambda>c. c \<noteq> CHR ''?'') path = []"
    "takeWhile (\<lambda>c. c \<noteq> CHR ''?'') (path @ CHR ''?'' # query) = path"
    "dropWhile (\<lambda>c. c \<noteq> CHR ''?'') (path @ CHR ''?'' # query) = CHR ''?'' # query"
    if "CHR ''?'' \<notin> set path" for path query
    using that by (induction path) auto
  show ?thesis by (simp add: splits_local_def sample_libcoap_def Let_def f)
qed

definition path_options :: "string list \<Rightarrow> coap_options" where
  "path_options ss = map (\<lambda>s. (option_uri_path, bytes_of_string s)) ss"

definition query_options :: "string list \<Rightarrow> coap_options" where
  "query_options ss = map (\<lambda>s. (option_uri_query, bytes_of_string s)) ss"

lemma query_loop_Nil [simp]: "query_loop [] = []"
  by (subst query_loop.simps) simp

lemma uri_options_path:
  assumes "splits_local lc" "CHR ''?'' \<notin> set path"
  shows "uri_options lc (''/'' @ path) = path_options (path_loop path)"
proof -
  obtain uri where "lc_split_uri lc (''coap://localhost/'' @ path) = Some uri" "uri_path uri = path"
    "uri_query uri = []" using splits_localD(1) [OF assms] by blast
  then show ?thesis by (simp add: uri_options_def path_options_def)
qed

lemma uri_options_query:
  assumes "splits_local lc" "CHR ''?'' \<notin> set path"
  shows "uri_options lc (''/'' @ path @ ''?'' @ query) =
    path_options (path_loop path) @ query_options (query_loop query)"
proof -
  obtain uri where "lc_split_uri lc (''coap://localhost/'' @ path @ ''?'' @ query) = Some uri"
    "uri_path uri = path" "uri_query uri = query" using splits_localD(2) [OF assms] by blast
  then show ?thesis by (simp add: uri_options_def path_options_def query_options_def)
qed

section \<open>Location\<close>

definition location_segment :: "string \<Rightarrow> bool" where
  "location_segment s \<longleftrightarrow> path_segment s \<and> CHR ''?'' \<notin> set s"

lemma location_uri_options:
  assumes "splits_local lc" "location_segments (resp_options response) = ss" "ss \<noteq> []"
    "list_all location_segment ss"
  shows "uri_options lc (get_location_path response) = path_options ss"
proof -
  obtain s rest where ss: "ss = s # rest" using assms(3) by (cases ss) auto
  have segs: "list_all path_segment ss" using assms(4) by (auto simp: location_segment_def list_all_iff)
  have "CHR ''?'' \<notin> set (join_with ''/'' qs)" if "list_all location_segment qs" for qs
    using that by (induction "''/''" qs rule: join_with.induct) (auto simp: location_segment_def)
  then have "CHR ''?'' \<notin> set (join_with ''/'' ss)" using assms(4) by blast
  moreover have "get_location_path response = ''/'' @ join_with ''/'' ss"
    using get_location_path_segments [of response s rest] assms(2) ss segs
    by (simp add: path_segment_def)
  ultimately show ?thesis
    using uri_options_path [OF assms(1)] path_loop_join [OF segs] by simp
qed

lemma path_loop_chars: "s \<in> set (path_loop p) \<Longrightarrow> set s \<subseteq> set p"
proof (induction p rule: path_loop.induct)
  case (1 p)
  show ?case
  proof (cases p)
    case Nil
    with 1(3) show ?thesis by simp
  next
    case (Cons c rest)
    show ?thesis
    proof (cases "c = CHR ''/''")
      case True
      with 1(1) [OF Cons True] 1(3) Cons show ?thesis by auto
    next
      case False
      let ?t = "takeWhile (\<lambda>c. c \<noteq> CHR ''/'') p" and ?d = "dropWhile (\<lambda>c. c \<noteq> CHR ''/'') p"
      have loop: "path_loop p = ?t # path_loop ?d"
        by (subst path_loop.simps) (use Cons False in \<open>simp del: takeWhile.simps dropWhile.simps\<close>)
      have "set ?t \<subseteq> set p" "set ?d \<subseteq> set p" by (auto dest: set_takeWhileD set_dropWhileD)
      moreover have "s = ?t \<or> set s \<subseteq> set ?d"
        using 1(3) 1(2) [OF Cons False] unfolding loop by (metis set_ConsD)
      ultimately show ?thesis by blast
    qed
  qed
qed

lemma uri_options_split:
  assumes "splits_local lc"
  shows "\<exists>query. uri_options lc (''/'' @ loc) =
    path_options (path_loop (takeWhile (\<lambda>c. c \<noteq> CHR ''?'') loc)) @ query_options query"
proof (cases "CHR ''?'' \<in> set loc")
  case False
  then have "takeWhile (\<lambda>c. c \<noteq> CHR ''?'') loc = loc" by (auto simp: takeWhile_eq_all_conv)
  with uri_options_path [OF assms False] show ?thesis
    by (intro exI [of _ "[]"]) (simp only: query_options_def list.map append_Nil2)
next
  case True
  define p where "p = takeWhile (\<lambda>c. c \<noteq> CHR ''?'') loc"
  obtain a q where aq: "loc = a @ CHR ''?'' # q" "CHR ''?'' \<notin> set a"
    using True by (metis split_list_first)
  then have "p = a" unfolding p_def by (subst aq(1), subst takeWhile_append2) auto
  then have "uri_options lc (''/'' @ loc) = path_options (path_loop p) @ query_options (query_loop q)"
    using uri_options_query [OF assms aq(2), of q] aq(1) by simp
  then show ?thesis unfolding p_def by blast
qed

lemma path_options_inject:
  "path_options ss @ query_options q = path_options ts \<longleftrightarrow> ss = ts \<and> q = []"
proof
  assume eq: "path_options ss @ query_options q = path_options ts"
  have "q = []"
  proof (rule ccontr)
    assume "q \<noteq> []"
    then obtain x where "x \<in> set q" by (cases q) auto
    then have "(option_uri_query, bytes_of_string x) \<in> set (path_options ts)"
      unfolding eq [symmetric] by (simp add: query_options_def)
    then show False by (auto simp: path_options_def option_uri_query_def option_uri_path_def)
  qed
  moreover have "map (string_of_bytes \<circ> snd) (path_options us) = us" for us
    by (simp add: path_options_def comp_def)
  ultimately show "ss = ts \<and> q = []" using eq by (metis append_Nil2 query_options_def list.simps(8))
qed (simp add: query_options_def)

text \<open>C10: After a successful registration the update and the deregistration of that server carry the
  segments of the Location-Path that the server returned as their path exactly when every segment is
  non-empty and holds neither a slash nor a question mark: the client joins the segments to one string
  and splits it again, and any other segment comes back as something else.\<close>

theorem requests_address_location:
  assumes "register_with_server script ssid c = (ok (), c')" "ex_reply (rs_exchange script) = ok response"
    "splits_local lc"
  shows "\<exists>reg. umap_find (cl_registrations c') ssid = Some reg \<and>
    (\<forall>method token. pdu_options (request_pdu lc (session_request method (reg_location reg)) token) =
       path_options (location_segments (resp_options response)) @
         [(option_content_format, lc_encode_var lc 40)] \<longleftrightarrow>
       list_all location_segment (location_segments (resp_options response)))"
proof -
  define ss where "ss = location_segments (resp_options response)"
  obtain reg where reg: "umap_find (cl_registrations c') ssid = Some reg"
    "reg_location reg = get_location_path response" "get_location_path response \<noteq> []"
    using register_registered [OF assms(1)] assms(2) by auto
  have "ss \<noteq> []"
  proof
    assume "ss = []"
    have "location_segments opts = [] \<Longrightarrow> location_loop opts l = l" for opts l
      by (induction opts l rule: location_loop.induct) (auto simp: location_segments_def)
    with \<open>ss = []\<close> reg(3) show False by (simp add: ss_def get_location_path_def)
  qed
  obtain loc where loc: "get_location_path response = ''/'' @ loc"
    using reg(3) unfolding get_location_path_def Let_def by (metis (full_types))
  have "uri_options lc (get_location_path response) = path_options ss \<longleftrightarrow> list_all location_segment ss"
  proof
    assume eq: "uri_options lc (get_location_path response) = path_options ss"
    obtain query where "uri_options lc (''/'' @ loc) =
        path_options (path_loop (takeWhile (\<lambda>c. c \<noteq> CHR ''?'') loc)) @ query_options query"
      using uri_options_split [OF assms(3)] by blast
    with eq loc have ss: "path_loop (takeWhile (\<lambda>c. c \<noteq> CHR ''?'') loc) = ss"
      by (metis path_options_inject)
    have "path_segment s \<and> CHR ''?'' \<notin> set s" if "s \<in> set ss" for s
      using that path_loop_segments [of "takeWhile (\<lambda>c. c \<noteq> CHR ''?'') loc"]
        path_loop_chars [of s "takeWhile (\<lambda>c. c \<noteq> CHR ''?'') loc"]
      unfolding ss by (auto simp: list_all_iff dest: set_takeWhileD)
    then show "list_all location_segment ss" by (simp add: list_all_iff location_segment_def)
  qed (rule location_uri_options [OF assms(3) ss_def [symmetric] \<open>ss \<noteq> []\<close>])
  with reg(1,2) show ?thesis
    by (simp add: request_pdu_def session_request_def F_LinkFormat_def flip: ss_def)
qed

theorem requests_address_location_witness:
  "\<exists>(c' :: client) reg. umap_find (cl_registrations c') 7 = Some reg \<and>
    pdu_options (request_pdu sample_libcoap (session_request Delete (reg_location reg)) 3) =
      path_options [''rd'', ''1''] @ [(option_content_format, lc_encode_var sample_libcoap 40)]"
proof -
  define response where "response = (respond C_Created)\<lparr>resp_options :=
    [(8, bytes_of_string ''rd''), (8, bytes_of_string ''1'')]\<rparr>"
  define script where "script = \<lparr>rs_connect = ok (), rs_exchange = Exchange [] (ok response) 5,
    rs_registered_at = 4\<rparr>"
  obtain r c' where r: "register_with_server script 7 sample_client = (r, c')" by fastforce
  have s: "location_segments (resp_options response) = [''rd'', ''1'']"
    by (simp add: response_def location_segments_def)
  then have "get_location_path response \<noteq> []"
    using get_location_path_segments [of response "''rd''" "[''1'']"] by simp
  moreover have "is_success response"
    by (simp add: response_def is_success_def respond_def default_response_def C_Created_def
        code_is_success_def)
  ultimately have "is_ok r"
    using sample_registers [OF r] by (simp add: script_def)
  with r have r: "register_with_server script 7 sample_client = (ok (), c')" by (cases r) auto
  have l: "list_all location_segment [''rd'', ''1'']"
    by (simp add: location_segment_def path_segment_def)
  have "ex_reply (rs_exchange script) = ok response" by (simp add: script_def)
  from requests_address_location [OF r this sample_splits] l show ?thesis unfolding s by blast
qed

section \<open>Registration\<close>

definition query_param :: "string \<Rightarrow> bool" where
  "query_param s \<longleftrightarrow> s \<noteq> [] \<and> CHR ''&'' \<notin> set s"

lemma query_loop_param:
  assumes "query_param s"
  shows "query_loop (s @ CHR ''&'' # rest) = s # query_loop rest" "query_loop s = [s]"
proof -
  have ne: "s \<noteq> []" and no: "CHR ''&'' \<notin> set s" using assms by (auto simp: query_param_def)
  have t: "takeWhile (\<lambda>c. c \<noteq> CHR ''&'') (s @ CHR ''&'' # rest) = s"
    "dropWhile (\<lambda>c. c \<noteq> CHR ''&'') (s @ CHR ''&'' # rest) = CHR ''&'' # rest"
    using no by (induction s) auto
  show "query_loop (s @ CHR ''&'' # rest) = s # query_loop rest"
    by (subst query_loop.simps) (simp add: t ne Let_def)
  have t': "takeWhile (\<lambda>c. c \<noteq> CHR ''&'') s = s" "dropWhile (\<lambda>c. c \<noteq> CHR ''&'') s = []"
    using no by (induction s) auto
  show "query_loop s = [s]"
    by (subst query_loop.simps) (simp add: t' ne Let_def)
qed

lemma query_param_prefix: "CHR ''&'' \<notin> set p \<Longrightarrow> p \<noteq> [] \<Longrightarrow> CHR ''&'' \<notin> set s \<Longrightarrow> query_param (p @ s)"
  by (simp add: query_param_def)

lemma decimal_no_ampersand: "CHR ''&'' \<notin> set (decimal n)"
  using decimal_digits [of "CHR ''&''" n] by (auto simp: is_digit_def)

text \<open>The registration request goes to the path rd with the four query parameters ep, lt, lwm2m
  and b, when endpoint name and binding hold no ampersand; one that does splits into further
  parameters.\<close>

theorem registration_query:
  assumes "splits_local lc" "CHR ''&'' \<notin> set (ccf_endpoint_name (cl_config c))"
    "CHR ''&'' \<notin> set (srv_binding srv)"
  shows "uri_options lc (registration_uri c srv) = path_options [''rd''] @
    query_options [''ep='' @ ccf_endpoint_name (cl_config c), ''lt='' @ decimal (unat (srv_lifetime srv)),
      ''lwm2m=1.1'', ''b='' @ srv_binding srv]"
proof -
  define ep where "ep = ''ep='' @ ccf_endpoint_name (cl_config c)"
  define lt where "lt = ''lt='' @ decimal (unat (srv_lifetime srv))"
  define b where "b = ''b='' @ srv_binding srv"
  have params: "query_param ep" "query_param lt" "query_param ''lwm2m=1.1''" "query_param b"
    using assms(2,3) decimal_no_ampersand by (auto simp: ep_def lt_def b_def query_param_def)
  have "registration_uri c srv = ''/'' @ ''rd'' @ ''?'' @ (ep @ CHR ''&'' # lt @ CHR ''&'' #
      ''lwm2m=1.1'' @ CHR ''&'' # b)"
    by (simp add: registration_uri_def ep_def lt_def b_def)
  moreover have "query_loop (ep @ CHR ''&'' # lt @ CHR ''&'' # ''lwm2m=1.1'' @ CHR ''&'' # b) =
      [ep, lt, ''lwm2m=1.1'', b]"
    by (simp only: query_loop_param params)
  moreover have "path_loop ''rd'' = [''rd'']"
    using path_loop_join [of "[''rd'']"] by (simp add: path_segment_def)
  ultimately show ?thesis
    using uri_options_query [OF assms(1), of "''rd''"] unfolding ep_def lt_def b_def by simp
qed

theorem registration_query_witness:
  "uri_options sample_libcoap (registration_uri sample_client
     (default_server_instance\<lparr>srv_binding := ''U'', srv_lifetime := 60\<rparr>)) =
   path_options [''rd''] @ query_options [''ep=ep'', ''lt='' @ decimal 60, ''lwm2m=1.1'', ''b=U'']"
proof -
  have "ccf_endpoint_name (cl_config sample_client) = ''ep''" by (simp add: sample_defs)
  then show ?thesis
    using registration_query [OF sample_splits, of sample_client
        "default_server_instance\<lparr>srv_binding := ''U'', srv_lifetime := 60\<rparr>"] by simp
qed

end
