(* ===== verification/Client_Wire.thy ===== *)
theory Client_Wire
  imports Client_Transport
begin

text \<open>
  The client behind its CoAP client: a PDU from the server, through the request handler that
  \<open>register_with_server\<close> installs, to the PDU of the reply.
\<close>

section \<open>Serving a request\<close>

text \<open>
  \<open>incoming_request_handler\<close> with the client's lambda as the handler; what the request's
  execution sends meanwhile is in \<open>update\<close>.
\<close>

definition serve_pdu ::
  "libcoap \<Rightarrow> (u16 \<Rightarrow> client \<Rightarrow> client) \<Rightarrow> request_env \<Rightarrow> coap_pdu \<Rightarrow> client \<Rightarrow> coap_reply \<times> client" where
  "serve_pdu lc update env pdu c =
     (case request_of_pdu lc pdu of
        None \<Rightarrow> (plain_reply C_MethodNotAllowed, c)
      | Some request \<Rightarrow>
          let (response, c') = handle_incoming_request update env request c
          in (reply_of_response lc response, c'))"

definition path_pdu :: "coap_method \<Rightarrow> object_path \<Rightarrow> bytes \<Rightarrow> coap_pdu" where
  "path_pdu m p payload = \<lparr>pdu_code = method_code m, pdu_token = [],
     pdu_options = path_options (path_loop (to_string p)), pdu_payload = payload\<rparr>"

definition content_reply :: "libcoap \<Rightarrow> bytes \<Rightarrow> coap_reply" where
  "content_reply lc payload = \<lparr>reply_code = Some C_Content,
     reply_options = [(option_content_format, lc_encode_var lc (format_number F_TlvLwm2m))],
     reply_payload = payload\<rparr>"

lemma serve_path:
  assumes "prefix_closed p"
  shows "\<exists>request. req_method request = m \<and> req_uri_path request = to_string p \<and>
    parse (req_uri_path request) = Some p \<and> req_payload request = payload \<and>
    serve_pdu lc update env (path_pdu m p payload) c =
      (case handle_incoming_request update env request c of (response, c') \<Rightarrow>
         (reply_of_response lc response, c'))"
proof -
  obtain request where "request_of_pdu lc (path_pdu m p payload) = Some request"
    "req_method request = m" "req_uri_path request = to_string p"
    "parse (req_uri_path request) = Some p" "req_payload request = payload"
    using path_request [OF assms, of "path_pdu m p payload" m lc]
    by (auto simp: path_pdu_def path_options_def)
  then show ?thesis by (auto simp: serve_pdu_def)
qed

lemma reply_sel [simp]:
  "reply_of_response lc (respond code) = plain_reply code"
  by (simp add: reply_of_response_def plain_reply_def)

lemma reply_content:
  assumes "payload \<noteq> []"
  shows "reply_of_response lc (default_response\<lparr>resp_payload := payload, resp_code := Some C_Content\<rparr>) =
    content_reply lc (if lc_fits lc payload then payload else [])"
  using assms by (simp add: reply_of_response_def content_reply_def default_response_def)

lemma resource_path_closed [simp]: "prefix_closed (path_resource oid iid rid)"
  by (simp add: prefix_closed_def path_resource_def)

lemma process_read_found:
  assumes "get_object c oid = Some obj" "obj_read_resource env obj iid rid None c = (ok v, c')"
  shows "process_read env (path_resource oid iid rid) c =
    (default_response\<lparr>resp_payload := encode_record TlvResource (strong_value rid) (serialize_value v),
       resp_code := Some C_Content\<rparr>, c')"
  using assms by (simp add: process_read_def path_resource_def path_depth_defs encode_resource_def)

lemma serve_read:
  assumes "get_object c oid = Some obj" "obj_read_resource env obj iid rid None c = (ok v, c')"
    "payload = encode_record TlvResource (strong_value rid) (serialize_value v)"
  shows "serve_pdu lc update env (path_pdu Get (path_resource oid iid rid) []) c =
    (content_reply lc (if lc_fits lc payload then payload else []), c')"
proof -
  obtain request where r: "req_method request = Get" "parse (req_uri_path request) = Some (path_resource oid iid rid)"
    "serve_pdu lc update env (path_pdu Get (path_resource oid iid rid) []) c =
      (case handle_incoming_request update env request c of (response, c') \<Rightarrow>
         (reply_of_response lc response, c'))"
    using serve_path [OF resource_path_closed] by blast
  have "payload \<noteq> []" by (simp add: assms(3))
  with r process_read_found [OF assms(1,2)] show ?thesis
    by (simp add: handle_incoming_request_def reply_content flip: assms(3))
qed

section \<open>Properties\<close>

text \<open>C6: a Read of a resource over the wire answers Content with one Resource record, whose value
  decodes, with the type the object declares for the resource, to the value read, up to what the
  wire format keeps; but when the encoding does not fit the PDU the answer is Content all the same,
  without a payload.\<close>

theorem wire_read_typed:
  assumes "get_object c oid = Some obj" "obj_read_resource env obj iid rid None c = (ok v, c')"
    "obj_get_resource_type obj c iid rid = Some t" "length (serialize_value v) < 2 ^ 24"
    "payload = encode_record TlvResource (strong_value rid) (serialize_value v)"
  shows "serve_pdu lc update env (path_pdu Get (path_resource oid iid rid) []) c =
      (content_reply lc (if lc_fits lc payload then payload else []), c') \<and>
    decode payload = ok [TlvRecord TlvResource (strong_value rid) (serialize_value v) []] \<and>
    decode_resource (serialize_value v) t = ok (value_on_wire v) \<and>
    get_resource_type (value_on_wire v) = t"
proof -
  have "get_resource_type v = t" by (rule obj_read_typed [OF assms(2,3)])
  moreover have "get_resource_type (value_on_wire v) = get_resource_type v"
    by (cases v) simp_all
  ultimately show ?thesis
    using serve_read [OF assms(1,2,5), of lc update] decode_single [OF assms(4)]
      decode_serialize_value [of v] by (simp add: nested_records_def assms(5))
qed

theorem wire_read_typed_witness:
  "serve_pdu sample_libcoap (\<lambda>_ c. c) \<lparr>env_now = 0, env_gps = \<lambda>_. None\<rparr>
     (path_pdu Get (path_resource oid_Server (Strong 0) (Strong 0)) []) sample_client =
   (content_reply sample_libcoap (encode_record TlvResource 0 [7]), sample_client)"
proof -
  have r: "obj_read_resource \<lparr>env_now = 0, env_gps = \<lambda>_. None\<rparr> Ref_Server (Strong 0) (Strong 0) None sample_client =
      (ok (V_Int 7), sample_client)"
    by (simp add: server_read_resource_def server_load_def)
  have t: "obj_get_resource_type Ref_Server sample_client (Strong 0) (Strong 0) = Some T_Integer"
    by (simp add: server_resource_type_def)
  show ?thesis
    using wire_read_typed [OF sample_sel(7) r t _ refl, of sample_libcoap "\<lambda>_ c. c"]
    by (simp add: serialize_int_def sample_libcoap_def)
qed

text \<open>C7: over the wire, a Write of a well-typed value to a resource of a Server instance and a Read of
  it answer Changed and then Content with a record that decodes to that value, integers cut to the
  width of the member.\<close>

theorem wire_write_read:
  assumes "get_object c oid_Server = Some Ref_Server"
    "umap_find (srv_instances (cl_server c)) (strong_value iid) = Some i"
    "server_resource_type rid = Some (get_resource_type v)" "length (serialize_value v) < 2 ^ 24"
    "p = path_resource oid_Server iid rid"
    "reply = encode_record TlvResource (strong_value rid) (serialize_value (stored_server_value rid v))"
    "lc_fits lc reply"
  shows "\<exists>c1. serve_pdu lc update env
      (path_pdu Put p (encode_record TlvResource (strong_value rid) (serialize_value v))) c =
      (plain_reply C_Changed, c1) \<and>
    serve_pdu lc update env (path_pdu Get p []) c1 = (content_reply lc reply, c1) \<and>
    decode_resource (serialize_value (stored_server_value rid v)) (get_resource_type v) =
      ok (stored_server_value rid v)"
proof -
  obtain i' where i': "server_store rid v i = ok i'" using server_store_typed(1) [OF assms(3)] by blast
  define c1 where "c1 = c\<lparr>cl_server := (cl_server c)
    \<lparr>srv_instances := umap_set (srv_instances (cl_server c)) (strong_value iid) i'\<rparr>\<rparr>"
  obtain put where put: "req_method put = Put" "parse (req_uri_path put) = Some p"
    "req_payload put = encode_record TlvResource (strong_value rid) (serialize_value v)"
    "serve_pdu lc update env (path_pdu Put p (encode_record TlvResource (strong_value rid) (serialize_value v))) c =
      (case handle_incoming_request update env put c of (response, c') \<Rightarrow>
         (reply_of_response lc response, c'))"
    using serve_path [OF resource_path_closed] unfolding assms(5) by blast
  have written: "serve_pdu lc update env
      (path_pdu Put p (encode_record TlvResource (strong_value rid) (serialize_value v))) c =
      (plain_reply C_Changed, c1)"
    using put server_put [OF assms(1-4) i']
    by (simp add: handle_incoming_request_def assms(5) c1_def)
  have "server_load rid i' = ok (stored_server_value rid v)"
    using server_load_store [OF i'] by (simp add: stored_server_value_def)
  then have "obj_read_resource env Ref_Server iid rid None c1 = (ok (stored_server_value rid v), c1)"
    by (simp add: c1_def server_read_resource_def)
  moreover have "get_object c1 oid_Server = Some Ref_Server"
    using assms(1) by (simp add: c1_def get_object_def)
  ultimately have answer: "serve_pdu lc update env (path_pdu Get p []) c1 = (content_reply lc reply, c1)"
    using serve_read [of c1 oid_Server Ref_Server env iid rid _ c1 reply lc update] assms(5-7) by simp
  have "value_on_wire (stored_server_value rid v) = stored_server_value rid v"
    "get_resource_type (stored_server_value rid v) = get_resource_type v"
    using server_store_typed(2) [OF assms(3)] by (cases v; simp add: stored_server_value_def)+
  then show ?thesis using written answer decode_serialize_value [of "stored_server_value rid v"] by auto
qed

theorem wire_write_read_witness:
  "\<exists>c1. serve_pdu sample_libcoap (\<lambda>_ c. c) \<lparr>env_now = 0, env_gps = \<lambda>_. None\<rparr>
      (path_pdu Put (path_resource oid_Server (Strong 0) (Strong 1))
        (encode_record TlvResource 1 (serialize_value (V_Int 60)))) sample_client =
      (plain_reply C_Changed, c1) \<and>
    serve_pdu sample_libcoap (\<lambda>_ c. c) \<lparr>env_now = 0, env_gps = \<lambda>_. None\<rparr>
      (path_pdu Get (path_resource oid_Server (Strong 0) (Strong 1)) []) c1 =
      (content_reply sample_libcoap (encode_record TlvResource 1
        (serialize_value (V_Int (take_bit 32 60)))), c1)"
proof -
  have "lc_fits sample_libcoap payload" for payload by (simp add: sample_libcoap_def)
  then show ?thesis
    using wire_write_read [OF sample_sel(7) _ _ _ refl refl, of "Strong 0" _ "Strong 1" "V_Int 60"
        sample_libcoap "\<lambda>_ c. c" "\<lparr>env_now = 0, env_gps = \<lambda>_. None\<rparr>"]
    by (auto simp: server_resource_type_def serialize_int_def stored_server_value_def)
qed

end
