(* ===== verification/Client_Outage.thy ===== *)
theory Client_Outage
  imports Client_Recovery
begin

text \<open>
  Reconnection over many polls: an outage of any length, during which every attempt fails, is
  survived, and the first attempt that can succeed comes within the longest backoff after it.
\<close>

section \<open>An outage\<close>

text \<open>The registration attempt of a poll, when it happens, gets no location: nothing answers, or the
  server refuses.\<close>

definition attempt_fails :: "register_script \<Rightarrow> bool" where
  "attempt_fails script \<longleftrightarrow> ex_ios (rs_exchange script) = [] \<and>
     (is_err (rs_connect script) \<or>
      (case ex_reply (rs_exchange script) of
         Inl _ \<Rightarrow> True
       | Inr response \<Rightarrow> \<not> is_success response \<or> get_location_path response = []))"

text \<open>A poll of the outage reads clocks up to \<open>t\<close>, in nanoseconds.\<close>

definition outage_poll :: "int \<Rightarrow> poll_script \<Rightarrow> bool" where
  "outage_poll t script \<longleftrightarrow> ps_ios script = (\<lambda>_. []) \<and> attempt_fails (ps_register script) \<and>
     0 \<le> sint (ps_retry_steady script) \<and> sint (ps_retry_steady script) \<le> t"

definition longest_backoff :: int where
  "longest_backoff = 300 * 1000000000"

text \<open>What the outage keeps.\<close>

definition reconnecting_to ::
  "int \<Rightarrow> security_object \<Rightarrow> server_object \<Rightarrow> u16 \<Rightarrow> client \<Rightarrow> bool" where
  "reconnecting_to t sec srv ssid c \<longleftrightarrow>
     cl_running c \<and> cl_reconnecting c \<and> cl_registrations c = [] \<and> cl_reconnect_ssid c = ssid \<and>
     cl_reconnect_config c = default_reconnection_config \<and> cl_security c = sec \<and> cl_server c = srv \<and>
     sint (cl_next_reconnect_time c) \<le> t + longest_backoff"

lemma default_reconnection_sel [simp]:
  "rcf_enabled default_reconnection_config" "rcf_max_retries default_reconnection_config = 0"
  by (simp_all add: default_reconnection_config_def)

lemma default_backoff_bound:
  assumes "cl_reconnect_config c = default_reconnection_config"
  shows "0 \<le> sint (calculate_backoff c) \<and> sint (calculate_backoff c) \<le> 300"
proof -
  define n where "n = unat (cl_reconnect_attempts c)"
  show ?thesis
  proof (cases "n \<le> 8")
    case True
    define k where "k = (2::nat) ^ max 1 n"
    have "(2::nat) ^ max 1 n \<le> 2 ^ 8" using True by (intro power_increasing) simp_all
    then have k: "k \<le> 300" by (simp add: k_def)
    have "calculate_backoff c = word_of_nat k"
      using True by (simp add: calculate_backoff_default [OF assms] k_def flip: n_def)
    moreover have "sint (word_of_nat k :: i64) = int k" using k by (intro sint_word_of_nat_small) simp
    ultimately show ?thesis using k by simp
  next
    case False
    then show ?thesis by (simp add: calculate_backoff_default [OF assms] flip: n_def)
  qed
qed

lemma sint_word_of_int_small:
  assumes "- (2 ^ 63) \<le> k" "k < 2 ^ 63"
  shows "sint (word_of_int k :: i64) = k"
proof -
  have "signed_take_bit 63 k = k" using assms by (intro signed_take_bit_int_eq_self) simp_all
  then show ?thesis by (simp only: signed_of_int) simp
qed

lemma next_attempt_bound:
  assumes "cl_reconnect_config c = default_reconnection_config" "0 \<le> sint steady" "sint steady \<le> t"
    "t + longest_backoff < 2 ^ 63"
  shows "sint (steady + calculate_backoff c * 1000000000) \<le> t + longest_backoff"
proof -
  define b where "b = sint (calculate_backoff c)"
  have b: "0 \<le> b" "b \<le> 300" using default_backoff_bound [OF assms(1)] by (simp_all add: b_def)
  have "steady + calculate_backoff c * 1000000000 = word_of_int (sint steady + b * 1000000000)"
    by (simp add: b_def)
  then have "sint (steady + calculate_backoff c * 1000000000) =
      sint (word_of_int (sint steady + b * 1000000000) :: i64)" by (rule arg_cong)
  also have "\<dots> = sint steady + b * 1000000000"
    by (rule sint_word_of_int_small) (use b assms(2-4) in \<open>auto simp: longest_backoff_def\<close>)
  also have "\<dots> \<le> t + longest_backoff" using b assms(3) by (simp add: longest_backoff_def)
  finally show ?thesis .
qed

section \<open>One poll of the outage\<close>

lemma poll_connections_quiet [simp]: "poll_connections (\<lambda>_. []) ssids c = c"
  by (induction ssids) simp_all

lemma poll_reconnecting:
  assumes "cl_reconnecting c" "cl_registrations c = []" "ps_ios script = (\<lambda>_. [])"
  shows "poll script c =
    (if sint (cl_next_reconnect_time c) \<le> sint (ps_check_steady script)
     then try_reconnect (ps_register script) (ps_retry_steady script) (cl_reconnect_ssid c) c else c)"
  using assms by (simp add: poll_def Let_def check_connection_health_def)

lemma register_quiet:
  assumes "register_with_server script ssid c = (r, c')" "ex_ios (rs_exchange script) = []"
  shows "cl_security c' = cl_security c" "cl_server c' = cl_server c" "cl_running c' = cl_running c"
    "cl_reconnect_ssid c' = cl_reconnect_ssid c"
  using assms
  by (auto simp: register_with_server_def open_connection_def send_request_def send_on_def
      complete_registration_def emit_def Let_def split: option.splits sum.splits if_splits prod.splits)

lemma attempt_fails_err:
  assumes "attempt_fails script" "umap_find (cl_connections c) ssid = None"
    "register_with_server script ssid c = (r, c')"
  shows "\<exists>e. r = Inl e"
proof (cases r)
  case (Inr u)
  then have ok: "register_with_server script ssid c = (ok (), c')" using assms(3) by simp
  obtain response where response: "ex_reply (rs_exchange script) = ok response" "is_success response"
      "get_location_path response \<noteq> []" using register_registered [OF ok] by auto
  moreover have "\<not> is_err (rs_connect script)"
  proof
    assume "is_err (rs_connect script)"
    then obtain e where "rs_connect script = Inl e" by (cases "rs_connect script") auto
    then have "fst (register_with_server script ssid c) \<noteq> ok ()"
      using assms(2) by (simp add: register_with_server_def open_connection_def Let_def split: option.splits)
    with ok show False by simp
  qed
  ultimately show ?thesis using assms(1) by (simp add: attempt_fails_def)
qed simp

lemma outage_poll_keeps:
  assumes "reconnecting_to t sec srv ssid c" "outage_poll t script" "t + longest_backoff < 2 ^ 63"
  shows "reconnecting_to t sec srv ssid (poll script c)"
proof (cases "sint (cl_next_reconnect_time c) \<le> sint (ps_check_steady script)")
  case True
  note c = assms(1) [unfolded reconnecting_to_def] and s = assms(2) [unfolded outage_poll_def]
  define c' where "c' = try_reconnect (ps_register script) (ps_retry_steady script) ssid c"
  have p: "poll script c = c'" using poll_reconnecting [of c script] c s True by (simp add: c'_def)
  obtain r c4 where r: "register_with_server (ps_register script) ssid (reconnect_start ssid c) = (r, c4)"
    by fastforce
  then obtain e where e: "r = Inl e" using attempt_fails_err [OF _ _ r] s by auto
  have start: "cl_running (reconnect_start ssid c) = cl_running c"
    "cl_reconnect_ssid (reconnect_start ssid c) = cl_reconnect_ssid c"
    by (simp_all add: reconnect_start_def Let_def emit_def)
  have q: "cl_security c4 = cl_security c" "cl_server c4 = cl_server c" "cl_running c4" "cl_reconnect_ssid c4 = ssid"
    using register_quiet [OF r] s c start by (simp_all add: attempt_fails_def)
  have c': "c' = c4\<lparr>cl_next_reconnect_time := ps_retry_steady script + calculate_backoff c4 * 1000000000\<rparr>"
    using c r e by (simp add: c'_def try_reconnect_def reconnect_start_def Let_def)
  note f = register_reconnection [OF r]
  have "locations c4 = locations c" using register_failed [OF r [unfolded e]] by simp
  then have "cl_registrations c4 = []" using c by (metis locations_Nil)
  moreover have "sint (ps_retry_steady script + calculate_backoff c4 * 1000000000) \<le> t + longest_backoff"
    using f c s assms(3) by (intro next_attempt_bound) simp_all
  ultimately show ?thesis using c q f by (simp add: p c' reconnecting_to_def)
next
  case False
  with assms show ?thesis
    using poll_reconnecting [of c script] by (simp add: reconnecting_to_def outage_poll_def)
qed

lemma outage_keeps:
  assumes "reconnecting_to t sec srv ssid c" "\<forall>script \<in> set outage. outage_poll t script"
    "t + longest_backoff < 2 ^ 63"
  shows "reconnecting_to t sec srv ssid (run_event_loop outage c)"
  using assms
proof (induction outage arbitrary: c)
  case (Cons script outage)
  have "cl_running c" using Cons.prems(1) by (simp add: reconnecting_to_def)
  with Cons outage_poll_keeps show ?case by simp
qed simp

lemma event_loop_stopped: "\<not> cl_running c \<Longrightarrow> run_event_loop scripts c = c"
  by (cases scripts) simp_all

lemma event_loop_append: "run_event_loop (xs @ ys) c = run_event_loop ys (run_event_loop xs c)"
  by (induction xs arbitrary: c) (simp_all add: event_loop_stopped)

section \<open>Recovery\<close>

text \<open>C18: a client that reconnects with the default configuration survives an outage of any number of
  polls, due or not, whose attempts all fail: the first later poll that comes a longest backoff after
  them and whose attempt is answered with a location ends registered with the lost server.\<close>

theorem outage_recovery:
  assumes "cl_running c" "cl_reconnecting c" "cl_registrations c = []"
    "cl_reconnect_config c = default_reconnection_config"
    "security_find_by_short_server_id (cl_security c) (cl_reconnect_ssid c) \<noteq> None"
    "server_find_by_short_server_id (cl_server c) (cl_reconnect_ssid c) = Some srv"
    "sint (cl_next_reconnect_time c) \<le> t + longest_backoff" "t + longest_backoff < 2 ^ 63"
    "\<forall>script \<in> set outage. outage_poll t script"
    "ps_ios script = (\<lambda>_. [])" "t + longest_backoff \<le> sint (ps_check_steady script)"
    "rs_connect (ps_register script) = ok ()"
    "ex_reply (rs_exchange (ps_register script)) = ok response" "is_success response"
    "get_location_path response \<noteq> []"
    "c' = run_event_loop (outage @ [script]) c"
  shows "cl_state c' = CS_Registered \<and> \<not> cl_reconnecting c' \<and>
    umap_find (cl_registrations c') (cl_reconnect_ssid c) \<noteq> None"
proof -
  define c1 where "c1 = run_event_loop outage c"
  have "reconnecting_to t (cl_security c) (cl_server c) (cl_reconnect_ssid c) c"
    using assms by (simp add: reconnecting_to_def)
  from outage_keeps [OF this assms(9,8)]
  have r: "reconnecting_to t (cl_security c) (cl_server c) (cl_reconnect_ssid c) c1" by (simp add: c1_def)
  then have "c' = poll script c1"
    by (simp add: assms(16) event_loop_append reconnecting_to_def flip: c1_def)
  then show ?thesis
    using poll_recovers [of c1 script srv response] r assms(5,6,10-15)
    by (simp add: reconnecting_to_def)
qed

theorem outage_recovery_witness:
  "\<exists>outage script (c :: client). length outage = 2 \<and> \<not> is_ok (rs_connect (ps_register (hd outage))) \<and>
     cl_registrations c = [] \<and> cl_state (run_event_loop (outage @ [script]) c) = CS_Registered"
proof -
  define c where "c = sample_client\<lparr>cl_reconnecting := True, cl_reconnect_ssid := 7,
    cl_registrations := [], cl_state := CS_Error, cl_running := True\<rparr>"
  define response where "response = (respond C_Created)\<lparr>resp_options := [(8, bytes_of_string ''rd'')]\<rparr>"
  define bad where "bad = \<lparr>ps_ios = (\<lambda>_. []), ps_now = 1,
    ps_updates = (\<lambda>_. Exchange [] (ok response) 1), ps_health_now = 1, ps_lost_steady = 1,
    ps_check_steady = 1, ps_register = \<lparr>rs_connect = err E_ConnectionFailed ''unreachable'',
      rs_exchange = Exchange [] (ok response) 5, rs_registered_at = 4\<rparr>, ps_retry_steady = 1\<rparr>"
  define good where "good = bad\<lparr>ps_check_steady := 400000000000,
    ps_register := (ps_register bad)\<lparr>rs_connect := ok ()\<rparr>\<rparr>"
  have sec: "security_find_by_short_server_id (cl_security sample_client) 7 \<noteq> None"
    by (simp add: security_find_by_short_server_id_def) (simp add: sample_defs)
  have srv: "server_find_by_short_server_id (cl_server sample_client) 7 =
      Some (default_server_instance\<lparr>srv_short_server_id := 7\<rparr>)"
    by (simp add: server_find_by_short_server_id_def)
  have response: "is_success response" "get_location_path response \<noteq> []"
    by (simp_all add: response_def is_success_def respond_def default_response_def C_Created_def
        code_is_success_def get_location_path_def bytes_of_string_def string_of_bytes_def)
  have outage: "\<forall>script \<in> set [bad, bad]. outage_poll 1 script"
    by (simp add: outage_poll_def attempt_fails_def bad_def)
  have n0: "cl_next_reconnect_time sample_client = 0" by (simp add: sample_defs)
  have "cl_state (run_event_loop ([bad, bad] @ [good]) c) = CS_Registered"
    using outage_recovery [of c "default_server_instance\<lparr>srv_short_server_id := 7\<rparr>" 1 "[bad, bad]" good response,
        OF _ _ _ _ _ _ _ _ outage _ _ _ _ response refl] sec srv n0
    by (simp add: c_def good_def bad_def longest_backoff_def)
  moreover have "length [bad, bad] = 2" "\<not> is_ok (rs_connect (ps_register (hd [bad, bad])))"
    "cl_registrations c = []" by (simp_all add: bad_def c_def)
  ultimately show ?thesis by blast
qed

end
