(* ===== verification/Example_Client.thy ===== *)
theory Example_Client
  imports Client_Wire Client_Outage Coap_Connection
begin

text \<open>
  \<open>examples/lwm2m_client.cpp\<close>: the command line, the configuration of the client and its life,
  as a composition of the operations of the library. Output is left out.
\<close>

section \<open>Command line\<close>

record example_args =
  ea_server_uri :: string
  ea_endpoint_name :: string
  ea_security_mode :: string

definition default_args :: example_args where
  "default_args = \<lparr>ea_server_uri = ''coap://localhost:5683'', ea_endpoint_name = ''cpp-client-1'',
     ea_security_mode = ''nosec''\<rparr>"

text \<open>The loop over the arguments; an option without a value is skipped. \<open>None\<close>: help.\<close>

fun parse_args :: "string list \<Rightarrow> example_args \<Rightarrow> example_args option" where
  "parse_args [] a = Some a"
| "parse_args [arg] a = (if arg = ''-h'' \<or> arg = ''--help'' then None else Some a)"
| "parse_args (arg # v # rest) a =
     (if arg = ''-u'' \<or> arg = ''--uri'' then parse_args rest (a\<lparr>ea_server_uri := v\<rparr>)
      else if arg = ''-e'' \<or> arg = ''--endpoint'' then parse_args rest (a\<lparr>ea_endpoint_name := v\<rparr>)
      else if arg = ''-s'' \<or> arg = ''--security'' then parse_args rest (a\<lparr>ea_security_mode := v\<rparr>)
      else if arg = ''-h'' \<or> arg = ''--help'' then None
      else parse_args (v # rest) a)"

section \<open>Configuration\<close>

definition make_client_config :: "string \<Rightarrow> string \<Rightarrow> string \<Rightarrow> client_config" where
  "make_client_config endpoint lifetime binding =
     (default_client_config endpoint)\<lparr>ccf_lifetime := lifetime, ccf_binding_mode := binding\<rparr>"

definition make_device_config ::
  "string \<Rightarrow> string \<Rightarrow> string \<Rightarrow> string \<Rightarrow> string \<Rightarrow> device_config" where
  "make_device_config manufacturer model serial fw_version device_type =
     default_device_config\<lparr>dcfg_manufacturer := manufacturer, dcfg_model_number := model,
       dcfg_serial_number := serial, dcfg_firmware_version := fw_version,
       dcfg_device_type := device_type\<rparr>"

definition make_security_instance :: "string \<Rightarrow> u16 \<Rightarrow> security_mode_value \<Rightarrow> security_instance" where
  "make_security_instance uri ssid mode =
     default_security_instance\<lparr>sec_server_uri := uri, sec_bootstrap_server := False,
       sec_security_mode := mode, sec_short_server_id := ssid\<rparr>"

definition make_server_instance :: "u16 \<Rightarrow> u32 \<Rightarrow> string \<Rightarrow> server_instance" where
  "make_server_instance ssid lifetime binding =
     default_server_instance\<lparr>srv_short_server_id := ssid, srv_lifetime := lifetime,
       srv_binding := binding\<rparr>"

definition example_callbacks :: client_callbacks where
  "example_callbacks = \<lparr>on_state_change = True, on_registered = True, on_deregistered = True,
     on_error = True, on_connection_lost = True, on_reconnecting = True, on_reconnected = True\<rparr>"

text \<open>The client as \<open>main\<close> builds it, before it is started.\<close>

definition example_client :: "example_args \<Rightarrow> time_point \<Rightarrow> client" where
  "example_client a now =
     (let c = client_init (make_client_config (ea_endpoint_name a) ''15'' ''U'') now;
          c1 = c\<lparr>cl_device := device_init
            (make_device_config ''Ferriot'' ''Ferriot'' ''001'' ''0.1.0'' ''TCU'')\<rparr>;
          c2 = c1\<lparr>cl_security := snd (security_add_server
            (make_security_instance (ea_server_uri a) 1 SM_NoSec) (cl_security c1))\<rparr>;
          c3 = c2\<lparr>cl_server := snd (server_add_server (make_server_instance 1 15 ''U'') (cl_server c2))\<rparr>
      in set_callbacks example_callbacks c3)"

section \<open>The program\<close>

text \<open>
  What the run meets: the clock at the start, the polls that the event thread makes before and after
  the registration, the exchanges of the registration, of \<open>stop\<close> and of the destructor, which
  stops once more. The polls and the operations of the main thread exclude each other by the
  client's mutex. The result is the exit code and the client at its destruction.
\<close>

record example_world =
  ew_now :: time_point
  ew_early_polls :: "poll_script list"
  ew_register :: register_script
  ew_polls :: "poll_script list"
  ew_stop :: "u16 \<Rightarrow> exchange"
  ew_destroy :: "u16 \<Rightarrow> exchange"

definition example_main :: "example_world \<Rightarrow> string list \<Rightarrow> int \<times> client option" where
  "example_main w args =
     (case parse_args args default_args of
        None \<Rightarrow> (0, None)
      | Some a \<Rightarrow>
          (case start (example_client a (ew_now w)) of
             (Inl e, c1) \<Rightarrow> (1, Some (destroy_client (ew_destroy w) c1))
           | (Inr _, c1) \<Rightarrow>
               (case register_with_server (ew_register w) 1 (run_event_loop (ew_early_polls w) c1) of
                  (Inl e, c2) \<Rightarrow>
                    (1, Some (destroy_client (ew_destroy w) (run_event_loop (ew_polls w) c2)))
                | (Inr _, c2) \<Rightarrow>
                    (0, Some (destroy_client (ew_destroy w)
                      (stop False (ew_stop w) (run_event_loop (ew_polls w) c2)))))))"

section \<open>The client before its registration\<close>

definition example_started :: "example_args \<Rightarrow> time_point \<Rightarrow> client" where
  "example_started a now = (example_client a now)\<lparr>cl_running := True, cl_event_thread := True\<rparr>"

lemmas example_client_defs = example_client_def client_init_def add_object_def set_callbacks_def
  security_add_server_def server_add_server_def security_create_instance_def
  server_create_instance_def security_init_def server_init_def set_registration_update_callback_def

lemma example_client_sel [simp]:
  "cl_state (example_client a now) = CS_Idle" "cl_connections (example_client a now) = []"
  "cl_registrations (example_client a now) = []" "\<not> cl_running (example_client a now)"
  "\<not> cl_reconnecting (example_client a now)"
  "sec_instances (cl_security (example_client a now)) =
     [(0, make_security_instance (ea_server_uri a) 1 SM_NoSec)]"
  "srv_instances (cl_server (example_client a now)) = [(0, make_server_instance 1 15 ''U'')]"
  by (simp_all add: example_client_defs Let_def)

lemma example_client_reachable: "client_reachable (example_client a now)"
proof -
  let ?c = "client_init (make_client_config (ea_endpoint_name a) ''15'' ''U'') now"
  let ?d = "device_init (make_device_config ''Ferriot'' ''Ferriot'' ''001'' ''0.1.0'' ''TCU'')"
  have "client_reachable ?c" by (rule reachable_init)
  then have 1: "client_reachable (?c\<lparr>cl_device := ?d\<rparr>)" by (rule reachable_step) (rule step_device)
  have "client_step c (c\<lparr>cl_security := snd (security_add_server inst (cl_security c))\<rparr>)"
    "client_step c (c\<lparr>cl_server := snd (server_add_server srv (cl_server c))\<rparr>)" for c inst srv
    by (rule step_security step_server, rule prod.collapse [symmetric])+
  with 1 show ?thesis
    unfolding example_client_def Let_def by (blast intro: reachable_step step_callbacks)
qed

lemma example_start: "start (example_client a now) = (ok (), example_started a now)"
  by (simp add: start_def example_started_def set_state_def Let_def)

text \<open>Polls change nothing while there is no connection.\<close>

lemma poll_idle:
  assumes "cl_state c = CS_Idle" "cl_connections c = []" "cl_registrations c = []" "\<not> cl_reconnecting c"
  shows "poll script c = c"
  using assms by (simp add: poll_def Let_def check_connection_health_def)

lemma early_polls: "run_event_loop scripts (example_started a now) = example_started a now"
proof -
  have "poll script (example_started a now) = example_started a now" for script
    by (rule poll_idle) (simp_all add: example_started_def)
  then show ?thesis by (induction scripts) simp_all
qed

lemma event_loop_reachable: "client_reachable c \<Longrightarrow> client_reachable (run_event_loop scripts c)"
  by (induction scripts arbitrary: c) (auto intro: reachable_step step_poll)

text \<open>The one connection the example opens.\<close>

definition unsecured :: "string \<Rightarrow> connection_config" where
  "unsecured uri = default_connection_config\<lparr>cfg_server_uri := uri, cfg_security_mode := NoSec\<rparr>"

lemma example_config:
  "to_connection_config (cl_security (example_client a now))
     (find_security_iid (cl_security (example_client a now)) 1
       (security_list_instances (cl_security (example_client a now)))) =
   unsecured (ea_server_uri a)"
  by (simp add: security_list_instances_def security_get_instance_def to_connection_config_def
      make_security_instance_def unsecured_def)

lemma example_connects:
  assumes "rs_connect script = Inl e"
  shows "register_with_server script 1 (example_started a now) =
    (err (err_code e) (''Connection failed: '' @ err_message e), example_started a now)"
proof -
  have "security_find_by_short_server_id (cl_security (example_client a now)) 1 =
      Some (make_security_instance (ea_server_uri a) 1 SM_NoSec)"
    "server_find_by_short_server_id (cl_server (example_client a now)) 1 = Some (make_server_instance 1 15 ''U'')"
    by (simp_all add: security_find_by_short_server_id_def server_find_by_short_server_id_def
        make_security_instance_def make_server_instance_def)
  then show ?thesis
    using assms by (simp add: register_with_server_def open_connection_def Let_def example_started_def err_def)
qed

lemma example_main_eq:
  assumes "parse_args args default_args = Some a"
  shows "example_main w args =
    (case register_with_server (ew_register w) 1 (example_started a (ew_now w)) of
       (Inl e, c) \<Rightarrow> (1, Some (destroy_client (ew_destroy w) (run_event_loop (ew_polls w) c)))
     | (Inr _, c) \<Rightarrow> (0, Some (destroy_client (ew_destroy w)
         (stop False (ew_stop w) (run_event_loop (ew_polls w) c)))))"
  using assms by (simp add: example_main_def example_start early_polls)

section \<open>Properties\<close>

text \<open>C39: with a help option the example exits with zero and never makes a client. Otherwise its
  exit code is zero exactly when the registration succeeded; the client it destroys is reachable, idle
  and without connections and registrations; and for every registration that it holds over a connection
  that is up when it shuts down, send was called with a Delete to the location, provided no connection
  goes down during that shutdown (the call of stop after a registration, the destructor otherwise).\<close>

theorem example_run:
  "case parse_args args default_args of
     None \<Rightarrow> example_main w args = (0, None)
   | Some a \<Rightarrow>
       (let (r, c1) = register_with_server (ew_register w) 1 (example_started a (ew_now w));
            c2 = run_event_loop (ew_polls w) c1;
            exs = (if is_ok r then ew_stop w else ew_destroy w);
            (code, left) = example_main w args
        in code = (if is_ok r then 0 else 1) \<and>
          (\<exists>c. left = Some c \<and> client_reachable c \<and> cl_state c = CS_Idle \<and>
             cl_connections c = [] \<and> cl_registrations c = [] \<and>
             (\<forall>ssid reg. umap_find (cl_registrations c2) ssid = Some reg \<and> link_up c2 ssid \<and>
                (\<forall>s \<in> set (umap_keys (cl_registrations c2)). keeps_links (ex_ios (exs s))) \<longrightarrow>
                Ev_Sent ssid (session_request Delete (reg_location reg)) \<in> set (cl_log c))))"
proof (cases "parse_args args default_args")
  case None
  then show ?thesis by (simp add: example_main_def)
next
  case (Some a)
  obtain r c1 where r: "register_with_server (ew_register w) 1 (example_started a (ew_now w)) = (r, c1)"
    by fastforce
  define c2 where "c2 = run_event_loop (ew_polls w) c1"
  have "client_reachable (example_started a (ew_now w))"
    using reachable_step [OF example_client_reachable step_start [OF example_start]] .
  then have c2: "client_reachable c2"
    unfolding c2_def using event_loop_reachable reachable_step [OF _ step_register [OF r]] by blast
  show ?thesis
  proof (cases r)
    case (Inl e)
    define c where "c = stop False (ew_destroy w) c2"
    have "client_reachable c" unfolding c_def by (rule reachable_step [OF c2 step_stop])
    moreover have "example_main w args = (1, Some c)"
      by (simp add: example_main_eq [OF Some] r Inl destroy_client_def c_def c2_def)
    ultimately show ?thesis
      using Some r Inl stop_effect [of c2 False "ew_destroy w"]
        stop_log [OF client_reachable_ok [OF c2], of False "ew_destroy w"]
      by (simp add: Let_def flip: c2_def c_def del: set_map)
  next
    case (Inr u)
    define c3 where "c3 = stop False (ew_stop w) c2"
    define c where "c = stop False (ew_destroy w) c3"
    have c3: "client_reachable c3" unfolding c3_def by (rule reachable_step [OF c2 step_stop])
    have "client_reachable c" unfolding c_def by (rule reachable_step [OF c3 step_stop])
    moreover have "example_main w args = (0, Some c)"
      by (simp add: example_main_eq [OF Some] r Inr destroy_client_def c_def c3_def c2_def)
    moreover have "set (cl_log c3) \<subseteq> set (cl_log c)"
      using stop_log [OF client_reachable_ok [OF c3], of False "ew_destroy w"] by (simp add: c_def)
    ultimately show ?thesis
      using Some r Inr stop_effect [of c3 False "ew_destroy w"]
        stop_log [OF client_reachable_ok [OF c2], of False "ew_stop w"]
      by (auto simp add: Let_def subset_iff simp flip: c2_def c3_def c_def simp del: set_map)
  qed
qed

text \<open>C40: the option for the security mode has no effect: for a URI with a secure scheme, whatever the
  arguments, the connection is refused for a security mode mismatch and the example exits with
  one.\<close>

theorem example_refuses_secure_uri:
  assumes "parse_args args default_args = Some a" "lc_new_context lc"
    "lc_split_uri lc (ea_server_uri a) = Some uri" "uses_dtls uri"
    "rs_connect (ew_register w) = fst (coap_connect lc (to_connection_config
       (cl_security (example_started a (ew_now w)))
       (find_security_iid (cl_security (example_started a (ew_now w))) 1
         (security_list_instances (cl_security (example_started a (ew_now w)))))) lc0)"
  shows "rs_connect (ew_register w) = err E_BadRequest ''Security mode mismatch'' \<and>
    (\<exists>c. example_main w args = (1, Some c))"
proof -
  have "rs_connect (ew_register w) = fst (coap_connect lc (unsecured (ea_server_uri a)) lc0)"
    using assms(5) example_config by (simp add: example_started_def)
  also have "\<dots> = err E_BadRequest ''Security mode mismatch''"
    using assms(2-4)
    by (cases lc0) (simp add: coap_connect_def setup_dtls_def unsecured_def Let_def err_def split: prod.split)
  finally have e: "rs_connect (ew_register w) = err E_BadRequest ''Security mode mismatch''" .
  then have "rs_connect (ew_register w) = Inl (mk_error E_BadRequest ''Security mode mismatch'')"
    by (simp add: err_def)
  from e example_connects [OF this, of a "ew_now w"] show ?thesis
    by (auto simp: example_main_eq [OF assms(1)] err_def)
qed

section \<open>Witnesses\<close>

definition sample_world :: "unit result \<Rightarrow> example_world" where
  "sample_world connect = \<lparr>ew_now = 0, ew_early_polls = [],
     ew_register = \<lparr>rs_connect = connect,
       rs_exchange = Exchange [] (err E_Timeout ''Request timeout'') 5, rs_registered_at = 4\<rparr>,
     ew_polls = [], ew_stop = (\<lambda>_. Exchange [] (err E_Timeout ''Request timeout'') 9),
     ew_destroy = (\<lambda>_. Exchange [] (err E_Timeout ''Request timeout'') 9)\<rparr>"

lemma sample_args: "parse_args [''-u'', ''coaps://h/'', ''-s'', ''psk''] default_args =
    Some \<lparr>ea_server_uri = ''coaps://h/'', ea_endpoint_name = ''cpp-client-1'', ea_security_mode = ''psk''\<rparr>"
  by (simp add: default_args_def)

theorem example_run_witness:
  "\<exists>c. example_main (sample_world (err E_ConnectionFailed ''down'')) [''-u'', ''coaps://h/'', ''-s'', ''psk''] =
     (1, Some c) \<and> client_reachable c \<and> cl_state c = CS_Idle"
proof -
  let ?w = "sample_world (err E_ConnectionFailed ''down'')"
  have "rs_connect (ew_register ?w) = Inl (mk_error E_ConnectionFailed ''down'')"
    by (simp add: sample_world_def err_def)
  note failed = example_connects [OF this, of _ "ew_now ?w"]
  obtain code left where m: "example_main ?w [''-u'', ''coaps://h/'', ''-s'', ''psk''] = (code, left)"
    by fastforce
  from example_run [of ?w "[''-u'', ''coaps://h/'', ''-s'', ''psk'']"] failed m sample_args show ?thesis
    by (auto simp: Let_def simp del: parse_args.simps)
qed

theorem example_refuses_secure_uri_witness:
  "\<exists>c. example_main (sample_world (err E_BadRequest ''Security mode mismatch''))
     [''-u'', ''coaps://h/'', ''-s'', ''psk''] = (1, Some c)"
proof -
  define uri where "uri = \<lparr>uri_scheme = Scheme_Coaps, uri_host = ''h'', uri_port = 5684, uri_path = [],
    uri_query = []\<rparr>"
  define lc where "lc = sample_libcoap\<lparr>lc_split_uri := (\<lambda>_. Some uri)\<rparr>"
  have lc: "lc_new_context lc" "lc_split_uri lc s = Some uri" "uses_dtls uri" for s
    by (simp_all add: lc_def uri_def uses_dtls_def sample_libcoap_def)
  define config where "config = unsecured ''coaps://h/''"
  have "rs_connect (ew_register (sample_world (err E_BadRequest ''Security mode mismatch''))) =
      fst (coap_connect lc config (\<lparr>lib_init_count = 0, lib_started = False\<rparr>, coap_client_init))"
    using lc by (simp add: sample_world_def coap_connect_def setup_dtls_def config_def unsecured_def Let_def
        err_def split: prod.split)
  then show ?thesis
    using example_refuses_secure_uri [OF sample_args lc(1) lc(2,3), of
        "sample_world (err E_BadRequest ''Security mode mismatch'')"
        "(\<lparr>lib_init_count = 0, lib_started = False\<rparr>, coap_client_init)"]
    by (simp add: example_started_def example_config config_def)
qed

end
