(* ===== verification/Client_Lifecycle.thy ===== *)
theory Client_Lifecycle
  imports Client_Invariants
begin

text \<open>
  The threads of \<open>Client\<close> (\<open>src/client.cpp\<close>): the two mutexes of the client, the
  flag \<open>running_\<close>, the event thread and any number of application threads, interleaved at
  every lock, join and access to the shared members. The theory \<open>Client_Session\<close> says what
  the operations compute while a thread has the client for itself; this one says when it has.

  The mutex \<open>io_mtx_\<close> of a connection does not appear: connections are reached through the
  client's table only, and every access to the table holds \<open>mtx_\<close>.
\<close>

section \<open>Code of the threads\<close>

text \<open>
  What a thread does to the shared members. \<open>Lock_Lifecycle\<close> to \<open>Unlock_Mtx\<close> are the
  constructors and destructors of the lock guards; \<open>Running_Exchange b\<close> is
  \<open>running_.exchange(true)\<close> with the code \<open>b\<close> that runs when the flag was clear;
  \<open>Unless_Event_Thread b\<close> is the test of the thread ids with the code after the early return;
  \<open>Join_Loop\<close> is \<open>join\<close> and \<open>reset\<close>, \<open>Spawn_Loop\<close> the assignment of the
  new thread; \<open>Run_Callbacks\<close> stands for the callbacks that the application has set, each of
  which may call the client again; \<open>While_Running\<close> is the head of the event loop.
\<close>

datatype instr =
    Lock_Lifecycle | Unlock_Lifecycle | Lock_Mtx | Unlock_Mtx
  | Running_Exchange "instr list" | Running_Clear
  | Unless_Event_Thread "instr list" | Spawn_Loop | Join_Loop
  | Run_Callbacks | While_Running

text \<open>
  A public operation under \<open>mtx_\<close>: \<open>register_with_server\<close>, \<open>update_registration\<close>,
  \<open>deregister\<close>, \<open>poll\<close> and the observers.
\<close>

definition operation_code :: "instr list" where
  "operation_code = [Lock_Mtx, Run_Callbacks, Unlock_Mtx]"

text \<open>\<open>set_state\<close> in \<open>start\<close> calls \<open>on_state_change\<close> with the lifecycle lock held.\<close>

definition start_code :: "instr list" where
  "start_code = [Lock_Lifecycle, Running_Exchange [Run_Callbacks, Spawn_Loop], Unlock_Lifecycle]"

text \<open>\<open>n\<close> is the number of registrations that \<open>stop\<close> collects.\<close>

definition stop_code :: "nat \<Rightarrow> instr list" where
  "stop_code n =
     [Lock_Lifecycle, Running_Clear,
      Unless_Event_Thread
        (Join_Loop # [Lock_Mtx, Unlock_Mtx] @ concat (replicate n operation_code) @
         [Lock_Mtx, Unlock_Mtx, Run_Callbacks]),
      Unlock_Lifecycle]"

definition event_loop_code :: "instr list" where
  "event_loop_code = [While_Running]"

datatype api_call = Call_Operation | Call_Start | Call_Stop nat

fun api_code :: "api_call \<Rightarrow> instr list" where
  "api_code Call_Operation = operation_code"
| "api_code Call_Start = start_code"
| "api_code (Call_Stop n) = stop_code n"

section \<open>Steps\<close>

text \<open>
  \<open>lc_lifecycle\<close> is the owner of \<open>lifecycle_mtx_\<close>, \<open>lc_mtx\<close> the owner of the
  recursive mutex with its count. \<open>lc_thread\<close> is the thread that \<open>event_thread_\<close> owns.
  The first \<open>lc_apps\<close> threads are the application's, the others event threads; each is the code
  it still has to run.
\<close>

record lifecycle =
  lc_apps :: nat
  lc_lifecycle :: "nat option"
  lc_mtx :: "(nat \<times> nat) option"
  lc_running :: bool
  lc_thread :: "nat option"
  lc_code :: "instr list list"
  lc_terminated :: bool

definition lifecycle_init :: "nat \<Rightarrow> lifecycle" where
  "lifecycle_init n = \<lparr>lc_apps = n, lc_lifecycle = None, lc_mtx = None, lc_running = False,
     lc_thread = None, lc_code = replicate n [], lc_terminated = False\<rparr>"

definition goto :: "nat \<Rightarrow> instr list \<Rightarrow> lifecycle \<Rightarrow> lifecycle" where
  "goto t k s = s\<lparr>lc_code := (lc_code s)[t := k]\<rparr>"

text \<open>
  One instruction of thread \<open>t\<close>; \<open>None\<close> when it has to wait. Destroying a thread object that
  is still joinable, here by assigning to \<open>event_thread_\<close>, terminates the program.
\<close>

fun exec :: "nat \<Rightarrow> instr \<Rightarrow> instr list \<Rightarrow> lifecycle \<Rightarrow> lifecycle option" where
  "exec t Lock_Lifecycle k s =
     (if lc_lifecycle s = None then Some (goto t k (s\<lparr>lc_lifecycle := Some t\<rparr>)) else None)"
| "exec t Unlock_Lifecycle k s = Some (goto t k (s\<lparr>lc_lifecycle := None\<rparr>))"
| "exec t Lock_Mtx k s =
     (case lc_mtx s of
        None \<Rightarrow> Some (goto t k (s\<lparr>lc_mtx := Some (t, 1)\<rparr>))
      | Some (u, d) \<Rightarrow> if u = t then Some (goto t k (s\<lparr>lc_mtx := Some (t, d + 1)\<rparr>)) else None)"
| "exec t Unlock_Mtx k s =
     (case lc_mtx s of
        None \<Rightarrow> Some (goto t k s)
      | Some (u, d) \<Rightarrow> Some (goto t k (s\<lparr>lc_mtx := (if d \<le> 1 then None else Some (u, d - 1))\<rparr>)))"
| "exec t (Running_Exchange b) k s =
     Some (goto t (if lc_running s then k else b @ k) (s\<lparr>lc_running := True\<rparr>))"
| "exec t Running_Clear k s = Some (goto t k (s\<lparr>lc_running := False\<rparr>))"
| "exec t (Unless_Event_Thread b) k s =
     Some (goto t (if lc_thread s = Some t then k else b @ k) s)"
| "exec t Spawn_Loop k s =
     (case lc_thread s of
        Some _ \<Rightarrow> Some (s\<lparr>lc_terminated := True\<rparr>)
      | None \<Rightarrow> let s' = goto t k s
                in Some (s'\<lparr>lc_thread := Some (length (lc_code s')),
                            lc_code := lc_code s' @ [event_loop_code]\<rparr>))"
| "exec t Join_Loop k s =
     (case lc_thread s of
        None \<Rightarrow> Some (goto t k s)
      | Some e \<Rightarrow>
          if lc_code s ! e = [] then Some (goto t k (s\<lparr>lc_thread := None\<rparr>)) else None)"
| "exec t Run_Callbacks k s = Some (goto t k s)"
| "exec t While_Running k s =
     Some (goto t (if lc_running s then operation_code @ While_Running # k else k) s)"

text \<open>
  A step inside the calls that are under way. \<open>A\<close> holds the calls that the application makes from
  its callbacks.
\<close>

inductive thread_step :: "api_call set \<Rightarrow> lifecycle \<Rightarrow> lifecycle \<Rightarrow> bool" for A where
  exec_step: "\<lbrakk>\<not> lc_terminated s; t < length (lc_code s); lc_code s ! t = i # k;
     exec t i k s = Some s'\<rbrakk> \<Longrightarrow> thread_step A s s'"
| callback_step: "\<lbrakk>\<not> lc_terminated s; t < length (lc_code s); lc_code s ! t = Run_Callbacks # k;
     a \<in> A\<rbrakk> \<Longrightarrow> thread_step A s (goto t (api_code a @ Run_Callbacks # k) s)"

text \<open>An application thread that is not in a call makes one.\<close>

inductive app_step :: "lifecycle \<Rightarrow> lifecycle \<Rightarrow> bool" where
  app_call: "\<lbrakk>\<not> lc_terminated s; t < lc_apps s; t < length (lc_code s); lc_code s ! t = []\<rbrakk> \<Longrightarrow>
     app_step s (goto t (api_code a) s)"

inductive lifecycle_reachable :: "api_call set \<Rightarrow> nat \<Rightarrow> lifecycle \<Rightarrow> bool" for A n where
  reach_init: "lifecycle_reachable A n (lifecycle_init n)"
| reach_thread: "\<lbrakk>lifecycle_reachable A n s; thread_step A s s'\<rbrakk> \<Longrightarrow> lifecycle_reachable A n s'"
| reach_app: "\<lbrakk>lifecycle_reachable A n s; app_step s s'\<rbrakk> \<Longrightarrow> lifecycle_reachable A n s'"

text \<open>Thread \<open>t\<close> is inside a call, or inside the event loop.\<close>

definition busy :: "lifecycle \<Rightarrow> nat \<Rightarrow> bool" where
  "busy s t \<longleftrightarrow> t < length (lc_code s) \<and> lc_code s ! t \<noteq> []"

section \<open>One event loop\<close>

text \<open>Whatever the callbacks call, only the thread that the client owns is inside the loop.\<close>

definition one_loop :: "lifecycle \<Rightarrow> bool" where
  "one_loop s \<longleftrightarrow> lc_apps s \<le> length (lc_code s) \<and>
     (case lc_thread s of None \<Rightarrow> True | Some e \<Rightarrow> lc_apps s \<le> e \<and> e < length (lc_code s)) \<and>
     (\<forall>e. lc_apps s \<le> e \<and> lc_thread s \<noteq> Some e \<longrightarrow> \<not> busy s e)"

lemma goto_simps [simp]:
  "lc_apps (goto t k s) = lc_apps s" "lc_lifecycle (goto t k s) = lc_lifecycle s"
  "lc_mtx (goto t k s) = lc_mtx s" "lc_running (goto t k s) = lc_running s"
  "lc_thread (goto t k s) = lc_thread s" "lc_terminated (goto t k s) = lc_terminated s"
  "lc_code (goto t k s) = (lc_code s)[t := k]"
  by (simp_all add: goto_def)

lemma busy_goto: "t < length (lc_code s) \<Longrightarrow> busy (goto t k s) u \<longleftrightarrow> (if u = t then k \<noteq> [] else busy s u)"
  by (simp add: busy_def)

lemma busy_cong: "lc_code s' = lc_code s \<Longrightarrow> busy s' u \<longleftrightarrow> busy s u"
  by (simp add: busy_def)

lemma one_loop_cong:
  "\<lbrakk>lc_apps s' = lc_apps s; lc_thread s' = lc_thread s; lc_code s' = lc_code s\<rbrakk> \<Longrightarrow>
   one_loop s' \<longleftrightarrow> one_loop s"
  by (simp add: one_loop_def busy_def split: option.split)

lemma one_loop_goto:
  assumes s: "one_loop s" "busy s t"
  shows "one_loop (goto t k s)"
proof -
  have t: "t < length (lc_code s)"
    using s(2) by (simp add: busy_def)
  have "\<not> busy (goto t k s) e" if "lc_apps s \<le> e" "lc_thread s \<noteq> Some e" for e
    using s that by (cases "e = t") (simp_all add: one_loop_def busy_goto[OF t])
  then show ?thesis
    using s(1) by (simp add: one_loop_def split: option.splits)
qed

text \<open>Instructions that change neither the owned thread nor the number of threads.\<close>

lemma one_loop_goto_cong:
  assumes "one_loop s" "busy s t"
    and r: "lc_apps r = lc_apps s" "lc_thread r = lc_thread s" "lc_code r = lc_code s"
  shows "one_loop (goto t k r)"
  using assms(1,2) one_loop_goto[of r t k] one_loop_cong[OF r] busy_cong[OF r(3)] by simp

lemma one_loop_spawn:
  assumes "one_loop s" "lc_thread s = None"
  shows "one_loop (s\<lparr>lc_thread := Some (length (lc_code s)), lc_code := lc_code s @ [c]\<rparr>)"
proof -
  have "\<not> busy (s\<lparr>lc_thread := Some (length (lc_code s)), lc_code := lc_code s @ [c]\<rparr>) e"
    if "lc_apps s \<le> e" "e \<noteq> length (lc_code s)" for e
    using assms that by (auto simp: one_loop_def busy_def nth_append)
  then show ?thesis
    using assms by (simp add: one_loop_def)
qed

lemma one_loop_join:
  assumes "one_loop s" "lc_thread s = Some e" "lc_code s ! e = []"
  shows "one_loop (s\<lparr>lc_thread := None\<rparr>)"
proof -
  have "\<not> busy (s\<lparr>lc_thread := None\<rparr>) u" if "lc_apps s \<le> u" for u
    using assms that by (cases "u = e") (auto simp: one_loop_def busy_def)
  then show ?thesis
    using assms by (simp add: one_loop_def)
qed

lemma exec_one_loop:
  assumes s: "one_loop s" "busy s t" and e: "exec t i k s = Some s'"
  shows "one_loop s'"
proof (cases i)
  case Spawn_Loop
  show ?thesis
  proof (cases "lc_thread s")
    case None
    with Spawn_Loop e s one_loop_spawn[OF one_loop_goto[OF s, of k]] show ?thesis
      by (auto simp: Let_def)
  next
    case (Some u)
    with Spawn_Loop e s one_loop_cong[of s' s] show ?thesis
      by auto
  qed
next
  case Join_Loop
  show ?thesis
  proof (cases "lc_thread s")
    case None
    with Join_Loop e s show ?thesis
      by (auto intro: one_loop_goto)
  next
    case (Some u)
    then have u: "lc_code s ! u = []" "s' = goto t k (s\<lparr>lc_thread := None\<rparr>)"
      using Join_Loop e by (auto split: if_splits)
    from one_loop_join[OF s(1) Some u(1)] s(2) show ?thesis
      unfolding u(2) by (intro one_loop_goto) (simp_all add: busy_def)
  qed
qed (use e s in \<open>auto simp del: goto_simps intro!: one_loop_goto_cong[OF s] split: option.splits if_splits\<close>)

lemma thread_step_one_loop: "\<lbrakk>thread_step A s s'; one_loop s\<rbrakk> \<Longrightarrow> one_loop s'"
proof (induction rule: thread_step.induct)
  case (exec_step s t i k s')
  then show ?case
    using exec_one_loop[of s t i k s'] by (simp add: busy_def)
next
  case (callback_step s t k a)
  then show ?case
    using one_loop_goto[of s t] by (simp add: busy_def)
qed

lemma app_step_one_loop:
  assumes "app_step s s'" "one_loop s"
  shows "one_loop s'"
  using assms
proof (induction rule: app_step.induct)
  case (app_call s t a)
  have "\<not> busy (goto t (api_code a) s) e" if "lc_apps s \<le> e" "lc_thread s \<noteq> Some e" for e
    using app_call that by (simp add: busy_goto one_loop_def)
  then show ?case
    using app_call by (simp add: one_loop_def split: option.splits)
qed

lemma one_loop_init: "one_loop (lifecycle_init n)"
  by (simp add: lifecycle_init_def one_loop_def busy_def)

lemma reachable_one_loop: "lifecycle_reachable A n s \<Longrightarrow> one_loop s"
  by (induction rule: lifecycle_reachable.induct)
    (blast intro: one_loop_init thread_step_one_loop app_step_one_loop)+

section \<open>Schedules\<close>

text \<open>Concrete interleavings: a call, a call from a callback, or a step of a thread.\<close>

datatype schedule_event = Make_Call nat api_call | Make_Callback nat api_call | Step nat

fun schedule_step :: "schedule_event \<Rightarrow> lifecycle \<Rightarrow> lifecycle option" where
  "schedule_step (Make_Call t a) s =
     (if \<not> lc_terminated s \<and> t < lc_apps s \<and> t < length (lc_code s) \<and> lc_code s ! t = []
      then Some (goto t (api_code a) s) else None)"
| "schedule_step (Make_Callback t a) s =
     (if lc_terminated s \<or> length (lc_code s) \<le> t then None
      else case lc_code s ! t of
        Run_Callbacks # k \<Rightarrow> Some (goto t (api_code a @ Run_Callbacks # k) s) | _ \<Rightarrow> None)"
| "schedule_step (Step t) s =
     (if lc_terminated s \<or> length (lc_code s) \<le> t then None
      else case lc_code s ! t of [] \<Rightarrow> None | i # k \<Rightarrow> exec t i k s)"

fun schedule :: "schedule_event list \<Rightarrow> lifecycle \<Rightarrow> lifecycle option" where
  "schedule [] s = Some s"
| "schedule (e # es) s = (case schedule_step e s of None \<Rightarrow> None | Some s' \<Rightarrow> schedule es s')"

lemma schedule_append:
  "schedule (es @ fs) s = (case schedule es s of None \<Rightarrow> None | Some s' \<Rightarrow> schedule fs s')"
  by (induction es arbitrary: s) (auto split: option.splits)

fun callback_of :: "schedule_event \<Rightarrow> api_call set" where
  "callback_of (Make_Callback t a) = {a}"
| "callback_of _ = {}"

lemma schedule_step_reachable:
  assumes "schedule_step e s = Some s'" "lifecycle_reachable A n s" "callback_of e \<subseteq> A"
  shows "lifecycle_reachable A n s'"
proof (cases e)
  case (Make_Call t a)
  with assms(1) have "app_step s s'"
    using app_call[of s t a] by (auto split: if_splits)
  with assms(2) show ?thesis by (rule reach_app)
next
  case (Make_Callback t a)
  with assms(1,3) have "thread_step A s s'"
    using callback_step[of s t _ a A] by (auto split: if_splits list.splits instr.splits)
  with assms(2) show ?thesis by (rule reach_thread)
next
  case (Step t)
  with assms(1) have "thread_step A s s'"
    using exec_step[of s t] by (auto split: if_splits list.splits)
  with assms(2) show ?thesis by (rule reach_thread)
qed

lemma schedule_reachable:
  assumes "schedule es s = Some s'" "lifecycle_reachable A n s" "\<Union> (callback_of ` set es) \<subseteq> A"
  shows "lifecycle_reachable A n s'"
  using assms
  by (induction es arbitrary: s) (auto split: option.splits intro: schedule_step_reachable)

text \<open>Application thread 0 starts the client; the event thread is then thread 1.\<close>

definition started :: "schedule_event list" where
  "started = [Make_Call 0 Call_Start, Step 0, Step 0, Step 0, Step 0, Step 0]"

lemmas schedule_defs = started_def lifecycle_init_def goto_def start_code_def stop_code_def
  operation_code_def event_loop_code_def

lemma started_state:
  "schedule started (lifecycle_init 1) = Some \<lparr>lc_apps = 1, lc_lifecycle = None, lc_mtx = None,
     lc_running = True, lc_thread = Some 1, lc_code = [[], [While_Running]], lc_terminated = False\<rparr>"
  by (simp add: schedule_defs)

text \<open>A state in which every thread waits.\<close>

definition deadlocked :: "api_call set \<Rightarrow> lifecycle \<Rightarrow> bool" where
  "deadlocked A s \<longleftrightarrow> \<not> lc_terminated s \<and> (\<forall>s'. \<not> thread_step A s s' \<and> \<not> app_step s s')"

lemma deadlockedI:
  assumes "\<not> lc_terminated s"
    "\<And>t. t < length (lc_code s) \<Longrightarrow>
       \<exists>i k. lc_code s ! t = i # k \<and> i \<noteq> Run_Callbacks \<and> exec t i k s = None"
  shows "deadlocked A s"
  unfolding deadlocked_def
proof (intro conjI allI notI)
  fix s' assume "thread_step A s s'"
  then show False
    using assms(2) by cases force+
next
  fix s' assume "app_step s s'"
  then show False
    using assms(2) by cases force
qed (use assms(1) in simp)

text \<open>
  The event thread calls \<open>stop\<close> from a callback while the application is joining it; a callback
  on the application's thread calls \<open>stop\<close> under \<open>mtx_\<close>; the application starts the client
  again after \<open>stop\<close> on the event thread.
\<close>

definition stop_while_joining :: "schedule_event list" where
  "stop_while_joining = started @ [Step 1, Step 1, Make_Callback 1 (Call_Stop 0),
     Make_Call 0 (Call_Stop 0), Step 0, Step 0, Step 0]"

definition stop_under_mtx :: "schedule_event list" where
  "stop_under_mtx = started @ [Step 1, Make_Call 0 Call_Operation, Step 0,
     Make_Callback 0 (Call_Stop 0), Step 0, Step 0, Step 0]"

definition restart_after_stop :: "schedule_event list" where
  "restart_after_stop = started @ [Step 1, Step 1, Make_Callback 1 (Call_Stop 0), Step 1, Step 1,
     Step 1, Step 1, Make_Call 0 Call_Start, Step 0, Step 0, Step 0, Step 0]"

lemma stop_while_joining_state:
  "\<exists>s k l. schedule stop_while_joining (lifecycle_init 1) = Some s \<and> \<not> lc_terminated s \<and>
     lc_code s = [Join_Loop # k, Lock_Lifecycle # l] \<and> lc_lifecycle s = Some 0 \<and> lc_thread s = Some 1"
  unfolding stop_while_joining_def schedule_append started_state
  by (simp add: schedule_defs)

lemma stop_under_mtx_state:
  "\<exists>s k l. schedule stop_under_mtx (lifecycle_init 1) = Some s \<and> \<not> lc_terminated s \<and>
     lc_code s = [Join_Loop # k, Lock_Mtx # l] \<and> lc_mtx s = Some (0, 1) \<and> lc_thread s = Some 1"
  unfolding stop_under_mtx_def schedule_append started_state
  by (simp add: schedule_defs)

lemma restart_after_stop_state:
  "\<exists>s. schedule restart_after_stop (lifecycle_init 1) = Some s \<and> lc_terminated s"
  unfolding restart_after_stop_def schedule_append started_state
  by (simp add: schedule_defs)

section \<open>Agreement with the sequential model\<close>

text \<open>
  \<open>start\<close> and \<open>stop\<close> of \<open>Client_Session\<close> keep the flag and the presence of the event
  thread as two members. A thread that is not interrupted leaves them as those functions say.
\<close>

definition represents :: "lifecycle \<Rightarrow> client \<Rightarrow> bool" where
  "represents s c \<longleftrightarrow> lc_running s = cl_running c \<and> (lc_thread s \<noteq> None) = cl_event_thread c"

lemma drop_registration_event_thread:
  "cl_event_thread (drop_registration ssid c) = cl_event_thread c"
  by (simp add: drop_registration_def Let_def emit_def)

lemma deregister_all_event_thread:
  "cl_running (deregister_all exs ssids c) = cl_running c \<and>
   cl_event_thread (deregister_all exs ssids c) = cl_event_thread c"
proof (induction ssids arbitrary: c)
  case (Cons ssid ssids)
  have "cl_running (snd (deregister (exs ssid) ssid c)) = cl_running c \<and>
    cl_event_thread (snd (deregister (exs ssid) ssid c)) = cl_event_thread c"
    by (cases rule: deregister_cases [where c = c and ssid = ssid and ex = "exs ssid"])
      (auto simp: waited_def frame_def drop_registration_event_thread)
  with Cons show ?case by simp
qed simp

lemma stop_members:
  "cl_running (stop on_event_thread exs c) = False"
  "cl_event_thread (stop on_event_thread exs c) = (cl_event_thread c \<and> on_event_thread)"
  using deregister_all_event_thread by (simp_all add: stop_def Let_def)

lemma start_alone:
  assumes "\<not> lc_terminated s" "0 < lc_apps s" "0 < length (lc_code s)" "lc_code s ! 0 = []"
    "lc_lifecycle s = None" "lc_running s \<longleftrightarrow> lc_thread s \<noteq> None" "represents s c"
  shows "\<exists>s'. schedule (Make_Call 0 Call_Start # replicate (if cl_running c then 3 else 5) (Step 0)) s =
      Some s' \<and> lc_code s' ! 0 = [] \<and> represents s' (snd (start c))"
proof (cases "cl_running c")
  case True
  with assms show ?thesis
    by (auto simp: start_code_def start_def represents_def numeral_3_eq_3)
next
  case False
  then have "\<not> lc_running s" "lc_thread s = None"
    using assms(6,7) by (auto simp: represents_def)
  with assms False show ?thesis
    by (simp add: start_code_def start_def represents_def eval_nat_numeral nth_append Let_def)
qed

lemma operations_alone:
  assumes "\<not> lc_terminated s" "t < length (lc_code s)" "lc_mtx s = None"
    "lc_code s ! t = concat (replicate n operation_code) @ k"
  shows "schedule (replicate (3 * n) (Step t)) s = Some (goto t k s)"
  using assms
proof (induction n arbitrary: s)
  case 0
  then have "(lc_code s)[t := k] = lc_code s"
    using list_update_id[of "lc_code s" t] by simp
  then show ?case by (simp add: goto_def)
next
  case (Suc n)
  let ?l = "concat (replicate n operation_code) @ k"
  have "replicate (3 * Suc n) (Step t) = [Step t, Step t, Step t] @ replicate (3 * n) (Step t)"
    by (simp add: numeral_3_eq_3)
  moreover have "schedule [Step t, Step t, Step t] s = Some (goto t ?l s)"
    using Suc.prems by (simp add: operation_code_def goto_def)
  moreover have "schedule (replicate (3 * n) (Step t)) (goto t ?l s) = Some (goto t k s)"
    using Suc.prems Suc.IH[of "goto t ?l s"] by (simp add: goto_def)
  ultimately show ?case by (simp only: schedule_append) simp
qed

lemma stop_alone:
  assumes "\<not> lc_terminated s" "0 < lc_apps s" "lc_code s ! 0 = []" "one_loop s"
    "lc_lifecycle s = None" "lc_mtx s = None" "lc_thread s = Some e" "lc_code s ! e = [While_Running]"
  shows "\<exists>s'. schedule (Make_Call 0 (Call_Stop n) # replicate 3 (Step 0) @ [Step e] @
      replicate 3 (Step 0) @ replicate (3 * n) (Step 0) @ replicate 4 (Step 0)) s = Some s' \<and>
      \<not> busy s' 0 \<and> \<not> busy s' e \<and> represents s' (stop False exs c)"
proof -
  have e: "e < length (lc_code s)" "0 < e" "0 < length (lc_code s)"
    using assms(2,4,7) by (auto simp: one_loop_def)
  let ?final = "[Lock_Mtx, Unlock_Mtx, Run_Callbacks, Unlock_Lifecycle]"
  define r where "r = s\<lparr>lc_lifecycle := Some 0, lc_running := False, lc_thread := None,
    lc_code := (lc_code s)[0 := concat (replicate n operation_code) @ ?final, e := []]\<rparr>"
  have "schedule (Make_Call 0 (Call_Stop n) # replicate 3 (Step 0) @ [Step e] @ replicate 3 (Step 0)) s
      = Some r"
    using assms e
    by (simp add: stop_code_def goto_def numeral_3_eq_3 nth_list_update r_def list_update_swap)
  moreover have "schedule (replicate (3 * n) (Step 0)) r = Some (goto 0 ?final r)"
    using assms e by (intro operations_alone) (simp_all add: r_def nth_list_update)
  moreover have "schedule (replicate 4 (Step 0)) (goto 0 ?final r) =
      Some (goto 0 [] (r\<lparr>lc_lifecycle := None\<rparr>))"
    using assms e by (simp add: r_def goto_def eval_nat_numeral)
  ultimately have "schedule ((Make_Call 0 (Call_Stop n) # replicate 3 (Step 0) @ [Step e] @
      replicate 3 (Step 0)) @ replicate (3 * n) (Step 0) @ replicate 4 (Step 0)) s =
      Some (goto 0 [] (r\<lparr>lc_lifecycle := None\<rparr>))"
    by (simp only: schedule_append) simp
  then show ?thesis
    using e by (simp add: represents_def stop_members busy_def r_def)
qed

lemma stop_on_event_thread:
  assumes "\<not> lc_terminated s" "e < length (lc_code s)" "lc_code s ! e = Run_Callbacks # k"
    "lc_lifecycle s = None" "lc_thread s = Some e" "cl_event_thread c"
  shows "\<exists>s'. schedule (Make_Callback e (Call_Stop n) # replicate 4 (Step e)) s = Some s' \<and>
      lc_code s' ! e = Run_Callbacks # k \<and> represents s' (stop True exs c)"
  using assms by (simp add: stop_code_def eval_nat_numeral represents_def stop_members)

end
