(* ===== verification/Client_Locking.thy ===== *)
theory Client_Locking
  imports Client_Lifecycle
begin

text \<open>
  The locking discipline of \<open>src/client.cpp\<close> over the interleavings of \<open>Client_Lifecycle\<close>:
  a type system for the code of the threads that every reachable state satisfies when the callbacks
  call public operations but neither \<open>start\<close> nor \<open>stop\<close>. It gives progress, and a bound on
  the steps until \<open>stop\<close> has returned. Callbacks that do call \<open>stop\<close> lead to the deadlocks
  and to the termination of the program at the end.
\<close>

section \<open>The locking discipline\<close>

text \<open>
  What the holder of the lifecycle lock is doing: nothing yet or nothing more, between setting the
  flag and starting the thread, or between clearing the flag and the end of the join.
\<close>

datatype lifecycle_phase = Balanced | Starting | Stopping

fun phase_ok :: "lifecycle_phase \<Rightarrow> bool \<Rightarrow> nat option \<Rightarrow> bool" where
  "phase_ok Balanced running thread \<longleftrightarrow> (running \<longleftrightarrow> thread \<noteq> None)"
| "phase_ok Starting running thread \<longleftrightarrow> running \<and> thread = None"
| "phase_ok Stopping running thread \<longleftrightarrow> \<not> running"

text \<open>
  A type system for the code of a thread that holds \<open>mtx_\<close> \<open>h\<close> times and, when \<open>l\<close> is
  not \<open>None\<close>, the lifecycle lock in that phase: nothing waits for the lifecycle lock or for the
  event thread while it holds \<open>mtx_\<close>, and every lock taken is released.
\<close>

function lock_ok :: "nat \<Rightarrow> lifecycle_phase option \<Rightarrow> instr list \<Rightarrow> bool" where
  "lock_ok h l [] \<longleftrightarrow> h = 0 \<and> l = None"
| "lock_ok h l (Lock_Lifecycle # k) \<longleftrightarrow> h = 0 \<and> l = None \<and> lock_ok h (Some Balanced) k"
| "lock_ok h l (Unlock_Lifecycle # k) \<longleftrightarrow> h = 0 \<and> l = Some Balanced \<and> lock_ok h None k"
| "lock_ok h l (Lock_Mtx # k) \<longleftrightarrow> lock_ok (Suc h) l k"
| "lock_ok h l (Unlock_Mtx # k) \<longleftrightarrow> h > 0 \<and> lock_ok (h - 1) l k"
| "lock_ok h l (Running_Exchange b # k) \<longleftrightarrow> h = 0 \<and> l = Some Balanced \<and>
     lock_ok h (Some Starting) (b @ k) \<and> lock_ok h (Some Balanced) k"
| "lock_ok h l (Running_Clear # k) \<longleftrightarrow> h = 0 \<and> l = Some Balanced \<and> lock_ok h (Some Stopping) k"
| "lock_ok h l (Unless_Event_Thread b # k) \<longleftrightarrow> h = 0 \<and> l = Some Stopping \<and>
     lock_ok h (Some Stopping) (b @ k)"
| "lock_ok h l (Spawn_Loop # k) \<longleftrightarrow> h = 0 \<and> l = Some Starting \<and> lock_ok h (Some Balanced) k"
| "lock_ok h l (Join_Loop # k) \<longleftrightarrow> h = 0 \<and> l = Some Stopping \<and> lock_ok h (Some Balanced) k"
| "lock_ok h l (Run_Callbacks # k) \<longleftrightarrow> lock_ok h l k"
| "lock_ok h l (While_Running # k) \<longleftrightarrow> h = 0 \<and> l = None \<and> lock_ok h l k"
  by pat_completeness auto
termination by (relation "measure (\<lambda>(h, l, k). size_list size k)") simp_all

lemma lock_ok_operation [simp]: "lock_ok h l (operation_code @ k) \<longleftrightarrow> lock_ok h l k"
  by (simp add: operation_code_def)

lemma lock_ok_operations: "lock_ok h l (concat (replicate n operation_code) @ k) \<longleftrightarrow> lock_ok h l k"
  by (induction n) simp_all

lemma lock_ok_api: "lock_ok 0 None (api_code a)"
  using lock_ok_operation[of 0 None "[]"]
  by (cases a) (simp_all add: start_code_def stop_code_def lock_ok_operations)

lemma lock_ok_loop: "lock_ok 0 None event_loop_code"
  by (simp add: event_loop_code_def)

text \<open>Event threads never touch the lifecycle lock when the callbacks only call operations.\<close>

definition loop_instrs :: "instr list \<Rightarrow> bool" where
  "loop_instrs k \<longleftrightarrow> set k \<subseteq> {Lock_Mtx, Unlock_Mtx, Run_Callbacks, While_Running}"

definition mtx_depth :: "lifecycle \<Rightarrow> nat \<Rightarrow> nat" where
  "mtx_depth s t = (case lc_mtx s of None \<Rightarrow> 0 | Some (u, d) \<Rightarrow> if u = t then d else 0)"

definition held_phase :: "lifecycle \<Rightarrow> lifecycle_phase \<Rightarrow> nat \<Rightarrow> lifecycle_phase option" where
  "held_phase s ph t = (if lc_lifecycle s = Some t then Some ph else None)"

definition thread_ok :: "lifecycle \<Rightarrow> lifecycle_phase \<Rightarrow> nat \<Rightarrow> bool" where
  "thread_ok s ph t \<longleftrightarrow> lock_ok (mtx_depth s t) (held_phase s ph t) (lc_code s ! t) \<and>
     (lc_apps s \<le> t \<longrightarrow> lc_lifecycle s \<noteq> Some t \<and> loop_instrs (lc_code s ! t))"

definition locks_ok :: "lifecycle_phase \<Rightarrow> lifecycle \<Rightarrow> bool" where
  "locks_ok ph s \<longleftrightarrow> \<not> lc_terminated s \<and> phase_ok ph (lc_running s) (lc_thread s) \<and>
     (lc_lifecycle s = None \<longrightarrow> ph = Balanced) \<and>
     (\<forall>t. lc_lifecycle s = Some t \<longrightarrow> t < length (lc_code s)) \<and>
     (\<forall>t d. lc_mtx s = Some (t, d) \<longrightarrow> t < length (lc_code s) \<and> d > 0) \<and>
     (\<forall>t < length (lc_code s). thread_ok s ph t)"

subsection \<open>Progress\<close>

lemma exec_blocked:
  "exec t i k s = None \<longleftrightarrow>
     i = Lock_Lifecycle \<and> lc_lifecycle s \<noteq> None \<or>
     i = Lock_Mtx \<and> (\<exists>u d. lc_mtx s = Some (u, d) \<and> u \<noteq> t) \<or>
     i = Join_Loop \<and> (\<exists>e. lc_thread s = Some e \<and> lc_code s ! e \<noteq> [])"
  by (cases i) (auto simp: Let_def split: option.splits)

lemma lock_ok_holder_mtx:
  "\<lbrakk>lock_ok h l k; h > 0\<rbrakk> \<Longrightarrow> \<exists>i k'. k = i # k' \<and> i \<noteq> Lock_Lifecycle \<and> i \<noteq> Join_Loop"
  by (cases "(h, l, k)" rule: lock_ok.cases) simp_all

lemma lock_ok_holder_lifecycle:
  "lock_ok h (Some ph) k \<Longrightarrow> \<exists>i k'. k = i # k' \<and> i \<noteq> Lock_Lifecycle"
  by (cases "(h, Some ph, k)" rule: lock_ok.cases) simp_all

lemma enabled_step:
  assumes "locks_ok ph s" "t < length (lc_code s)" "lc_code s ! t = i # k" "exec t i k s \<noteq> None"
  shows "\<exists>s'. thread_step A s s'"
  using assms thread_step.exec_step[of s t i k] by (auto simp: locks_ok_def)

text \<open>Some thread that is inside a call or the loop can always go on.\<close>

lemma locks_progress:
  assumes s: "locks_ok ph s" and one: "one_loop s" and b: "busy s t"
  shows "\<exists>s'. thread_step A s s'"
proof (cases "lc_mtx s")
  case (Some o')
  then obtain u d where u: "lc_mtx s = Some (u, d)" "u < length (lc_code s)" "d > 0"
    using s by (cases o') (auto simp: locks_ok_def)
  then have "lock_ok d (held_phase s ph u) (lc_code s ! u)"
    using s by (auto simp: locks_ok_def thread_ok_def mtx_depth_def)
  from lock_ok_holder_mtx[OF this u(3)] obtain i k
    where "lc_code s ! u = i # k" "i \<noteq> Lock_Lifecycle" "i \<noteq> Join_Loop" by blast
  with enabled_step[OF s u(2), of i k A] u(1) show ?thesis
    unfolding exec_blocked by auto
next
  case mtx: None
  show ?thesis
  proof (cases "lc_lifecycle s")
    case (Some u)
    then have u: "u < length (lc_code s)" "lock_ok (mtx_depth s u) (Some ph) (lc_code s ! u)"
      using s by (auto simp: locks_ok_def thread_ok_def held_phase_def)
    from lock_ok_holder_lifecycle[OF u(2)] obtain i k
      where i: "lc_code s ! u = i # k" "i \<noteq> Lock_Lifecycle" by blast
    show ?thesis
    proof (cases "exec u i k s")
      case None
      with i mtx obtain e where e: "lc_thread s = Some e" "lc_code s ! e \<noteq> []"
        unfolding exec_blocked by auto
      have e': "e < length (lc_code s)" "lc_apps s \<le> e"
        using one e(1) by (simp_all add: one_loop_def)
      then have "loop_instrs (lc_code s ! e)"
        using s by (simp add: locks_ok_def thread_ok_def)
      with e(2) obtain j l where "lc_code s ! e = j # l" "j \<noteq> Lock_Lifecycle" "j \<noteq> Join_Loop"
        by (cases "lc_code s ! e") (auto simp: loop_instrs_def)
      with enabled_step[OF s e'(1), of j l A] mtx show ?thesis
        unfolding exec_blocked by auto
    next
      case (Some s')
      with enabled_step[OF s u(1) i(1), of A] show ?thesis by simp
    qed
  next
    case None
    from b obtain i k where t: "t < length (lc_code s)" "lc_code s ! t = i # k"
      by (cases "lc_code s ! t") (auto simp: busy_def)
    have "lock_ok (mtx_depth s t) None (i # k)"
      using s t None by (auto simp: locks_ok_def thread_ok_def held_phase_def)
    then have "i \<noteq> Join_Loop" by auto
    with enabled_step[OF s t, of A] mtx None show ?thesis
      unfolding exec_blocked by auto
  qed
qed

subsection \<open>Preservation\<close>

lemma locks_ok_advance:
  assumes s: "locks_ok ph s" and t: "t < length (lc_code s)"
    and frame: "lc_apps s' = lc_apps s" "lc_code s' = (lc_code s)[t := k]" "\<not> lc_terminated s'"
      "\<And>u. u \<noteq> t \<Longrightarrow> mtx_depth s' u = mtx_depth s u \<and> held_phase s' ph' u = held_phase s ph u"
    and ph: "phase_ok ph' (lc_running s') (lc_thread s')" "lc_lifecycle s' = None \<Longrightarrow> ph' = Balanced"
    and owners: "\<And>u. lc_lifecycle s' = Some u \<Longrightarrow> u < length (lc_code s)"
      "\<And>u d. lc_mtx s' = Some (u, d) \<Longrightarrow> u < length (lc_code s) \<and> d > 0"
    and own: "lock_ok (mtx_depth s' t) (held_phase s' ph' t) k"
      "lc_apps s \<le> t \<Longrightarrow> lc_lifecycle s' \<noteq> Some t \<and> loop_instrs k"
  shows "locks_ok ph' s'"
proof -
  have "thread_ok s' ph' u" if u: "u < length (lc_code s)" for u
  proof (cases "u = t")
    case True
    then show ?thesis
      using t own frame(1,2) by (auto simp: thread_ok_def)
  next
    case False
    moreover have "thread_ok s ph u"
      using s u by (simp add: locks_ok_def)
    moreover have "lc_lifecycle s' \<noteq> Some u \<or> lc_lifecycle s = Some u"
      using frame(4)[OF False] by (auto simp: held_phase_def split: if_splits)
    ultimately show ?thesis
      using frame(1,2,4) by (auto simp: thread_ok_def)
  qed
  then show ?thesis
    using frame ph owners by (auto simp: locks_ok_def)
qed

lemma locks_okD:
  assumes "locks_ok ph s"
  shows "\<not> lc_terminated s" "phase_ok ph (lc_running s) (lc_thread s)"
    "lc_lifecycle s = None \<Longrightarrow> ph = Balanced" "lc_lifecycle s = Some u \<Longrightarrow> u < length (lc_code s)"
    "lc_mtx s = Some (u, d) \<Longrightarrow> u < length (lc_code s) \<and> d > 0"
    "t < length (lc_code s) \<Longrightarrow> thread_ok s ph t"
  using assms by (simp_all add: locks_ok_def)

text \<open>A thread that goes on with other code and takes and releases no lock.\<close>

lemma locks_ok_goto:
  assumes s: "locks_ok ph s" and t: "t < length (lc_code s)"
    and k: "lock_ok (mtx_depth s t) (held_phase s ph t) k" "lc_apps s \<le> t \<Longrightarrow> loop_instrs k"
  shows "locks_ok ph (goto t k s)"
proof (rule locks_ok_advance[OF s t, where k = k])
  fix u
  show "mtx_depth (goto t k s) u = mtx_depth s u \<and>
      held_phase (goto t k s) ph u = held_phase s ph u"
    by (simp add: mtx_depth_def held_phase_def)
  show "lock_ok (mtx_depth (goto t k s) t) (held_phase (goto t k s) ph t) k"
    using k(1) by (simp add: mtx_depth_def held_phase_def)
qed (use k(2) locks_okD[OF s] t in \<open>simp_all add: thread_ok_def\<close>)

lemma locks_ok_new_loop:
  assumes "locks_ok ph s" "lc_apps s \<le> length (lc_code s)"
  shows "locks_ok ph (s\<lparr>lc_code := lc_code s @ [event_loop_code]\<rparr>)"
proof -
  let ?s = "s\<lparr>lc_code := lc_code s @ [event_loop_code]\<rparr>" and ?n = "length (lc_code s)"
  have frame: "mtx_depth ?s u = mtx_depth s u" "held_phase ?s ph u = held_phase s ph u" for u
    by (simp_all add: mtx_depth_def held_phase_def)
  have "mtx_depth s ?n = 0" "lc_lifecycle s \<noteq> Some ?n"
    using assms(1) by (auto simp: locks_ok_def mtx_depth_def split: option.splits)
  then have "thread_ok ?s ph ?n"
    using lock_ok_loop
    by (simp add: thread_ok_def frame(1) held_phase_def loop_instrs_def mtx_depth_def
        event_loop_code_def)
  moreover have "thread_ok ?s ph u" if "u < ?n" for u
    using assms(1) that by (simp add: locks_ok_def thread_ok_def frame nth_append)
  ultimately have "thread_ok ?s ph u" if "u < Suc ?n" for u
    using that by (cases "u = ?n") auto
  then show ?thesis
    using assms(1) by (auto simp: locks_ok_def)
qed

lemma held_phase_Some: "held_phase s ph t = Some q \<longleftrightarrow> lc_lifecycle s = Some t \<and> q = ph"
  by (auto simp: held_phase_def)

lemma held_phase_None: "held_phase s ph t = None \<longleftrightarrow> lc_lifecycle s \<noteq> Some t"
  by (auto simp: held_phase_def)

lemma loop_instrs_simps:
  "loop_instrs (i # k) \<longleftrightarrow> i \<in> {Lock_Mtx, Unlock_Mtx, Run_Callbacks, While_Running} \<and> loop_instrs k"
  "loop_instrs (operation_code @ k) \<longleftrightarrow> loop_instrs k"
  by (auto simp: loop_instrs_def operation_code_def)

lemma mtx_depth_simps [simp]:
  "mtx_depth (goto t k s) u = mtx_depth s u" "mtx_depth (s\<lparr>lc_lifecycle := l\<rparr>) u = mtx_depth s u"
  "mtx_depth (s\<lparr>lc_running := r\<rparr>) u = mtx_depth s u"
  "mtx_depth (s\<lparr>lc_thread := e\<rparr>) u = mtx_depth s u"
  by (simp_all add: mtx_depth_def)

lemma mtx_depth_Some: "lc_mtx s = Some (t, d) \<Longrightarrow> mtx_depth s u = (if u = t then d else 0)"
  by (simp add: mtx_depth_def)

lemma mtx_depth_None: "lc_mtx s = None \<Longrightarrow> mtx_depth s u = 0"
  by (simp add: mtx_depth_def)

lemma exec_locks_ok:
  assumes s: "locks_ok ph s" "one_loop s" and t: "t < length (lc_code s)" "lc_code s ! t = i # k"
    and e: "exec t i k s = Some s'"
  shows "\<exists>ph'. locks_ok ph' s'"
proof -
  note advance = locks_ok_advance[OF s(1) t(1)]
  have ok: "lock_ok (mtx_depth s t) (held_phase s ph t) (i # k)"
    and app: "lc_apps s \<le> t \<Longrightarrow> lc_lifecycle s \<noteq> Some t \<and> loop_instrs (i # k)"
    and alive: "\<not> lc_terminated s" and ph: "phase_ok ph (lc_running s) (lc_thread s)"
    and free: "lc_lifecycle s = None \<Longrightarrow> ph = Balanced"
    and lowner: "\<And>u. lc_lifecycle s = Some u \<Longrightarrow> u < length (lc_code s)"
    and mowner: "\<And>u d. lc_mtx s = Some (u, d) \<Longrightarrow> u < length (lc_code s) \<and> d > 0"
    using s(1) t by (auto simp: locks_ok_def thread_ok_def)
  note facts = app alive ph free lowner mowner t(1)
  note defs = held_phase_def loop_instrs_simps
  show ?thesis
  proof (cases i)
    case Lock_Lifecycle
    with e ok facts show ?thesis
      by (intro exI[of _ Balanced] advance[where k = k])
        (auto simp: defs split: if_splits)
  next
    case Unlock_Lifecycle
    with e ok facts show ?thesis
      by (intro exI[of _ Balanced] advance[where k = k])
        (auto simp: defs split: if_splits)
  next
    case Lock_Mtx
    define d where "d = mtx_depth s t"
    have m: "s' = goto t k (s\<lparr>lc_mtx := Some (t, Suc d)\<rparr>)" "\<And>u. u \<noteq> t \<Longrightarrow> mtx_depth s u = 0"
      using Lock_Mtx e by (auto simp: mtx_depth_def d_def split: option.splits if_splits)
    have "locks_ok ph s'"
      unfolding m(1) using Lock_Mtx ok facts m(2)
      by (intro advance[where k = k]) (auto simp: defs mtx_depth_Some d_def)
    then show ?thesis ..
  next
    case Unlock_Mtx
    then obtain d where d: "lc_mtx s = Some (t, Suc d)"
      using ok mowner by (auto simp: mtx_depth_def gr0_conv_Suc split: option.splits if_splits)
    then have m: "s' = goto t k (s\<lparr>lc_mtx := (if d = 0 then None else Some (t, d))\<rparr>)"
      using Unlock_Mtx e by auto
    have "locks_ok ph s'"
      unfolding m using Unlock_Mtx ok facts d
      by (intro advance[where k = k]) (auto simp: defs mtx_depth_Some mtx_depth_None split: if_splits)
    then show ?thesis ..
  next
    case (Running_Exchange b)
    with e ok facts show ?thesis
      by (intro exI[of _ "if lc_running s then Balanced else Starting"]
          advance[where k = "if lc_running s then k else b @ k"])
        (auto simp: defs split: if_splits)
  next
    case Running_Clear
    with e ok facts show ?thesis
      by (intro exI[of _ Stopping] advance[where k = k])
        (auto simp: defs split: if_splits)
  next
    case (Unless_Event_Thread b)
    have "lc_thread s \<noteq> Some t"
      using s(2) app ok Unless_Event_Thread
      by (auto simp: one_loop_def held_phase_Some dest: not_le_imp_less)
    with Unless_Event_Thread e ok facts show ?thesis
      by (intro exI[of _ Stopping] advance[where k = "b @ k"])
        (auto simp: defs split: if_splits)
  next
    case Spawn_Loop
    then have l: "lc_lifecycle s = Some t" "ph = Starting" "lc_thread s = None"
      using ok ph by (auto simp: held_phase_Some)
    let ?s = "(goto t k s)\<lparr>lc_thread := Some (length (lc_code s))\<rparr>"
    have "locks_ok Balanced ?s"
      using Spawn_Loop ok facts l
      by (intro advance[where k = k]) (auto simp: defs)
    from locks_ok_new_loop[OF this] s(2) e Spawn_Loop l show ?thesis
      by (intro exI[of _ Balanced]) (auto simp: Let_def one_loop_def)
  next
    case Join_Loop
    with e ok facts show ?thesis
      by (intro exI[of _ Balanced] advance[where k = k])
        (auto simp: defs split: if_splits option.splits)
  next
    case Run_Callbacks
    with e ok app t locks_ok_goto[OF s(1) t(1), of k] show ?thesis
      by (auto simp: loop_instrs_simps)
  next
    case While_Running
    with e ok app t
      locks_ok_goto[OF s(1) t(1), of "if lc_running s then operation_code @ While_Running # k else k"]
    show ?thesis
      by (auto simp: loop_instrs_simps simp del: goto_simps split: if_splits)
  qed
qed

lemma thread_step_locks_ok:
  assumes "thread_step A s s'" "A \<subseteq> {Call_Operation}" "locks_ok ph s" "one_loop s"
  shows "\<exists>ph'. locks_ok ph' s'"
  using assms
proof (induction rule: thread_step.induct)
  case (exec_step s t i k s')
  then show ?case
    by (blast intro: exec_locks_ok)
next
  case (callback_step s t k a)
  then have "api_code a = operation_code" "thread_ok s ph t"
    using locks_okD(6) by auto
  with callback_step locks_ok_goto[of ph s t "api_code a @ Run_Callbacks # k"] show ?case
    by (auto simp: thread_ok_def loop_instrs_simps)
qed

lemma app_step_locks_ok:
  assumes "app_step s s'" "locks_ok ph s"
  shows "locks_ok ph s'"
  using assms
proof (induction rule: app_step.induct)
  case (app_call s t a)
  then have "thread_ok s ph t"
    by (simp add: locks_ok_def)
  with app_call have free: "mtx_depth s t = 0" "held_phase s ph t = None"
    by (simp_all add: thread_ok_def)
  show ?case
    using app_call lock_ok_api[of a] free by (intro locks_ok_goto) simp_all
qed

lemma locks_ok_init: "locks_ok Balanced (lifecycle_init n)"
  by (simp add: locks_ok_def lifecycle_init_def thread_ok_def mtx_depth_def held_phase_def)

lemma reachable_locks_ok:
  assumes "lifecycle_reachable A n s" "A \<subseteq> {Call_Operation}"
  shows "\<exists>ph. locks_ok ph s"
  using assms
proof (induction rule: lifecycle_reachable.induct)
  case reach_init
  then show ?case using locks_ok_init by blast
next
  case (reach_thread s s')
  then show ?case
    using thread_step_locks_ok reachable_one_loop by blast
next
  case (reach_app s s')
  then show ?case
    using app_step_locks_ok by blast
qed

section \<open>Stopping\<close>

text \<open>
  How many steps the code can still take while \<open>running_\<close> is clear and no callback calls the
  client.
\<close>

fun weight :: "instr \<Rightarrow> nat" where
  "weight (Running_Exchange b) = Suc (sum_list (map weight b))"
| "weight (Unless_Event_Thread b) = Suc (sum_list (map weight b))"
| "weight Spawn_Loop = 2"
| "weight _ = 1"

fun sets_running :: "instr \<Rightarrow> bool" where
  "sets_running (Running_Exchange b) \<longleftrightarrow> True"
| "sets_running (Unless_Event_Thread b) \<longleftrightarrow> list_ex sets_running b"
| "sets_running _ \<longleftrightarrow> False"

definition code_weight :: "instr list \<Rightarrow> nat" where
  "code_weight k = sum_list (map weight k)"

definition total_weight :: "lifecycle \<Rightarrow> nat" where
  "total_weight s = sum_list (map code_weight (lc_code s))"

text \<open>The client is told to stop and no thread is inside \<open>start\<close>.\<close>

definition stopping :: "lifecycle \<Rightarrow> bool" where
  "stopping s \<longleftrightarrow> \<not> lc_running s \<and> list_all (\<lambda>k. \<not> list_ex sets_running k) (lc_code s)"

lemma code_weight_simps [simp]:
  "code_weight [] = 0" "code_weight (i # k) = weight i + code_weight k"
  "code_weight (k @ l) = code_weight k + code_weight l"
  by (simp_all add: code_weight_def)

lemma sum_list_map_update:
  "t < length xs \<Longrightarrow> sum_list (map f (xs[t := x])) + f (xs ! t) = sum_list (map f xs) + (f x :: nat)"
  by (induction xs arbitrary: t) (auto split: nat.split)

lemma total_weight_goto:
  "\<lbrakk>t < length (lc_code s); code_weight k < code_weight (lc_code s ! t)\<rbrakk> \<Longrightarrow>
   total_weight (goto t k s) < total_weight s"
  using sum_list_map_update[of t "lc_code s" code_weight k] by (simp add: total_weight_def)

lemma total_weight_cong: "lc_code s' = lc_code s \<Longrightarrow> total_weight s' = total_weight s"
  by (simp add: total_weight_def)

lemma stopping_goto:
  "\<lbrakk>stopping s; t < length (lc_code s); \<not> list_ex sets_running k\<rbrakk> \<Longrightarrow> stopping (goto t k s)"
  by (auto simp: stopping_def list_all_length nth_list_update)

lemma stopping_cong:
  "\<lbrakk>stopping s; lc_code s' = lc_code s; \<not> lc_running s'\<rbrakk> \<Longrightarrow> stopping s'"
  by (simp add: stopping_def)

lemma exec_stopping:
  assumes s: "stopping s" "locks_ok ph s" and t: "t < length (lc_code s)" "lc_code s ! t = i # k"
    and e: "exec t i k s = Some s'"
  shows "stopping s' \<and> total_weight s' < total_weight s"
proof -
  have q: "\<not> sets_running i" "\<not> list_ex sets_running k" and r: "\<not> lc_running s"
    using s(1) t by (auto simp: stopping_def list_all_length)
  have go: "stopping (goto t l c) \<and> total_weight (goto t l c) < total_weight s"
    if "lc_code c = lc_code s" "\<not> lc_running c" "\<not> list_ex sets_running l"
      "code_weight l < weight i + code_weight k" for l c
    using that t stopping_goto[OF stopping_cong[OF s(1)]] total_weight_goto[of t c l]
      total_weight_cong[of c s] by simp
  show ?thesis
  proof (cases i)
    case Spawn_Loop
    have "lock_ok (mtx_depth s t) (held_phase s ph t) (Spawn_Loop # k)"
      using locks_okD(6)[OF s(2) t(1)] t Spawn_Loop by (auto simp: thread_ok_def)
    then have False
      using locks_okD(2)[OF s(2)] r by (simp add: held_phase_Some)
    then show ?thesis ..
  qed (use e q r in \<open>auto simp del: goto_simps simp: code_weight_def[symmetric]
      intro!: go[THEN conjunct1] go[THEN conjunct2] split: option.splits if_splits\<close>)
qed

lemma thread_step_stopping:
  assumes "thread_step {} s s'" "stopping s" "locks_ok ph s" "one_loop s"
  shows "stopping s' \<and> total_weight s' < total_weight s"
  using assms(1)
proof cases
  case (exec_step t i k)
  with exec_stopping[OF assms(2,3)] show ?thesis by blast
qed simp

lemma stopping_run:
  assumes "(thread_step {} ^^ m) s s'" "lifecycle_reachable {} n s" "stopping s"
  shows "lifecycle_reachable {} n s' \<and> stopping s' \<and> m + total_weight s' \<le> total_weight s"
  using assms
proof (induction m arbitrary: s')
  case (Suc m)
  then obtain r where r: "(thread_step {} ^^ m) s r" "thread_step {} r s'"
    by auto
  with Suc have IH: "lifecycle_reachable {} n r" "stopping r" "m + total_weight r \<le> total_weight s"
    by auto
  obtain ph where "locks_ok ph r"
    using reachable_locks_ok[OF IH(1)] by blast
  from thread_step_stopping[OF r(2) IH(2) this reachable_one_loop[OF IH(1)]] IH r(2) show ?case
    by (auto intro: reach_thread)
qed auto

text \<open>Nothing is held and nothing is owned when all calls have returned.\<close>

lemma idle_clean:
  assumes s: "locks_ok ph s" and idle: "\<And>t. \<not> busy s t"
  shows "lc_lifecycle s = None" "lc_mtx s = None" "lc_running s \<longleftrightarrow> lc_thread s \<noteq> None"
proof -
  have e: "lock_ok (mtx_depth s t) (held_phase s ph t) []" if "t < length (lc_code s)" for t
    using locks_okD(6)[OF s that] idle[of t] that by (simp add: thread_ok_def busy_def)
  show l: "lc_lifecycle s = None"
  proof (cases "lc_lifecycle s")
    case (Some u)
    with e[of u] locks_okD(4)[OF s Some] show ?thesis
      by (simp add: held_phase_def)
  qed simp
  show "lc_mtx s = None"
  proof (cases "lc_mtx s")
    case (Some o')
    then obtain u d where "lc_mtx s = Some (u, d)"
      by (cases o') simp
    with e[of u] locks_okD(5)[OF s this] show ?thesis
      by (simp add: mtx_depth_def)
  qed simp
  show "lc_running s \<longleftrightarrow> lc_thread s \<noteq> None"
    using locks_okD(2,3)[OF s] l by simp
qed

section \<open>Properties\<close>

text \<open>C15: While the callbacks call the client's operations but neither start nor stop, the program
  is never terminated by a thread object that is still joinable, at most one event loop runs, and in
  every interleaving some thread that is inside a call or the loop can go on: no deadlock.\<close>

theorem lifecycle_progress:
  assumes "lifecycle_reachable A n s" and "A \<subseteq> {Call_Operation}"
  shows "\<not> lc_terminated s \<and>
    (\<forall>e f. lc_apps s \<le> e \<and> busy s e \<and> lc_apps s \<le> f \<and> busy s f \<longrightarrow> e = f) \<and>
    ((\<exists>t. busy s t) \<longrightarrow> (\<exists>s'. thread_step A s s'))"
proof -
  obtain ph where ph: "locks_ok ph s"
    using reachable_locks_ok[OF assms] by blast
  have one: "one_loop s"
    using assms(1) by (rule reachable_one_loop)
  then have "e = f" if "lc_apps s \<le> e" "busy s e" "lc_apps s \<le> f" "busy s f" for e f
    using that by (metis one_loop_def option.inject)
  with locks_okD(1)[OF ph] locks_progress[OF ph one] show ?thesis
    by blast
qed

theorem lifecycle_progress_witness:
  "\<exists>s. schedule (started @ [Step 1, Step 1, Make_Callback 1 Call_Operation, Make_Call 0 (Call_Stop 2)])
      (lifecycle_init 1) = Some s \<and> \<not> lc_terminated s \<and> busy s 0 \<and> (\<exists>s'. thread_step {Call_Operation} s s')"
proof -
  let ?es = "started @ [Step 1, Step 1, Make_Callback 1 Call_Operation, Make_Call 0 (Call_Stop 2)]"
  have "\<exists>s. schedule ?es (lifecycle_init 1) = Some s \<and> busy s 0"
    unfolding schedule_append started_state by (simp add: schedule_defs busy_def)
  then obtain s where s: "schedule ?es (lifecycle_init 1) = Some s" "busy s 0"
    by blast
  have "lifecycle_reachable {Call_Operation} 1 s"
    using s(1) reach_init by (rule schedule_reachable) (simp add: started_def)
  from lifecycle_progress[OF this] s show ?thesis by blast
qed

text \<open>C14: When the client is told to stop, no thread is inside start and no callback calls the
  client, every interleaving of the calls under way is finite, with an explicit bound, and ends only
  when all calls have returned, the event thread is joined and both locks are free.\<close>

theorem stop_returns:
  assumes "lifecycle_reachable {} n s" and "stopping s" and "(thread_step {} ^^ m) s s'"
  shows "m \<le> total_weight s \<and>
    ((\<exists>s''. thread_step {} s' s'') \<or>
     (\<forall>t. \<not> busy s' t) \<and> lc_thread s' = None \<and> lc_lifecycle s' = None \<and> lc_mtx s' = None)"
proof -
  have run: "lifecycle_reachable {} n s'" "stopping s'" "m \<le> total_weight s"
    using stopping_run[OF assms(3,1,2)] by auto
  obtain ph where ph: "locks_ok ph s'"
    using reachable_locks_ok[OF run(1)] by blast
  show ?thesis
  proof (cases "\<exists>t. busy s' t")
    case True
    with run(3) locks_progress[OF ph reachable_one_loop[OF run(1)]] show ?thesis
      by blast
  next
    case False
    with run(2,3) idle_clean[OF ph] show ?thesis
      by (auto simp: stopping_def)
  qed
qed

theorem stop_returns_witness:
  "\<exists>s s'. schedule (started @ [Step 1, Make_Call 0 (Call_Stop 1), Step 0, Step 0]) (lifecycle_init 1) =
      Some s \<and> exec 1 Lock_Mtx [Run_Callbacks, Unlock_Mtx, While_Running] s = Some s' \<and>
      1 \<le> total_weight s \<and> (\<exists>s''. thread_step {} s' s'')"
proof -
  let ?es = "started @ [Step 1, Make_Call 0 (Call_Stop 1), Step 0, Step 0]"
  let ?k = "[Run_Callbacks, Unlock_Mtx, While_Running]"
  have "\<exists>s s'. schedule ?es (lifecycle_init 1) = Some s \<and> stopping s \<and> \<not> lc_terminated s \<and>
      1 < length (lc_code s) \<and> lc_code s ! 1 = Lock_Mtx # ?k \<and> exec 1 Lock_Mtx ?k s = Some s' \<and>
      lc_lifecycle s' = Some 0"
    unfolding schedule_append started_state by (simp add: schedule_defs stopping_def)
  then obtain s s' where s: "schedule ?es (lifecycle_init 1) = Some s" "stopping s"
      "\<not> lc_terminated s" "1 < length (lc_code s)" "lc_code s ! 1 = Lock_Mtx # ?k"
      "exec 1 Lock_Mtx ?k s = Some s'" "lc_lifecycle s' = Some 0"
    by blast
  have r: "lifecycle_reachable {} 1 s"
    using s(1) reach_init by (rule schedule_reachable) (simp add: started_def)
  have step: "(thread_step {} ^^ 1) s s'"
    using exec_step[OF s(3,4,5,6), of "{}"] by (simp add: eq_OO)
  show ?thesis
    using stop_returns[OF r s(2) step] s(1,6,7) by auto
qed

text \<open>C16: A callback that calls stop deadlocks the program when it runs on the event thread while
  the application stops the client, and when it runs on an application thread, which holds the
  client's mutex that the joined event loop waits for; and after a stop on the event thread the next
  start terminates the program.\<close>

theorem callback_stop_hazards:
  "(\<exists>s. lifecycle_reachable {Call_Stop 0} 1 s \<and> deadlocked {Call_Stop 0} s \<and>
     lc_lifecycle s = Some 0 \<and> hd (lc_code s ! 0) = Join_Loop \<and> hd (lc_code s ! 1) = Lock_Lifecycle) \<and>
   (\<exists>s. lifecycle_reachable {Call_Stop 0} 1 s \<and> deadlocked {Call_Stop 0} s \<and>
     lc_mtx s = Some (0, 1) \<and> hd (lc_code s ! 0) = Join_Loop \<and> hd (lc_code s ! 1) = Lock_Mtx) \<and>
   (\<exists>s. lifecycle_reachable {Call_Stop 0} 1 s \<and> lc_terminated s)"
proof (intro conjI)
  note reach = schedule_reachable[OF _ reach_init]
  obtain s k l where s: "schedule stop_while_joining (lifecycle_init 1) = Some s" "\<not> lc_terminated s"
      "lc_code s = [Join_Loop # k, Lock_Lifecycle # l]" "lc_lifecycle s = Some 0" "lc_thread s = Some 1"
    using stop_while_joining_state by blast
  have "deadlocked {Call_Stop 0} s"
    using s by (intro deadlockedI) (auto simp: less_Suc_eq)
  moreover have "lifecycle_reachable {Call_Stop 0} 1 s"
    by (rule reach[OF s(1)]) (simp add: stop_while_joining_def started_def)
  ultimately show "\<exists>s. lifecycle_reachable {Call_Stop 0} 1 s \<and> deadlocked {Call_Stop 0} s \<and>
     lc_lifecycle s = Some 0 \<and> hd (lc_code s ! 0) = Join_Loop \<and> hd (lc_code s ! 1) = Lock_Lifecycle"
    using s(3,4) by auto
next
  note reach = schedule_reachable[OF _ reach_init]
  obtain s k l where s: "schedule stop_under_mtx (lifecycle_init 1) = Some s" "\<not> lc_terminated s"
      "lc_code s = [Join_Loop # k, Lock_Mtx # l]" "lc_mtx s = Some (0, 1)" "lc_thread s = Some 1"
    using stop_under_mtx_state by blast
  have "deadlocked {Call_Stop 0} s"
    using s by (intro deadlockedI) (auto simp: less_Suc_eq)
  moreover have "lifecycle_reachable {Call_Stop 0} 1 s"
    by (rule reach[OF s(1)]) (simp add: stop_under_mtx_def started_def)
  ultimately show "\<exists>s. lifecycle_reachable {Call_Stop 0} 1 s \<and> deadlocked {Call_Stop 0} s \<and>
     lc_mtx s = Some (0, 1) \<and> hd (lc_code s ! 0) = Join_Loop \<and> hd (lc_code s ! 1) = Lock_Mtx"
    using s(3,4) by auto
next
  obtain s where s: "schedule restart_after_stop (lifecycle_init 1) = Some s" "lc_terminated s"
    using restart_after_stop_state by blast
  have "lifecycle_reachable {Call_Stop 0} 1 s"
    by (rule schedule_reachable[OF s(1) reach_init]) (simp add: restart_after_stop_def started_def)
  with s(2) show "\<exists>s. lifecycle_reachable {Call_Stop 0} 1 s \<and> lc_terminated s"
    by blast
qed

end
