(* ===== verification/Client_Limits.thy ===== *)
theory Client_Limits
  imports Client_Wire Client_Recovery
begin

text \<open>
  The edges of the client's behaviour: what the registration carries to the server and what it
  leaves out, what a server can read, and what happens at the ends of counters and lengths.
\<close>

section \<open>The registration on the wire\<close>

text \<open>
  An endpoint name with an ampersand puts a parameter of its own into the registration; lifetime and
  binding are those of the Server instance, not of the client's configuration.
\<close>

lemma registration_query_injected:
  assumes "splits_local lc" "CHR ''&'' \<notin> set (srv_binding srv)"
    "CHR ''&'' \<notin> set ep" "query_param extra"
    "ccf_endpoint_name (cl_config c) = ep @ ''&'' @ extra"
  shows "uri_options lc (registration_uri c srv) = path_options [''rd''] @ query_options
    [''ep='' @ ep, extra, ''lt='' @ decimal (unat (srv_lifetime srv)), ''lwm2m=1.1'',
     ''b='' @ srv_binding srv]"
proof -
  define p where "p = ''ep='' @ ep"
  define lt where "lt = ''lt='' @ decimal (unat (srv_lifetime srv))"
  define b where "b = ''b='' @ srv_binding srv"
  have params: "query_param p" "query_param lt" "query_param ''lwm2m=1.1''" "query_param b"
    using assms(2,3) decimal_no_ampersand by (auto simp: p_def lt_def b_def query_param_def)
  have "registration_uri c srv = ''/'' @ ''rd'' @ ''?'' @ (p @ CHR ''&'' # extra @ CHR ''&'' #
      lt @ CHR ''&'' # ''lwm2m=1.1'' @ CHR ''&'' # b)"
    using assms(5) by (simp add: registration_uri_def p_def lt_def b_def)
  moreover have "query_loop (p @ CHR ''&'' # extra @ CHR ''&'' # lt @ CHR ''&'' #
      ''lwm2m=1.1'' @ CHR ''&'' # b) = [p, extra, lt, ''lwm2m=1.1'', b]"
    by (simp only: query_loop_param params assms(4))
  moreover have "path_loop ''rd'' = [''rd'']"
    using path_loop_join [of "[''rd'']"] by (simp add: path_segment_def)
  ultimately show ?thesis
    using uri_options_query [OF assms(1), of "''rd''"] unfolding p_def lt_def b_def by simp
qed

section \<open>Reconnection across a restart\<close>

text \<open>\<open>stop\<close> and \<open>start\<close> leave the reconnection as it is.\<close>

lemma set_state_reconnection:
  "cl_reconnecting (set_state st c) = cl_reconnecting c"
  "cl_reconnect_ssid (set_state st c) = cl_reconnect_ssid c"
  "cl_next_reconnect_time (set_state st c) = cl_next_reconnect_time c"
  "cl_reconnect_ssid (emit e c) = cl_reconnect_ssid c"
  "cl_next_reconnect_time (emit e c) = cl_next_reconnect_time c"
  by (simp_all add: set_state_def Let_def emit_def)

lemma deregister_all_reconnection:
  "cl_reconnecting (deregister_all exs ssids c) = cl_reconnecting c \<and>
   cl_reconnect_ssid (deregister_all exs ssids c) = cl_reconnect_ssid c \<and>
   cl_next_reconnect_time (deregister_all exs ssids c) = cl_next_reconnect_time c"
proof (induction ssids arbitrary: c)
  case (Cons ssid ssids)
  have "cl_reconnecting (snd (deregister (exs ssid) ssid c)) = cl_reconnecting c \<and>
    cl_reconnect_ssid (snd (deregister (exs ssid) ssid c)) = cl_reconnect_ssid c \<and>
    cl_next_reconnect_time (snd (deregister (exs ssid) ssid c)) = cl_next_reconnect_time c"
    by (cases rule: deregister_cases [where c = c and ssid = ssid and ex = "exs ssid"])
      (auto simp: waited_def frame_def set_state_reconnection drop_registration_def Let_def emit_def)
  with Cons show ?case by simp
qed simp

lemma restart_keeps_reconnection:
  assumes "r = snd (start (stop on_event_thread exs c))"
  shows "cl_reconnecting r = cl_reconnecting c" "cl_reconnect_ssid r = cl_reconnect_ssid c"
    "cl_next_reconnect_time r = cl_next_reconnect_time c"
  using assms deregister_all_reconnection
  by (auto simp: start_def stop_def Let_def set_state_reconnection)

lemma register_keeps_reconnection:
  assumes "register_with_server script ssid c = (ok (), c')"
  shows "cl_reconnecting c' = cl_reconnecting c" "cl_reconnect_ssid c' = cl_reconnect_ssid c"
    "cl_next_reconnect_time c' = cl_next_reconnect_time c"
proof -
  have "cl_reconnecting c' = cl_reconnecting c \<and> cl_reconnect_ssid c' = cl_reconnect_ssid c \<and>
    cl_next_reconnect_time c' = cl_next_reconnect_time c"
    using assms
  proof (cases rule: register_cases)
    case (registered srv c1 c3 response)
    have "cl_reconnecting c1 = cl_reconnecting c \<and> cl_reconnect_ssid c1 = cl_reconnect_ssid c \<and>
        cl_next_reconnect_time c1 = cl_next_reconnect_time c"
      using registered(3) by (auto simp: open_connection_def Let_def split: if_splits sum.splits)
    with registered(8) waited_reconnection[OF registered(4)] show ?thesis
      by (simp add: complete_registration_def Let_def set_state_reconnection)
  qed simp_all
  then show "cl_reconnecting c' = cl_reconnecting c" "cl_reconnect_ssid c' = cl_reconnect_ssid c"
    "cl_next_reconnect_time c' = cl_next_reconnect_time c" by simp_all
qed

text \<open>
  After \<open>stop\<close> during a reconnection, a restart and a registration that succeeds, the first poll
  tries to reconnect that server although it is registered over a live connection.
\<close>

theorem restart_reconnects_registered:
  assumes "cl_reconnecting c" "cl_reconnect_ssid c = ssid"
    "register_with_server script ssid (snd (start (stop False exs c))) = (ok (), c1)"
    "sint (cl_next_reconnect_time c1) \<le> sint (ps_check_steady poll_script)"
  shows "\<exists>c2. poll poll_script c1 = try_reconnect (ps_register poll_script) (ps_retry_steady poll_script) ssid c2 \<and>
    umap_find (cl_connections c2) ssid \<noteq> None \<and> umap_find (cl_registrations c2) ssid \<noteq> None"
proof -
  define r where "r = snd (start (stop False exs c))"
  have reg: "register_with_server script ssid r = (ok (), c1)"
    using assms(3) by (simp add: r_def)
  have c1: "cl_reconnecting c1" "cl_reconnect_ssid c1 = ssid"
    using register_keeps_reconnection[OF reg] restart_keeps_reconnection[OF r_def] assms(1,2) by auto
  have live: "umap_find (cl_connections c1) ssid \<noteq> None" "umap_find (cl_registrations c1) ssid \<noteq> None"
    using register_registered[OF reg] by auto
  define c2 where "c2 = check_registration_updates (ps_now poll_script) (ps_updates poll_script)
    (umap_keys (cl_registrations (poll_connections (ps_ios poll_script) (umap_keys (cl_connections c1)) c1)))
    (poll_connections (ps_ios poll_script) (umap_keys (cl_connections c1)) c1)"
  have w: "waited c1 c2"
    unfolding c2_def by (rule waited_trans[OF poll_connections_waited check_updates_waited])
  have r2: "cl_reconnecting c2" "cl_reconnect_ssid c2 = ssid"
      "sint (cl_next_reconnect_time c2) \<le> sint (ps_check_steady poll_script)"
    using waited_reconnection[OF w] c1 assms(4) by simp_all
  then have "check_connection_health now steady c2 = c2" for now steady
    by (simp add: check_connection_health_def)
  with r2 have "poll poll_script c1 =
      try_reconnect (ps_register poll_script) (ps_retry_steady poll_script) ssid c2"
    by (simp add: poll_def Let_def flip: c2_def)
  moreover have "umap_find (cl_registrations c2) ssid \<noteq> None"
    using waited_location[OF w, of ssid] live(2) by auto
  ultimately show ?thesis
    using waited_find_connection[OF w live(1)] by blast
qed

section \<open>What a server can read\<close>

text \<open>C8: The Security object is served like any other: a Read of the secret key of an existing
  instance answers Content with the key, whenever it fits the PDU.\<close>

theorem secret_key_readable:
  assumes "get_object c oid_Security = Some Ref_Security"
    "umap_find (sec_instances (cl_security c)) (strong_value iid) = Some i"
    "length (sec_secret_key i) < 2 ^ 24"
    "payload = encode_record TlvResource 5 (sec_secret_key i)" "lc_fits lc payload"
  shows "serve_pdu lc update env (path_pdu Get (path_resource oid_Security iid (Strong 5)) []) c =
      (content_reply lc payload, c) \<and>
    decode payload = ok [TlvRecord TlvResource 5 (sec_secret_key i) []]"
proof -
  have "obj_read_resource env Ref_Security iid (Strong 5) None c = (ok (V_Opaque (sec_secret_key i)), c)"
    using assms(2) by (simp add: security_read_resource_def security_load_def)
  from serve_read[OF assms(1) this, of payload lc update] decode_single[OF assms(3), of TlvResource 5]
  show ?thesis
    using assms(4,5) by (simp add: nested_records_def)
qed

theorem secret_key_readable_witness:
  "\<exists>c. serve_pdu sample_libcoap (\<lambda>_ c. c) \<lparr>env_now = 0, env_gps = \<lambda>_. None\<rparr>
      (path_pdu Get (path_resource oid_Security (Strong 0) (Strong 5)) []) c =
    (content_reply sample_libcoap (encode_record TlvResource 5 [0x53, 0x33]), c)"
proof -
  let ?i = "default_security_instance\<lparr>sec_secret_key := [0x53, 0x33]\<rparr>"
  let ?c = "sample_client\<lparr>cl_security := \<lparr>sec_instances = [(0, ?i)], sec_next_instance_id = 1\<rparr>\<rparr>"
  have "get_object ?c oid_Security = Some Ref_Security"
    by (simp add: sample_defs get_object_def)
  from secret_key_readable[OF this, of "Strong 0" ?i _ sample_libcoap "\<lambda>_ c. c"]
  show ?thesis
    by (intro exI[of _ ?c]) (simp add: sample_libcoap_def)
qed

section \<open>Ends of ranges\<close>

text \<open>The wait after the first attempt is the initial one, whatever the cap.\<close>

lemma first_wait_ignores_cap:
  "cl_reconnect_attempts c = 1 \<Longrightarrow> calculate_backoff c = rcf_initial_backoff (cl_reconnect_config c)"
  by (simp add: calculate_backoff_def)

text \<open>A length that does not fit 24 bits is announced without its upper bits.\<close>

lemma long_length_cut:
  assumes "len \<ge> 2 ^ 24"
  shows "record_length_bytes len =
    [len_byte 16 (len mod 2 ^ 24), len_byte 8 (len mod 2 ^ 24), len_byte 0 (len mod 2 ^ 24)]"
proof -
  have "len_byte k (len mod 2 ^ 24) = len_byte k len" if "k \<le> 16" for k
    using that unfolding len_byte_def ubyte_at_def take_bit_eq_mod[symmetric]
    by (intro bit_word_eqI) (auto simp: bit_simps)
  with assms show ?thesis
    by (simp add: record_length_bytes_def)
qed

end
