(* ===== verification/Unit_Tests.thy ===== *)
theory Unit_Tests
  imports Tlv_Codec
begin

text \<open>
  The unit tests \<open>tests/test_types.cpp\<close>, \<open>tests/test_result.cpp\<close> and
  \<open>tests/test_tlv_codec.cpp\<close> restated on the model, one fact per \<open>TEST\<close> with its name: what
  the tests expect of the program the definitions compute. Tests of what C++ checks at compile time
  have no counterpart.
\<close>

section \<open>test\_types.cpp\<close>

lemma StrongTypeTest_Construction: "strong_value (Strong 42) = 42" "strong_value (Strong 0) = 0"
  by simp_all

lemma StrongTypeTest_Comparison:
  "Strong 1 = (Strong 1 :: object_id)" "Strong 1 \<noteq> (Strong 2 :: object_id)"
  "Strong 1 < (Strong 2 :: object_id)"
  by (simp_all add: less_strong_type_def strong_less_def)

lemma digit_chars: "digit_char 0 = CHR ''0''" "digit_char 1 = CHR ''1''" "digit_char 3 = CHR ''3''"
  by code_simp+

lemmas print_simps = to_string_def path_cons_defs show_u16_def decimal.simps digit_chars
  digit_chars(2)[unfolded One_nat_def]

lemma ObjectPathTest_ToString:
  "to_string (path_object (Strong 3)) = ''/3''"
  "to_string (path_instance (Strong 3) (Strong 0)) = ''/3/0''"
  "to_string (path_resource (Strong 3) (Strong 0) (Strong 1)) = ''/3/0/1''"
  by (simp_all add: print_simps)

lemma ObjectPathTest_ParseObject:
  "\<exists>r. parse ''/3'' = Some r \<and> strong_value (object_id r) = 3 \<and> instance_id r = None \<and> is_object r"
  using parse_to_string[of "path_object (Strong 3)"]
  by (simp add: print_simps prefix_closed_def path_depth_defs)

lemma ObjectPathTest_ParseInstance:
  "\<exists>r. parse ''/3/0'' = Some r \<and> strong_value (object_id r) = 3 \<and> instance_id r = Some (Strong 0) \<and>
     resource_id r = None \<and> is_instance r"
  using parse_to_string[of "path_instance (Strong 3) (Strong 0)"]
  by (simp add: print_simps prefix_closed_def path_depth_defs)

lemma ObjectPathTest_ParseResource:
  "\<exists>r. parse ''/3/0/1'' = Some r \<and> strong_value (object_id r) = 3 \<and> instance_id r = Some (Strong 0) \<and>
     resource_id r = Some (Strong 1) \<and> is_resource r"
  using parse_to_string[of "path_resource (Strong 3) (Strong 0) (Strong 1)"]
  by (simp add: print_simps prefix_closed_def path_depth_defs)

lemma ObjectPathTest_ParseResourceInstance:
  "\<exists>r. parse ''/3/0/11/0'' = Some r \<and> strong_value (object_id r) = 3 \<and>
     instance_id r = Some (Strong 0) \<and> resource_id r = Some (Strong 11) \<and>
     resource_instance_id r = Some (Strong 0) \<and> is_resource_instance r"
  using parse_to_string[of "(path_resource (Strong 3) (Strong 0) (Strong 11))
    \<lparr>resource_instance_id := Some (Strong 0)\<rparr>"]
  by (simp add: print_simps prefix_closed_def path_depth_defs)

lemma ObjectPathTest_ParseInvalid:
  "parse '''' = None" "parse ''3'' = None" "parse ''//3'' = None" "parse ''/abc'' = None"
  "parse ''/3/'' = None"
  by (simp_all add: parse_eq_spec parse_spec_def segments.simps valid_segment_def is_digit_def)

lemma ResourceAccessTest_Bitwise:
  "has_access (access_or access_Read access_Write) access_Read"
  "has_access (access_or access_Read access_Write) access_Write"
  "\<not> has_access (access_or access_Read access_Write) access_Execute"
  "has_access access_ReadWrite access_Read" "has_access access_ReadWrite access_Write"
  by (simp_all add: has_access_def access_or_def access_Read_def access_Write_def access_Execute_def
      access_ReadWrite_def)

lemma StandardObjectIdsTest_Values:
  "map strong_value [oid_Security, oid_Server, oid_AccessControl, oid_Device,
     oid_ConnectivityMonitoring, oid_FirmwareUpdate, oid_Location] = [0, 1, 2, 3, 4, 5, 6]"
  by (simp add: oid_defs)

section \<open>test\_result.cpp\<close>

lemma ResultTest_OkConstruction:
  "is_ok (ok (42 :: int))" "\<not> is_err (ok (42 :: int))" "result_value (ok (42 :: int)) = Inr 42"
  by (simp_all add: result_value_def)

lemma ResultTest_ErrConstruction:
  "\<not> is_ok (err E_NotFound ''Item not found'')" "is_err (err E_NotFound ''Item not found'')"
  "\<exists>e. result_error (err E_NotFound ''Item not found'') = Inr e \<and> err_code e = E_NotFound \<and>
     err_message e = ''Item not found''"
  by (simp_all add: result_error_def)

lemma ResultTest_ImplicitErrConstruction:
  "is_err (Inl (mk_error E_BadRequest ''Bad''))"
  "\<exists>e. result_error (Inl (mk_error E_BadRequest ''Bad'')) = Inr e \<and> err_code e = E_BadRequest"
  by (simp_all add: result_error_def)

lemma ResultTest_ValueOr: "value_or (ok (42 :: int)) 0 = 42" "value_or (err E_NotFound []) (0 :: int) = 0"
  by (simp_all add: err_def)

lemma ResultTest_Map: "result_map (\<lambda>x. x * 2) (ok (21 :: int)) = ok 42"
  by simp

lemma ResultTest_MapError: "result_map (\<lambda>x. x * 2) (err E_NotFound [] :: int result) = err E_NotFound []"
  by simp

definition half_if_even :: "int \<Rightarrow> int result" where
  "half_if_even x = (if x mod 2 = 0 then ok (x div 2) else err E_BadRequest ''Odd number'')"

lemma ResultTest_AndThen:
  "and_then (ok 42) half_if_even = ok 21" "is_err (and_then (ok 43) half_if_even)"
  by (simp_all add: half_if_even_def)

lemma ResultVoidTest:
  "void_is_ok void_ok" "\<not> void_is_err void_ok"
  "\<not> void_is_ok (void_err E_InternalServerError ''Oops'')"
  "void_is_err (void_err E_InternalServerError ''Oops'')"
  "\<exists>e. void_error (void_err E_InternalServerError ''Oops'') = Inr e \<and> err_code e = E_InternalServerError"
  by (simp_all add: void_is_ok_def void_is_err_def void_ok_def void_err_def void_error_def)

lemma ErrorTest_Categories:
  "is_client_error (mk_error E_NotFound m)" "\<not> is_server_error (mk_error E_NotFound m)"
  "\<not> is_transport_error (mk_error E_NotFound m)"
  "\<not> is_client_error (mk_error E_InternalServerError m)" "is_server_error (mk_error E_InternalServerError m)"
  "\<not> is_transport_error (mk_error E_InternalServerError m)"
  "\<not> is_client_error (mk_error E_Timeout m)" "\<not> is_server_error (mk_error E_Timeout m)"
  "is_transport_error (mk_error E_Timeout m)"
  by (simp_all add: is_client_error_def is_server_error_def is_transport_error_def)

lemma ErrorCodeTest_Values:
  "map error_code_value [E_BadRequest, E_NotFound, E_InternalServerError, E_Timeout] =
     [400, 404, 500, 600]"
  by simp

section \<open>test\_tlv\_codec.cpp\<close>

lemmas record_simps = encode_record_def record_type_byte_def record_id_bytes_def
  record_length_bytes_def

lemma TlvEncoderTest_EncodeBoolean:
  "encode_resource (Strong 0) (V_Bool True) = ok [0xC1, 0, 1]" "drop_bit 6 (0xC1 :: u8) AND 3 = 3"
  by (simp_all add: encode_resource_def record_simps serialize_bool_def)

lemma TlvEncoderTest_EncodeIntegers:
  "encode_resource (Strong 1) (V_Int 42) = ok [0xC1, 1, 0x2A]"
  "encode_resource (Strong 1) (V_Int 1234567890) =
     ok [0xC8, 1, 8, 0, 0, 0, 0, 0x49, 0x96, 0x02, 0xD2]"
  "encode_resource (Strong 1) (V_Int (- 42)) = ok [0xC1, 1, 0xD6]"
  by (simp_all add: encode_resource_def record_simps serialize_int_def sbyte_at_def)

text \<open>The double is the bit pattern of 3.14159, the time 1609459200 seconds.\<close>

lemma TlvEncoderTest_EncodeOthers:
  "encode_resource (Strong 2) (V_Float 0x400921F9F01B866E) =
     ok [0xC8, 2, 8, 0x40, 0x09, 0x21, 0xF9, 0xF0, 0x1B, 0x86, 0x6E]"
  "encode_resource (Strong 4) (V_Opaque [0xDE, 0xAD, 0xBE, 0xEF]) =
     ok [0xC4, 4, 0xDE, 0xAD, 0xBE, 0xEF]"
  "encode_resource (Strong 6) (V_ObjLink (path_instance (Strong 3) (Strong 0))) = ok [0xC4, 6, 0, 3, 0, 0]"
  by (simp_all add: encode_resource_def record_simps serialize_float_def serialize_objlink_def
      ubyte_at_def path_cons_defs upt_conv_Cons)

lemma TlvEncoderTest_EncodeString:
  "encode_resource (Strong 3) (V_String ''Hello, LWM2M!'') =
     ok ([0xC8, 3, 13] @ bytes_of_string ''Hello, LWM2M!'')"
  by (simp add: encode_resource_def record_simps serialize_string_def)

lemma TlvEncoderTest_EncodeTime:
  "encode_resource (Strong 5) (V_Time 1609459200000000000) =
     ok [0xC8, 5, 8, 0, 0, 0, 0, 0x5F, 0xEE, 0x66, 0x00]"
  by (simp add: encode_resource_def record_simps serialize_time_def serialize_int_def sbyte_at_def)

lemma TlvEncoderTest_EncodeRecordIds:
  "encode_record TlvResource 5 [] = [0xC0, 5]" "drop_bit 5 (0xC0 :: u8) AND 1 = 0"
  "encode_record TlvResource 1000 [] = [0xE0, 3, 0xE8]" "drop_bit 5 (0xE0 :: u8) AND 1 = 1"
  by (simp_all add: record_simps ubyte_at_def)

lemma TlvDecoderTest_DecodeBoolean: "decode_resource [1] T_Boolean = ok (V_Bool True)"
  by (simp add: deserialize_bool_def)

lemma TlvDecoderTest_DecodeIntegers:
  "decode_resource [0x2A] T_Integer = ok (V_Int 42)"
  "decode_resource [0xD6] T_Integer = ok (V_Int (- 42))"
  by (simp_all add: deserialize_int_def be_value_def Let_def)

lemma TlvDecoderTest_DecodeString:
  "decode_resource (bytes_of_string ''Hello'') T_String = ok (V_String ''Hello'')"
  by (simp add: deserialize_string_def)

lemma TlvDecoderTest_DecodeOpaque:
  "decode_resource [0xDE, 0xAD, 0xBE, 0xEF] T_Opaque = ok (V_Opaque [0xDE, 0xAD, 0xBE, 0xEF])"
  by simp

lemma TlvDecoderTest_DecodeObjectLink:
  "decode_resource [0x00, 0x03, 0x00, 0x00] T_ObjectLink =
     ok (V_ObjLink (path_instance (Strong 3) (Strong 0)))"
  by (simp add: deserialize_objlink_def Let_def)

lemma TlvDecoderTest_RoundTripInteger:
  "\<exists>d record. encode_resource (Strong 0) (V_Int 12345) = ok d \<and> decode d = ok [record] \<and>
     rec_id record = 0 \<and> rec_type record = TlvResource \<and>
     decode_resource (rec_value record) T_Integer = ok (V_Int 12345)"
  using decode_single[of "serialize_value (V_Int 12345)" TlvResource 0]
    decode_serialize_value[of "V_Int 12345"]
  by (simp add: encode_resource_def serialize_int_def nested_records_def)

lemma TlvDecoderTest_RoundTripString:
  "\<exists>d record. encode_resource (Strong 1) (V_String ''Test String'') = ok d \<and> decode d = ok [record] \<and>
     decode_resource (rec_value record) T_String = ok (V_String ''Test String'')"
  using decode_single[of "serialize_value (V_String ''Test String'')" TlvResource 1]
  by (simp add: encode_resource_def nested_records_def serialize_string_def deserialize_string_def)

lemma TlvDecoderTest_DecodeEmptyData: "decode [] = ok []"
  by (simp add: decode_def decode_impl.simps decode_loop_eq)

lemma TlvDecoderTest_DecodeTruncatedData: "is_err (decode [0xC1])"
  by (simp add: decode_def decode_impl.simps decode_loop_eq[of "[0xC1]"] parse_record_def
      parse_header_def parse_id_def kMaxTlvDepth_def)

end
