(* ===== verification/Resource_Catalogue.thy ===== *)
theory Resource_Catalogue
  imports Security_Object Server_Object Device_Object Connectivity_Object Firmware_Object
    Location_Object
begin

text \<open>
  The namespaces of resource ids in \<open>include/lwm2m/objects/*.hpp\<close>, and how the objects keep to
  them: what each object lists and answers against the constants, and for the headers that document
  the type and the access of every constant, what it reads and writes against the documentation.
\<close>

section \<open>Names\<close>

definition security_name :: string where "security_name = ''Security''"
definition server_name :: string where "server_name = ''Server''"
definition device_name :: string where "device_name = ''Device''"
definition connectivity_name :: string where "connectivity_name = ''Connectivity Monitoring''"
definition firmware_name :: string where "firmware_name = ''Firmware Update''"
definition location_name :: string where "location_name = ''Location''"

section \<open>The constants\<close>

definition security_resource :: "(string \<times> resource_id) list" where
  "security_resource =
     [(''ServerUri'', Strong 0), (''BootstrapServer'', Strong 1), (''SecurityMode'', Strong 2),
      (''PublicKeyIdentity'', Strong 3), (''ServerPublicKey'', Strong 4), (''SecretKey'', Strong 5),
      (''SmsSecurityMode'', Strong 6), (''SmsKeyParameters'', Strong 7), (''SmsSecretKey'', Strong 8),
      (''SmsServerNumber'', Strong 9), (''ShortServerId'', Strong 10),
      (''ClientHoldOffTime'', Strong 11), (''BootstrapTimeout'', Strong 12)]"

definition server_resource :: "(string \<times> resource_id) list" where
  "server_resource =
     [(''ShortServerId'', Strong 0), (''Lifetime'', Strong 1), (''DefaultMinPeriod'', Strong 2),
      (''DefaultMaxPeriod'', Strong 3), (''Disable'', Strong 4), (''DisableTimeout'', Strong 5),
      (''NotificationStoring'', Strong 6), (''Binding'', Strong 7),
      (''RegistrationUpdateTrigger'', Strong 8), (''BootstrapRequestTrigger'', Strong 9)]"

definition device_resource :: "(string \<times> resource_id) list" where
  "device_resource =
     [(''Manufacturer'', Strong 0), (''ModelNumber'', Strong 1), (''SerialNumber'', Strong 2),
      (''FirmwareVersion'', Strong 3), (''Reboot'', Strong 4), (''FactoryReset'', Strong 5),
      (''AvailablePowerSources'', Strong 6), (''PowerSourceVoltage'', Strong 7),
      (''PowerSourceCurrent'', Strong 8), (''BatteryLevel'', Strong 9), (''MemoryFree'', Strong 10),
      (''ErrorCode'', Strong 11), (''ResetErrorCode'', Strong 12), (''CurrentTime'', Strong 13),
      (''UtcOffset'', Strong 14), (''Timezone'', Strong 15), (''SupportedBindings'', Strong 16),
      (''DeviceType'', Strong 17), (''HardwareVersion'', Strong 18), (''SoftwareVersion'', Strong 19),
      (''BatteryStatus'', Strong 20), (''MemoryTotal'', Strong 21)]"

text \<open>These three come with the type and the access the comment after each constant documents.\<close>

datatype documented_access = Acc_R | Acc_W | Acc_RW | Acc_E

type_synonym documented_resource =
  "string \<times> resource_id \<times> resource_type option \<times> documented_access"

definition connectivity_resource :: "documented_resource list" where
  "connectivity_resource =
     [(''NetworkBearer'', Strong 0, Some T_Integer, Acc_R),
      (''AvailableNetworkBearer'', Strong 1, Some T_Integer, Acc_R),
      (''RadioSignalStrength'', Strong 2, Some T_Integer, Acc_R),
      (''LinkQuality'', Strong 3, Some T_Integer, Acc_R),
      (''IpAddresses'', Strong 4, Some T_String, Acc_R),
      (''RouterIpAddresses'', Strong 5, Some T_String, Acc_R),
      (''LinkUtilization'', Strong 6, Some T_Integer, Acc_R),
      (''Apn'', Strong 7, Some T_String, Acc_R),
      (''CellId'', Strong 8, Some T_Integer, Acc_R),
      (''Smnc'', Strong 9, Some T_Integer, Acc_R),
      (''Smcc'', Strong 10, Some T_Integer, Acc_R)]"

definition firmware_resource :: "documented_resource list" where
  "firmware_resource =
     [(''Package'', Strong 0, Some T_Opaque, Acc_W),
      (''PackageUri'', Strong 1, Some T_String, Acc_W),
      (''Update'', Strong 2, None, Acc_E),
      (''State'', Strong 3, Some T_Integer, Acc_R),
      (''UpdateSupportedObjects'', Strong 4, Some T_Boolean, Acc_RW),
      (''UpdateResult'', Strong 5, Some T_Integer, Acc_R),
      (''PkgName'', Strong 6, Some T_String, Acc_R),
      (''PkgVersion'', Strong 7, Some T_String, Acc_R),
      (''ProtocolSupport'', Strong 8, Some T_Integer, Acc_R),
      (''DeliveryMethod'', Strong 9, Some T_Integer, Acc_R)]"

definition location_resource :: "documented_resource list" where
  "location_resource =
     [(''Latitude'', Strong 0, Some T_Float, Acc_R),
      (''Longitude'', Strong 1, Some T_Float, Acc_R),
      (''Altitude'', Strong 2, Some T_Float, Acc_R),
      (''Radius'', Strong 3, Some T_Float, Acc_R),
      (''Velocity'', Strong 4, Some T_Opaque, Acc_R),
      (''Timestamp'', Strong 5, Some T_Time, Acc_R),
      (''Speed'', Strong 6, Some T_Float, Acc_R)]"

definition catalogue_ids :: "('a \<times> resource_id \<times> 'b) list \<Rightarrow> resource_id list" where
  "catalogue_ids cat = map (\<lambda>(_, rid, _). rid) cat"

lemmas catalogue_defs = security_resource_def server_resource_def device_resource_def
  connectivity_resource_def firmware_resource_def location_resource_def catalogue_ids_def

section \<open>Listed resources\<close>

text \<open>
  Every object lists its constants in order, save the SMS resources of Security, the bootstrap
  trigger of Server, the deprecated resource of Firmware Update, and Velocity.
\<close>

lemma listed_resources:
  "security_list_resources iid = filter (\<lambda>rid. strong_value rid \<notin> {6, 7, 8, 9}) (map snd security_resource)"
  "server_list_resources iid = filter (\<lambda>rid. strong_value rid \<noteq> 9) (map snd server_resource)"
  "device_list_resources iid = map snd device_resource"
  "connectivity_list_resources iid = catalogue_ids connectivity_resource"
  "firmware_list_resources iid =
     filter (\<lambda>rid. strong_value rid \<noteq> 4) (catalogue_ids firmware_resource)"
  "location_list_resources iid =
     filter (\<lambda>rid. strong_value rid \<noteq> 4) (catalogue_ids location_resource)"
  by (simp_all add: catalogue_defs security_list_resources_def server_list_resources_def
      device_list_resources_def connectivity_list_resources_def firmware_list_resources_def
      location_list_resources_def)

text \<open>A resource without a constant cannot be read.\<close>

lemma undeclared_unreadable:
  "\<lbrakk>security_read_resource sec iid rid riid = ok v\<rbrakk> \<Longrightarrow> rid \<in> set (map snd security_resource)"
  "\<lbrakk>server_read_resource srv iid rid riid = ok v\<rbrakk> \<Longrightarrow> rid \<in> set (map snd server_resource)"
  "\<lbrakk>device_read_resource now dev iid rid riid = ok v\<rbrakk> \<Longrightarrow> rid \<in> set (map snd device_resource)"
  by (cases rid; force simp: security_read_resource_def security_load_def server_read_resource_def
      server_load_def device_read_resource_def Let_def catalogue_defs split: option.splits if_splits)+

section \<open>Documented resources\<close>

definition readable :: "documented_access \<Rightarrow> bool" where
  "readable a \<longleftrightarrow> a = Acc_R \<or> a = Acc_RW"

definition writable :: "documented_access \<Rightarrow> bool" where
  "writable a \<longleftrightarrow> a = Acc_W \<or> a = Acc_RW"

definition documented :: "documented_resource list \<Rightarrow> resource_id \<Rightarrow>
    (resource_type option \<times> documented_access) option" where
  "documented cat rid = map_of (map (\<lambda>(_, r, doc). (r, doc)) cat) rid"

lemmas documented_defs = documented_def connectivity_resource_def firmware_resource_def
  location_resource_def readable_def writable_def

lemma connectivity_read_documented:
  assumes "connectivity_read_resource s iid rid riid = ok v"
  shows "\<exists>a. documented connectivity_resource rid = Some (Some (get_resource_type v), a) \<and> readable a"
  using assms
  by (cases rid) (auto simp: connectivity_read_resource_def Let_def documented_defs
      split: if_splits dest!: read_multiple_type)

lemma firmware_read_documented:
  assumes "firmware_read_resource s iid rid riid = ok v"
  shows "\<exists>a. documented firmware_resource rid = Some (Some (get_resource_type v), a) \<and> readable a"
  using assms
  by (cases rid) (auto simp: firmware_read_resource_def Let_def documented_defs
      split: if_splits dest!: read_multiple_type)

lemma location_read_documented:
  assumes "fst (location_read_resource provided iid rid riid s) = ok v"
  shows "\<exists>a. documented location_resource rid = Some (Some (get_resource_type v), a) \<and> readable a"
  using assms
  by (cases rid) (auto simp: location_read_resource_def Let_def documented_defs split: if_splits)

lemma firmware_write_documented:
  assumes "fst (firmware_write_resource cbs iid rid riid v s) = ok u"
  shows "\<exists>a. documented firmware_resource rid = Some (Some (get_resource_type v), a) \<and> writable a"
  using assms
  by (cases rid; cases v) (auto simp: firmware_write_resource_def Let_def documented_defs split: if_splits)

lemma firmware_execute_documented:
  assumes "fst (firmware_execute_resource cbs iid rid args s) = ok u"
  shows "documented firmware_resource rid = Some (None, Acc_E)"
  using assms
  by (cases rid) (auto simp: firmware_execute_resource_def Let_def documented_defs split: if_splits)

lemma others_read_only:
  "\<not> is_ok (fst (connectivity_write_resource iid rid riid v s))"
  "\<not> is_ok (connectivity_execute_resource s iid rid args)"
  "\<not> is_ok (fst (location_write_resource iid rid riid v l))"
  "\<not> is_ok (location_execute_resource l iid rid args)"
  by (simp_all add: connectivity_write_resource_def connectivity_execute_resource_def
      location_write_resource_def location_execute_resource_def)

text \<open>Velocity is documented as readable, and never is.\<close>

lemma velocity_unreadable:
  "documented location_resource (Strong 4) = Some (Some T_Opaque, Acc_R)"
  "\<not> is_ok (fst (location_read_resource provided iid (Strong 4) riid s))"
  by (simp_all add: documented_defs location_read_resource_def Let_def)

section \<open>Everything documented is served\<close>

text \<open>States in which nothing that can be read is absent.\<close>

definition full_connectivity :: connectivity_object where
  "full_connectivity = connectivity_init (default_connectivity_config\<lparr>ccfg_ip_addresses := [''10.0.0.2''],
     ccfg_router_ip_addresses := [''10.0.0.1''], ccfg_apn_list := [''internet'']\<rparr>)"

definition located :: location_object where
  "located = (location_init 0)\<lparr>loc_has_position := True\<rparr>"

definition no_callbacks_set :: firmware_callbacks where
  "no_callbacks_set = \<lparr>cb_start_download = None, cb_verify_package = None, cb_apply_update = None\<rparr>"

text \<open>The two inclusions, with \<open>P rid v\<close> for: the object serves the value \<open>v\<close> of \<open>rid\<close>.\<close>

lemma served_eq:
  assumes "\<And>rid v. P rid v \<Longrightarrow> \<exists>a. D rid = Some (Some (ty v), a) \<and> q a \<and> (rid, ty v) \<notin> X"
    "\<And>rid t a. \<lbrakk>D rid = Some (Some t, a); q a; (rid, t) \<notin> X\<rbrakk> \<Longrightarrow> \<exists>v. P rid v \<and> ty v = t"
  shows "{(rid, ty v) | rid v. P rid v} =
    {(rid, t) | rid t a. D rid = Some (Some t, a) \<and> q a} - X"
proof (intro equalityI subsetI)
  fix x
  assume "x \<in> {(rid, ty v) | rid v. P rid v}"
  then obtain rid v where "x = (rid, ty v)" "P rid v" by blast
  with assms(1) show "x \<in> {(rid, t) | rid t a. D rid = Some (Some t, a) \<and> q a} - X" by blast
next
  fix x
  assume "x \<in> {(rid, t) | rid t a. D rid = Some (Some t, a) \<and> q a} - X"
  then obtain rid t a where "x = (rid, t)" "D rid = Some (Some t, a)" "q a" "(rid, t) \<notin> X" by blast
  moreover from assms(2) [OF this(2-4)] obtain v where "P rid v" "ty v = t" by blast
  ultimately show "x \<in> {(rid, ty v) | rid v. P rid v}" by blast
qed

lemma connectivity_reads:
  "{(rid, get_resource_type v) | rid v. \<exists>s iid riid. connectivity_read_resource s iid rid riid = ok v} =
     {(rid, t) | rid t a. documented connectivity_resource rid = Some (Some t, a) \<and> readable a}"
proof -
  have "\<exists>v. connectivity_read_resource full_connectivity (Strong 0) rid None = ok v \<and> get_resource_type v = t"
    if "documented connectivity_resource rid = Some (Some t, a)" for rid t a
    using that by (auto simp: documented_defs connectivity_read_resource_def full_connectivity_def
        connectivity_init_def default_connectivity_config_def read_multiple_def Let_def split: if_splits)
  then show ?thesis using connectivity_read_documented by fastforce
qed

lemma firmware_reads:
  "{(rid, get_resource_type v) | rid v. \<exists>s iid riid. firmware_read_resource s iid rid riid = ok v} =
     {(rid, t) | rid t a. documented firmware_resource rid = Some (Some t, a) \<and> readable a} -
     {(Strong 4, T_Boolean)}"
proof (rule served_eq)
  show "\<exists>a. documented firmware_resource rid = Some (Some (get_resource_type v), a) \<and> readable a \<and>
      (rid, get_resource_type v) \<notin> {(Strong 4, T_Boolean)}"
    if served: "\<exists>s iid riid. firmware_read_resource s iid rid riid = ok v" for rid v
  proof -
    obtain s iid riid where r: "firmware_read_resource s iid rid riid = ok v" using served by blast
    then have "rid \<noteq> Strong 4" by (auto simp: firmware_read_resource_def Let_def split: if_splits)
    with firmware_read_documented [OF r] show ?thesis by simp
  qed
  show "\<exists>v. (\<exists>s iid riid. firmware_read_resource s iid rid riid = ok v) \<and> get_resource_type v = t"
    if "documented firmware_resource rid = Some (Some t, a)" "readable a" "(rid, t) \<notin> {(Strong 4, T_Boolean)}"
    for rid t a
  proof -
    have "\<exists>v. firmware_read_resource firmware_init (Strong 0) rid None = ok v \<and> get_resource_type v = t"
      using that by (auto simp: documented_defs firmware_read_resource_def firmware_init_def
          read_multiple_def Let_def split: if_splits)
    then show ?thesis by blast
  qed
qed

lemma location_reads:
  "{(rid, get_resource_type v) | rid v. \<exists>provided iid riid s.
       fst (location_read_resource provided iid rid riid s) = ok v} =
     {(rid, t) | rid t a. documented location_resource rid = Some (Some t, a) \<and> readable a} -
     {(Strong 4, T_Opaque)}"
proof (rule served_eq)
  show "\<exists>a. documented location_resource rid = Some (Some (get_resource_type v), a) \<and> readable a \<and>
      (rid, get_resource_type v) \<notin> {(Strong 4, T_Opaque)}"
    if served: "\<exists>provided iid riid s. fst (location_read_resource provided iid rid riid s) = ok v" for rid v
  proof -
    obtain provided iid riid s where r: "fst (location_read_resource provided iid rid riid s) = ok v"
      using served by blast
    then have "rid \<noteq> Strong 4" using velocity_unreadable(2) by (metis is_ok_simps(1))
    with location_read_documented [OF r] show ?thesis by simp
  qed
  show "\<exists>v. (\<exists>provided iid riid s. fst (location_read_resource provided iid rid riid s) = ok v) \<and>
      get_resource_type v = t"
    if "documented location_resource rid = Some (Some t, a)" "readable a" "(rid, t) \<notin> {(Strong 4, T_Opaque)}"
    for rid t a
  proof -
    have "\<exists>v. fst (location_read_resource None (Strong 0) rid None located) = ok v \<and> get_resource_type v = t"
      using that by (auto simp: documented_defs location_read_resource_def located_def refresh_position_def
          Let_def split: if_splits)
    then show ?thesis by blast
  qed
qed

lemma firmware_writes:
  "{(rid, get_resource_type v) | rid v. \<exists>cbs iid riid s.
       fst (firmware_write_resource cbs iid rid riid v s) = ok ()} =
     {(rid, t) | rid t a. documented firmware_resource rid = Some (Some t, a) \<and> writable a} -
     {(Strong 4, T_Boolean)}"
proof (rule served_eq)
  show "\<exists>a. documented firmware_resource rid = Some (Some (get_resource_type v), a) \<and> writable a \<and>
      (rid, get_resource_type v) \<notin> {(Strong 4, T_Boolean)}"
    if served: "\<exists>cbs iid riid s. fst (firmware_write_resource cbs iid rid riid v s) = ok ()" for rid v
  proof -
    obtain cbs iid riid s where w: "fst (firmware_write_resource cbs iid rid riid v s) = ok ()"
      using served by blast
    then have "rid \<noteq> Strong 4" by (auto simp: firmware_write_resource_def Let_def split: if_splits)
    with firmware_write_documented [OF w] show ?thesis by simp
  qed
  show "\<exists>v. (\<exists>cbs iid riid s. fst (firmware_write_resource cbs iid rid riid v s) = ok ()) \<and>
      get_resource_type v = t"
    if "documented firmware_resource rid = Some (Some t, a)" "writable a" "(rid, t) \<notin> {(Strong 4, T_Boolean)}"
    for rid t a
  proof -
    have "\<exists>v. fst (firmware_write_resource no_callbacks_set (Strong 0) rid None v firmware_init) = ok () \<and>
        get_resource_type v = t"
    proof (cases "rid = Strong 0")
      case True
      with that show ?thesis
        by (intro exI [of _ "V_Opaque []"]) (auto simp: documented_defs firmware_write_resource_def
            push_package_def no_callbacks_set_def firmware_init_def)
    next
      case False
      with that show ?thesis
        by (intro exI [of _ "V_String []"]) (auto simp: documented_defs firmware_write_resource_def
            write_package_uri_def no_callbacks_set_def firmware_init_def split: if_splits)
    qed
    then show ?thesis by blast
  qed
qed

lemma firmware_executes:
  "{rid. \<exists>cbs iid args s. fst (firmware_execute_resource cbs iid rid args s) = ok ()} =
     {rid. documented firmware_resource rid = Some (None, Acc_E)}"
proof -
  have "fst (firmware_execute_resource no_callbacks_set (Strong 0) (Strong 2) []
      (firmware_init\<lparr>fw_state := FS_Downloaded\<rparr>)) = ok ()"
    by (simp add: firmware_execute_resource_def no_callbacks_set_def)
  moreover have "rid = Strong 2" if "documented firmware_resource rid = Some (None, Acc_E)" for rid
    using that by (auto simp: documented_defs split: if_splits)
  ultimately show ?thesis using firmware_execute_documented by blast
qed

lemma read_only_objects:
  "{rid. \<exists>v iid riid args c l. is_ok (fst (connectivity_write_resource iid rid riid v c)) \<or>
       is_ok (connectivity_execute_resource c iid rid args) \<or>
       is_ok (fst (location_write_resource iid rid riid v l)) \<or>
       is_ok (location_execute_resource l iid rid args)} =
     {rid. \<exists>t a. (documented connectivity_resource rid = Some (t, a) \<or>
       documented location_resource rid = Some (t, a)) \<and> a \<noteq> Acc_R}"
proof -
  have "a = Acc_R" if "documented connectivity_resource rid = Some (t, a) \<or>
      documented location_resource rid = Some (t, a)" for rid t a
    using that by (auto simp: documented_defs split: if_splits)
  then show ?thesis by (auto simp: others_read_only)
qed

section \<open>Property\<close>

text \<open>C37: Two resources apart, the Connectivity, Firmware Update and Location objects serve exactly
  what the comments of their headers document. What some state of the object lets a server read, with
  the type of the value, are the constants documented as readable, with the documented type; what it
  lets a server write, with the type that is accepted, those documented as writable; what it lets a
  server execute, those documented as executable. The two are UpdateSupportedObjects, documented as
  readable and writable, and Velocity, documented as readable: neither is ever served.\<close>

theorem documented_resources:
  "{(rid, get_resource_type v) | rid v. \<exists>s iid riid. connectivity_read_resource s iid rid riid = ok v} =
     {(rid, t) | rid t a. documented connectivity_resource rid = Some (Some t, a) \<and> readable a} \<and>
   {(rid, get_resource_type v) | rid v. \<exists>s iid riid. firmware_read_resource s iid rid riid = ok v} =
     {(rid, t) | rid t a. documented firmware_resource rid = Some (Some t, a) \<and> readable a} -
     {(Strong 4, T_Boolean)} \<and>
   {(rid, get_resource_type v) | rid v. \<exists>provided iid riid s.
       fst (location_read_resource provided iid rid riid s) = ok v} =
     {(rid, t) | rid t a. documented location_resource rid = Some (Some t, a) \<and> readable a} -
     {(Strong 4, T_Opaque)} \<and>
   {(rid, get_resource_type v) | rid v. \<exists>cbs iid riid s.
       fst (firmware_write_resource cbs iid rid riid v s) = ok ()} =
     {(rid, t) | rid t a. documented firmware_resource rid = Some (Some t, a) \<and> writable a} -
     {(Strong 4, T_Boolean)} \<and>
   {rid. \<exists>cbs iid args s. fst (firmware_execute_resource cbs iid rid args s) = ok ()} =
     {rid. documented firmware_resource rid = Some (None, Acc_E)} \<and>
   {rid. \<exists>v iid riid args c l. is_ok (fst (connectivity_write_resource iid rid riid v c)) \<or>
       is_ok (connectivity_execute_resource c iid rid args) \<or>
       is_ok (fst (location_write_resource iid rid riid v l)) \<or>
       is_ok (location_execute_resource l iid rid args)} =
     {rid. \<exists>t a. (documented connectivity_resource rid = Some (t, a) \<or>
       documented location_resource rid = Some (t, a)) \<and> a \<noteq> Acc_R}"
  by (intro conjI connectivity_reads firmware_reads location_reads firmware_writes firmware_executes
      read_only_objects)

end
