(* ===== verification/Unit_Tests_Objects.thy ===== *)
theory Unit_Tests_Objects
  imports Resource_Catalogue Client_Objects
begin

text \<open>
  The unit tests \<open>tests/test_objects.cpp\<close> restated on the model, one fact per \<open>TEST_F\<close> with
  its name. Callbacks that set a flag are recorded calls or functions, the clock and the GPS provider
  are arguments; doubles are bit patterns, named in the text.
\<close>

abbreviation absent :: "resource_instance_id option" where
  "absent \<equiv> None"

section \<open>SecurityObjectTest\<close>

lemmas security_test_defs = security_init_def security_create_instance_def
  security_delete_instance_def security_has_instance_def security_list_instances_def
  security_add_server_def security_get_instance_def security_read_resource_def
  security_write_resource_def security_load_def security_store_def Let_def

lemma SecurityObjectTest_ObjectId: "strong_value oid_Security = 0" "security_name = ''Security''"
  by (simp_all add: oid_Security_def security_name_def)

lemma SecurityObjectTest_InitiallyEmpty: "security_list_instances security_init = []"
  by (simp add: security_test_defs)

lemma SecurityObjectTest_CreateInstance:
  "\<exists>s. security_create_instance None security_init = (ok (Strong 0), s) \<and>
     length (security_list_instances s) = 1"
  by (simp add: security_test_defs)

lemma SecurityObjectTest_CreateInstanceWithId:
  "fst (security_create_instance (Some (Strong 5)) security_init) = ok (Strong 5)"
  by (simp add: security_test_defs)

lemma SecurityObjectTest_CreateDuplicateFails:
  "\<exists>s. security_create_instance (Some (Strong 0)) security_init = (ok (Strong 0), s) \<and>
     is_err (fst (security_create_instance (Some (Strong 0)) s))"
  by (simp add: security_test_defs)

lemma SecurityObjectTest_DeleteInstance:
  "\<exists>r s s'. security_create_instance None security_init = (r, s) \<and>
     security_has_instance s (Strong 0) \<and>
     security_delete_instance (Strong 0) s = (ok (), s') \<and> \<not> security_has_instance s' (Strong 0)"
  by (simp add: security_test_defs)

lemma SecurityObjectTest_AddServer:
  "\<exists>iid s i. security_add_server (default_security_instance
       \<lparr>sec_server_uri := ''coaps://localhost:5684'', sec_short_server_id := 1\<rparr>) security_init =
       (ok iid, s) \<and> security_get_instance s iid = Some i \<and>
     sec_server_uri i = ''coaps://localhost:5684'' \<and> sec_short_server_id i = 1"
  by (simp add: security_test_defs)

lemma SecurityObjectTest_ReadWriteResources:
  "\<exists>r s s'. security_create_instance None security_init = (r, s) \<and>
     security_write_resource (Strong 0) (Strong 0) absent (V_String ''coap://example.com:5683'') s =
       (ok (), s') \<and>
     security_read_resource s' (Strong 0) (Strong 0) absent = ok (V_String ''coap://example.com:5683'')"
  by (simp add: security_test_defs)

section \<open>ServerObjectTest\<close>

lemmas server_test_defs = server_init_def server_create_instance_def server_add_server_def
  server_get_instance_def server_find_by_short_server_id_def server_execute_resource_def
  set_registration_update_callback_def Let_def

lemma ServerObjectTest_ObjectId: "strong_value oid_Server = 1" "server_name = ''Server''"
  by (simp_all add: oid_Server_def server_name_def)

lemma ServerObjectTest_AddServer:
  "\<exists>iid s i. server_add_server (default_server_instance
       \<lparr>srv_short_server_id := 1, srv_lifetime := 3600, srv_binding := ''U''\<rparr>) server_init = (ok iid, s) \<and>
     server_get_instance s iid = Some i \<and> srv_lifetime i = 3600"
  by (simp add: server_test_defs)

lemma ServerObjectTest_FindByShortServerId:
  "\<exists>r s i. server_add_server (default_server_instance\<lparr>srv_short_server_id := 42\<rparr>) server_init = (r, s) \<and>
     server_find_by_short_server_id s 42 = Some i \<and> srv_short_server_id i = 42 \<and>
     server_find_by_short_server_id s 999 = None"
  by (simp add: server_test_defs)

lemma ServerObjectTest_ExecuteRegistrationUpdate:
  "\<exists>r s. server_create_instance None server_init = (r, s) \<and>
     (\<exists>ssid. server_execute_resource (set_registration_update_callback True s) (Strong 0) (Strong 8) [] =
       (ok (), Some ssid))"
  by (simp add: server_test_defs)

section \<open>DeviceObjectTest\<close>

text \<open>The fixture's configuration.\<close>

definition test_device :: device_object where
  "test_device = device_init (default_device_config\<lparr>dcfg_manufacturer := ''TestCorp'',
     dcfg_model_number := ''TEST-001'', dcfg_serial_number := ''SN12345'',
     dcfg_firmware_version := ''1.0.0''\<rparr>)"

lemmas device_test_defs = test_device_def device_init_def device_read_resource_def
  device_execute_resource_def set_battery_level_def set_reboot_callback_def add_error_code_def
  clear_error_codes_def read_multiple_def Let_def

lemma DeviceObjectTest_ObjectId: "strong_value oid_Device = 3" "device_name = ''Device''"
  by (simp_all add: oid_Device_def device_name_def)

text \<open>
  The cases \<open>SingleInstance\<close> and \<open>CannotCreateDeleteInstance\<close>, which the tests of the four
  single-instance objects share.
\<close>

lemma SingleInstanceTests:
  "single_list_instances = [Strong 0]" "single_has_instance (Strong 0)" "\<not> single_has_instance (Strong 1)"
  "is_err (single_create_instance None)" "is_err (single_delete_instance (Strong 0))"
  by (simp_all add: single_list_instances_def single_has_instance_def single_create_instance_def
      single_delete_instance_def)

lemma DeviceObjectTest_Read:
  "device_read_resource now test_device (Strong 0) (Strong 0) absent = ok (V_String ''TestCorp'')"
  "device_read_resource now test_device (Strong 0) (Strong 1) absent = ok (V_String ''TEST-001'')"
  "device_read_resource now test_device (Strong 0) (Strong 13) absent = ok (V_Time now)"
  by (simp_all add: device_test_defs)

lemma DeviceObjectTest_SetBatteryLevel:
  "device_read_resource now (set_battery_level 75 test_device) (Strong 0) (Strong 9) absent = ok (V_Int 75)"
  by (simp add: device_test_defs)

lemma DeviceObjectTest_ExecuteReboot:
  "\<exists>s. device_execute_resource (Strong 0) (Strong 4) [] (set_reboot_callback True test_device) =
     (ok (), s, Some Call_Reboot)"
  by (simp add: device_test_defs)

lemma DeviceObjectTest_ErrorCodes:
  "device_read_resource now test_device (Strong 0) (Strong 11) absent = ok (V_Int 0)"
  "device_read_resource now (add_error_code DE_LowBatteryPower test_device) (Strong 0) (Strong 11) absent =
     ok (V_Int 1)"
  "device_read_resource now (clear_error_codes (add_error_code DE_LowBatteryPower test_device))
     (Strong 0) (Strong 11) absent = ok (V_Int 0)"
  by (simp_all add: device_test_defs)

section \<open>LocationObjectTest\<close>

text \<open>41.3851 and 2.1734, altitude 250.5, speed 25.0.\<close>

definition test_position :: "time_point \<Rightarrow> gps_position" where
  "test_position now = \<lparr>gps_latitude = 0x4044B14AF4F0D845, gps_longitude = 0x4001631F8A0902DE,
     gps_altitude = 0x406F500000000000, gps_speed = 0x4039000000000000,
     gps_radius = 0x4024000000000000, gps_timestamp = now\<rparr>"

lemmas location_test_defs = location_init_def update_position_def refresh_position_def
  location_read_resource_def location_write_resource_def location_execute_resource_def Let_def
  is_valid_def double_le_def double_is_nan_def double_key_def

lemma test_position_valid: "is_valid (test_position now)"
  by (simp add: test_position_def location_test_defs)

lemma LocationObjectTest_ObjectId: "strong_value oid_Location = 6" "location_name = ''Location''"
  by (simp_all add: oid_Location_def location_name_def)

lemma LocationObjectTest_InitiallyNoPosition:
  "\<not> loc_has_position (location_init now)"
  "is_err (fst (location_read_resource None (Strong 0) (Strong 0) absent (location_init now)))"
  by (simp_all add: location_test_defs)

lemma LocationObjectTest_UpdatePosition:
  "loc_has_position (update_position (test_position now) s)"
  "gps_latitude (loc_position (update_position (test_position now) s)) = 0x4044B14AF4F0D845"
  "gps_longitude (loc_position (update_position (test_position now) s)) = 0x4001631F8A0902DE"
  by (simp_all add: update_position_def test_position_valid) (simp_all add: test_position_def)

lemma LocationObjectTest_Read:
  assumes "s = update_position (test_position now) (location_init t)"
  shows "fst (location_read_resource None (Strong 0) (Strong 0) absent s) = ok (V_Float 0x4044B14AF4F0D845)"
    "fst (location_read_resource None (Strong 0) (Strong 1) absent s) = ok (V_Float 0x4001631F8A0902DE)"
    "fst (location_read_resource None (Strong 0) (Strong 2) absent s) = ok (V_Float 0x406F500000000000)"
    "fst (location_read_resource None (Strong 0) (Strong 6) absent s) = ok (V_Float 0x4039000000000000)"
    "fst (location_read_resource None (Strong 0) (Strong 5) absent s) = ok (V_Time now)"
  using assms test_position_valid[of now]
  by (simp_all add: location_read_resource_def refresh_position_def update_position_def Let_def)
    (simp_all add: test_position_def)

lemma LocationObjectTest_ReadOnly:
  "fst (location_write_resource (Strong 0) (Strong 0) absent (V_Float v) s) =
     err E_MethodNotAllowed ''Location resources are read-only''"
  "location_execute_resource s (Strong 0) (Strong 0) [] = err E_MethodNotAllowed ''Resource is not executable''"
  by (simp_all add: location_write_resource_def location_execute_resource_def)

text \<open>The provider answers 40.4168 and -3.7038.\<close>

lemma LocationObjectTest_GpsProvider:
  "fst (location_read_resource
      (Some (Some ((test_position now)\<lparr>gps_latitude := 0x40443559B3D07C85, gps_longitude := 0xC00DA161E4F765FE\<rparr>)))
      (Strong 0) (Strong 0) absent (location_init now)) = ok (V_Float 0x40443559B3D07C85)"
  by (simp add: location_test_defs test_position_def)

text \<open>Latitude 200.0; then 45.0 with -90.0, 91.0 with -90.0, 45.0 with 181.0.\<close>

lemma LocationObjectTest_Validity:
  "\<not> loc_has_position (update_position (p\<lparr>gps_latitude := 0x4069000000000000, gps_longitude := 0\<rparr>) s)"
  "is_valid (p\<lparr>gps_latitude := 0x4046800000000000, gps_longitude := 0xC056800000000000\<rparr>)"
  "\<not> is_valid (p\<lparr>gps_latitude := 0x4056C00000000000, gps_longitude := 0xC056800000000000\<rparr>)"
  "\<not> is_valid (p\<lparr>gps_latitude := 0x4046800000000000, gps_longitude := 0x4066A00000000000\<rparr>)"
  by (simp_all add: location_test_defs)

section \<open>FirmwareUpdateObjectTest\<close>

text \<open>Callbacks that succeed, as the lambdas of the tests.\<close>

definition test_callbacks :: firmware_callbacks where
  "test_callbacks = \<lparr>cb_start_download = Some (\<lambda>uri s. (ok (), s)),
     cb_verify_package = Some (\<lambda>data s. (ok (), s)), cb_apply_update = Some (\<lambda>s. (ok (), s))\<rparr>"

definition no_firmware_callbacks :: firmware_callbacks where
  "no_firmware_callbacks = \<lparr>cb_start_download = None, cb_verify_package = None, cb_apply_update = None\<rparr>"

lemmas firmware_test_defs = firmware_init_def firmware_read_resource_def firmware_write_resource_def
  firmware_execute_resource_def push_package_def write_package_uri_def download_complete_def
  update_complete_def set_firmware_state_def set_package_info_def test_callbacks_def
  no_firmware_callbacks_def Let_def

lemma FirmwareUpdateObjectTest_ObjectId:
  "strong_value oid_FirmwareUpdate = 5" "firmware_name = ''Firmware Update''"
  by (simp_all add: oid_FirmwareUpdate_def firmware_name_def)

lemma FirmwareUpdateObjectTest_InitialState:
  "fw_state firmware_init = FS_Idle" "fw_update_result firmware_init = FR_Initial"
  by (simp_all add: firmware_test_defs)

lemma FirmwareUpdateObjectTest_Read:
  "firmware_read_resource firmware_init (Strong 0) (Strong 3) absent = ok (V_Int 0)"
  "firmware_read_resource firmware_init (Strong 0) (Strong 5) absent = ok (V_Int 0)"
  "firmware_read_resource firmware_init (Strong 0) (Strong 9) absent = ok (V_Int 2)"
  by (simp_all add: firmware_test_defs)

lemma FirmwareUpdateObjectTest_WriteOnly:
  "firmware_read_resource s (Strong 0) (Strong 0) absent = err E_MethodNotAllowed ''Package is write-only''"
  "firmware_read_resource s (Strong 0) (Strong 1) absent =
     err E_MethodNotAllowed ''Package URI is write-only''"
  by (simp_all add: firmware_test_defs)

lemma FirmwareUpdateObjectTest_PushPackage:
  "\<exists>s. firmware_write_resource test_callbacks (Strong 0) (Strong 0) absent (V_Opaque [1, 2, 3, 4])
       firmware_init = (ok (), s) \<and> fw_state s = FS_Downloaded"
  by (simp add: firmware_test_defs)

lemma FirmwareUpdateObjectTest_CannotPushPackageWhileDownloading:
  "fst (firmware_write_resource no_firmware_callbacks (Strong 0) (Strong 0) absent (V_Opaque [1, 2, 3, 4])
     (set_firmware_state FS_Downloading firmware_init)) =
   err E_MethodNotAllowed ''Cannot write package in current state''"
  by (simp add: firmware_test_defs)

lemma FirmwareUpdateObjectTest_WritePackageUri:
  "\<exists>s. firmware_write_resource test_callbacks (Strong 0) (Strong 1) absent
       (V_String ''coap://example.com/firmware.bin'') firmware_init = (ok (), s) \<and>
     fw_state s = FS_Downloading"
  by (simp add: firmware_test_defs)

lemma FirmwareUpdateObjectTest_ExecuteUpdateNotInDownloadedState:
  "fst (firmware_execute_resource no_firmware_callbacks (Strong 0) (Strong 2) [] firmware_init) =
   err E_MethodNotAllowed ''Cannot update: not in Downloaded state''"
  by (simp add: firmware_test_defs)

lemma FirmwareUpdateObjectTest_ExecuteUpdate:
  "\<exists>s s'. firmware_write_resource test_callbacks (Strong 0) (Strong 0) absent (V_Opaque [1, 2, 3])
       firmware_init = (ok (), s) \<and> fw_state s = FS_Downloaded \<and>
     firmware_execute_resource test_callbacks (Strong 0) (Strong 2) [] s = (ok (), s') \<and>
     fw_state s' = FS_Updating"
  by (simp add: firmware_test_defs)

lemma FirmwareUpdateObjectTest_DownloadComplete:
  "fw_state (download_complete True (set_firmware_state FS_Downloading s)) = FS_Downloaded"
  "fw_state (download_complete False (set_firmware_state FS_Downloading s)) = FS_Idle"
  "fw_update_result (download_complete False (set_firmware_state FS_Downloading s)) =
     FR_ConnectionLostDuringDownload"
  by (simp_all add: firmware_test_defs)

lemma FirmwareUpdateObjectTest_UpdateComplete:
  "fw_state (update_complete FR_Success (set_firmware_state FS_Updating s)) = FS_Idle"
  "fw_update_result (update_complete FR_Success (set_firmware_state FS_Updating s)) = FR_Success"
  by (simp_all add: firmware_test_defs)

lemma FirmwareUpdateObjectTest_SetPackageInfo:
  "firmware_read_resource (set_package_info ''test-firmware'' ''2.0.0'' firmware_init)
     (Strong 0) (Strong 6) absent = ok (V_String ''test-firmware'')"
  "firmware_read_resource (set_package_info ''test-firmware'' ''2.0.0'' firmware_init)
     (Strong 0) (Strong 7) absent = ok (V_String ''2.0.0'')"
  by (simp_all add: firmware_test_defs)

section \<open>ConnectivityObjectTest\<close>

text \<open>The fixture's configuration.\<close>

definition test_connectivity :: connectivity_object where
  "test_connectivity = connectivity_init \<lparr>ccfg_network_bearer = NB_LTE,
     ccfg_available_bearers = [NB_LTE, NB_WiFi], ccfg_radio_signal_strength = - 65,
     ccfg_link_quality = 85, ccfg_ip_addresses = [''192.168.1.100'', ''10.0.0.50''],
     ccfg_router_ip_addresses = [''192.168.1.1''], ccfg_link_utilization = 25,
     ccfg_apn_list = [''internet'', ''iot.provider.com''], ccfg_cell_id = 12345678, ccfg_smnc = 7,
     ccfg_smcc = 214\<rparr>"

definition read_connectivity ::
  "connectivity_object \<Rightarrow> u16 \<Rightarrow> u16 option \<Rightarrow> resource_value result" where
  "read_connectivity s rid riid =
     connectivity_read_resource s (Strong 0) (Strong rid) (map_option Strong riid)"

lemmas connectivity_test_defs = test_connectivity_def connectivity_init_def read_connectivity_def
  connectivity_read_resource_def read_multiple_def set_network_bearer_def set_signal_strength_def
  set_link_quality_def set_cellular_info_def set_ip_addresses_def Let_def

lemma ConnectivityObjectTest_ObjectId:
  "strong_value oid_ConnectivityMonitoring = 4" "connectivity_name = ''Connectivity Monitoring''"
  by (simp_all add: oid_ConnectivityMonitoring_def connectivity_name_def)

lemma ConnectivityObjectTest_Read:
  "read_connectivity test_connectivity 0 None = ok (V_Int 5)"
  "read_connectivity test_connectivity 1 (Some 0) = ok (V_Int 5)"
  "read_connectivity test_connectivity 1 (Some 1) = ok (V_Int 21)"
  "read_connectivity test_connectivity 2 None = ok (V_Int (- 65))"
  "read_connectivity test_connectivity 3 None = ok (V_Int 85)"
  "read_connectivity test_connectivity 4 (Some 0) = ok (V_String ''192.168.1.100'')"
  "read_connectivity test_connectivity 4 (Some 1) = ok (V_String ''10.0.0.50'')"
  "read_connectivity test_connectivity 8 None = ok (V_Int 12345678)"
  "read_connectivity test_connectivity 10 None = ok (V_Int 214)"
  "read_connectivity test_connectivity 9 None = ok (V_Int 7)"
  "read_connectivity test_connectivity 7 (Some 0) = ok (V_String ''internet'')"
  by (simp_all add: connectivity_test_defs)

lemma ConnectivityObjectTest_ReadOnly:
  "fst (connectivity_write_resource (Strong 0) (Strong 0) absent (V_Int 21) s) =
     err E_MethodNotAllowed ''Connectivity resources are read-only''"
  "connectivity_execute_resource s (Strong 0) (Strong 0) [] =
     err E_MethodNotAllowed ''Resource is not executable''"
  by (simp_all add: connectivity_write_resource_def connectivity_execute_resource_def)

lemma ConnectivityObjectTest_Set:
  "read_connectivity (set_network_bearer NB_WiFi test_connectivity) 0 None = ok (V_Int 21)"
  "read_connectivity (set_signal_strength (- 95) test_connectivity) 2 None = ok (V_Int (- 95))"
  "read_connectivity (set_link_quality 150 test_connectivity) 3 None = ok (V_Int 100)"
  "read_connectivity (set_cellular_info 98765432 310 260 test_connectivity) 8 None = ok (V_Int 98765432)"
  "read_connectivity (set_cellular_info 98765432 310 260 test_connectivity) 10 None = ok (V_Int 310)"
  "read_connectivity (set_cellular_info 98765432 310 260 test_connectivity) 9 None = ok (V_Int 260)"
  "read_connectivity (set_ip_addresses [''10.20.30.40''] test_connectivity) 4 (Some 0) =
     ok (V_String ''10.20.30.40'')"
  by (simp_all add: connectivity_test_defs)

end
