(* ===== verification/Spec2Isabelle.thy ===== *)
theory Spec2Isabelle
  imports Tlv_Grammar Http_Downloads Example_Client Client_Locking Client_Limits
    Unit_Tests Unit_Tests_Objects
begin

text \<open>
  A verification development for Ferriot, an LWM2M client library in C++: the data model and its
  identifiers, the objects a server manages, the TLV codec, the CoAP layer, the client that ties
  them together, and the downloader of firmware images.

  The program. \<open>Client\<close> (\<open>include/lwm2m/client.hpp\<close>, \<open>src/client.cpp\<close>)
  owns a table of objects, one CoAP connection per server and the registrations. Requests from a
  server arrive through \<open>CoapClientImpl\<close> (\<open>src/transport/coap_client.cpp\<close>) and
  are handled by \<open>handle_incoming_request\<close>, which parses the path
  (\<open>src/types.cpp\<close>), calls the virtual operations of an object (\<open>src/objects/*.cpp\<close>)
  and encodes or decodes TLV (\<open>src/codec/tlv.cpp\<close>). A thread polls the connections, renews
  registrations, detects lost connections and reconnects.

  Theories and code.
  \<^item> \<open>Prelude\<close>: C++ integers as words, strings and bytes, unordered maps as association
    lists. \<open>Results\<close>: \<open>result.hpp\<close>. \<open>Paths\<close>: \<open>types.hpp\<close> and
    \<open>types.cpp\<close>. \<open>Resources\<close>: \<open>resource.hpp/.cpp\<close>.
  \<^item> \<open>Floats\<close>: the IEEE double operations that the code uses, on bit patterns.
  \<^item> \<open>Tlv_Encoder\<close>, \<open>Tlv_Decoder\<close>: \<open>codec/tlv.hpp/.cpp\<close>;
    \<open>Tlv_Codec\<close>: their round trips, bounds and errors; \<open>Tlv_Grammar\<close>: the
    format as a grammar in plain arithmetic, which the decoder accepts exactly.
  \<^item> \<open>Objects\<close>: \<open>object.hpp/.cpp\<close> and the interface of all objects as the
    locales \<open>lwm2m_object\<close> and \<open>single_object\<close>; \<open>Instance_Table\<close>: what
    the two multi-instance objects share, as locales; \<open>Security_Object\<close>,
    \<open>Server_Object\<close>, \<open>Device_Object\<close>, \<open>Connectivity_Object\<close>,
    \<open>Firmware_Object\<close>, \<open>Location_Object\<close>: one theory per file of
    \<open>src/objects\<close>, each interpreting the interface on its operations.
    \<open>Resource_Catalogue\<close>: the resource ids of their headers and what their comments document.
  \<^item> \<open>Coap_Types\<close>: \<open>transport/coap_client.hpp\<close>. \<open>Coap_Client\<close>:
    \<open>transport/coap_client.cpp\<close> over a record of answers of libcoap;
    \<open>Coap_Connection\<close>, \<open>Coap_Exchange\<close>, \<open>Coap_Paths\<close>: its properties.
  \<^item> \<open>Client_Objects\<close>: the client's state, its object table and the virtual calls, on
    which the object interface is interpreted once more. \<open>Client_Requests\<close>: the request
    handlers. \<open>Client_Session\<close>: registration, update, deregistration, lifecycle, periodic
    checks, reconnection, event loop.
  \<^item> \<open>Client_Invariants\<close>, \<open>Client_Timers\<close>, \<open>Client_Properties\<close>,
    \<open>Client_Recovery\<close>: what the client's operations keep and achieve.
    \<open>Client_Observer\<close>: the client as its callbacks show it, an abstract machine that every
    operation refines. \<open>Client_Outage\<close>: reconnection over many polls.
    \<open>Client_Transport\<close>: the client's requests as options on the wire;
    \<open>Client_Wire\<close>: requests from the server, from the PDU through the handler to the PDU of the
    reply. \<open>Client_Lifecycle\<close>: the threads of the client, the two mutexes, the event loop
    and \<open>start\<close> and \<open>stop\<close> as a step relation over the code each thread still runs;
    \<open>Client_Locking\<close>: its locking discipline, what callbacks may call and what they may not.
    \<open>Client_Limits\<close>: edges of the client's behaviour. \<open>Example_Client\<close>: \<open>examples/lwm2m_client.cpp\<close> as a composition of it all.
  \<^item> \<open>Float_Arith\<close>: the rest of the double arithmetic. \<open>Http_Downloader\<close>:
    \<open>transport/http_downloader.hpp/.cpp\<close>, the application and the download thread as one
    step function with the reachable states; \<open>Http_Downloads\<close>: what all interleavings keep.
  \<^item> \<open>Unit_Tests\<close>, \<open>Unit_Tests_Objects\<close>: the unit tests of \<open>src/tests\<close>
    restated on the model, each under its own name.

  How state and operations correspond. A class is a record with one field per member; a member
  function is a definition of the same name that takes the record last and returns it updated.
  \<open>Result<T>\<close> is a sum with the error on the left; an exception of the code is a value of
  its own type. \<open>std::optional\<close> is \<open>option\<close>. Fixed-width integers are words of
  that width; signed ones are read with \<open>sint\<close>. Time points and durations are the 64-bit
  counts of their unit. Callbacks of the application are parameters where their result matters and
  recorded calls in a log where it does not.

  Scripts. Whatever the outside decides is an argument: what arrives while the client waits
  (\<open>exchange\<close>, \<open>io\<close>), clock readings, what libcoap answers (\<open>libcoap\<close>)
  and delivers (\<open>attempt\<close>, \<open>net_event\<close>). A script is finite; nothing is proved of
  the code that depends on its length except where a theorem says so: \<open>coap_send\<close> answers
  \<open>None\<close> when the script ends while the loop still waits, and \<open>send_returns\<close> shows
  that a script whose clock passes the deadline is long enough. Every call of
  \<open>coap_io_process\<close> returns in the model; \<open>send_waits\<close> shows when the code asks for a wait
  that libcoap does not limit. The recursion of the TLV decoder
  ends by its depth limit and by the shrinking input, that of the path and query loops by the
  remaining length; no other fuel is used.

  What the lemmas show. Codec: decoding inverts encoding for records, resources, instances and
  values, the output is bounded by the input at every level, truncation is detected. Objects:
  reads and writes of typed values, instance tables without duplicate ids, the edges and the
  results of the firmware update machine, error lists and positions, and that the objects serve
  exactly what their headers document, two resources apart. Requests: which responses carry a
  code, what a request may change, that a Read decodes to what the object holds. Session: that the
  mandatory objects stay served, the invariant of all reachable clients, the effects of
  registration, update, deregistration and stop on state, tables and the requests sent, backoff
  and update times through the double arithmetic, recovery after a loss and after an outage of any
  length, and the refinement of the callback view. Wire: a resource read or written through PDUs
  keeps its value and its declared type. Transport: which connections are opened, the reference
  count of libcoap, that a send takes only its own response, how long it lets libcoap wait, what a
  send nested in a send loses, and which Location-Path segments survive the client. Threads: at
  most one event loop whatever the callbacks call; no deadlock and no termination of the program
  while callbacks neither start nor stop the client; a stop returns within an explicit number of
  steps; and the three schedules in which a callback that stops the client breaks this. Downloads:
  what a completion says of the file, when the flag is set, and that every download makes one
  completion.

  Not modelled. libcoap, libcurl, the file system and the clocks themselves; the
  instructions of one operation of the client interleaved with those of another, which its recursive
  mutex excludes (the lifecycle theories interleave at locks, joins and the flag, and take the body
  of an operation as the callbacks it makes); objects that an
  application derives from \<open>Object\<close> beyond the interface; \<open>std::hash\<close>; debug
  output; the integration tests, which need a running server. The order in which an
  unordered map is iterated is the order of the list, and the lemmas hold for every order.
\<close>

end
